(* ===== verification/Prelude.thy ===== *)
theory Prelude
  imports Main "HOL-Library.Word"
begin

unbundle bit_operations_syntax

text \<open>
  Shared vocabulary of the development: names for the C integer types, the collections of
  rewrite rules the component theories extend, the loop \<open>for (i = 0; i < n; i++) dst[b + i] = src[i]\<close>
  that both sides of the tracer use, and the contract \<open>live_tracker\<close> which the kernel's
  map of active allocations and the collector's hash table both implement.
\<close>

type_synonym u8 = "8 word"
type_synonym u32 = "32 word"
type_synonym u64 = "64 word"

text \<open>
  Signed C integers are kept as words of the same width and read with \<^const>\<open>sint\<close>.
\<close>

type_synonym s32 = "32 word"
type_synonym s64 = "64 word"

named_theorems layout_defs \<open>constants of the event layout\<close>
named_theorems bpf_defs \<open>definitions of the kernel-side handlers and their helpers\<close>

section \<open>Array writes\<close>

text \<open>
  \<open>copy_words b n src dst\<close>: the state of \<open>dst\<close> after \<open>n\<close> iterations of the copying loop.
\<close>

primrec copy_words :: "nat \<Rightarrow> nat \<Rightarrow> 'a list \<Rightarrow> 'a list \<Rightarrow> 'a list" where
  "copy_words b 0 src dst = dst"
| "copy_words b (Suc i) src dst = (copy_words b i src dst)[b + i := src ! i]"

lemma length_copy_words [simp]: "length (copy_words b n src dst) = length dst"
  by (induction n) auto

lemma nth_copy_words:
  "j < length dst \<Longrightarrow>
   copy_words b n src dst ! j = (if b \<le> j \<and> j < b + n then src ! (j - b) else dst ! j)"
  by (induction n) (auto simp: nth_list_update less_Suc_eq)

lemma copy_words_slice:
  assumes "b + n \<le> length dst" and "n \<le> length src"
  shows "take n (drop b (copy_words b n src dst)) = take n src"
  using assms by (intro nth_equalityI) (auto simp: nth_copy_words)

text \<open>A helper that writes a prefix of a buffer and leaves the rest of it alone.\<close>

definition overwrite :: "'a list \<Rightarrow> 'a list \<Rightarrow> 'a list" where
  "overwrite buf data = take (length buf) data @ drop (length data) buf"

lemma length_overwrite [simp]: "length (overwrite buf data) = length buf"
  by (simp add: overwrite_def)

lemma overwrite_take: "n \<le> length buf \<Longrightarrow> n \<le> length data \<Longrightarrow> take n (overwrite buf data) = take n data"
  by (simp add: overwrite_def)

section \<open>Searching\<close>

lemma find_mem: "find P xs = Some x \<Longrightarrow> x \<in> set xs \<and> P x"
  by (induction xs) (auto split: if_splits)

lemma find_append_eq: "find P (xs @ ys) = (case find P xs of None \<Rightarrow> find P ys | Some x \<Rightarrow> Some x)"
  by (induction xs) auto

section \<open>Words\<close>

lemma nat_sint_eq_unat: "0 \<le> sint (x :: s32) \<Longrightarrow> nat (sint x) = unat x"
proof -
  assume a: "0 \<le> sint x"
  have "sint x < 2 ^ 31" using sint_lt [of x] by simp
  with a have "take_bit 32 (sint x) = sint x"
    by (simp add: take_bit_int_eq_self_iff)
  then have "uint x = sint x" using uint_sint [of x] by simp
  then show ?thesis by (simp add: nat_uint_eq [symmetric])
qed

lemma unat_scast_nonneg: "0 \<le> sint (x :: s32) \<Longrightarrow> unat (scast x :: u64) = nat (sint x)"
proof -
  assume a: "0 \<le> sint x"
  have "sint x < 2 ^ 31" using sint_lt [of x] by simp
  with a have "take_bit 64 (sint x) = sint x" by (simp add: take_bit_int_eq_self_iff)
  moreover have "uint (scast x :: u64) = take_bit 64 (sint x)"
    by (simp only: scast_eq unsigned_of_int) simp
  ultimately have "uint (scast x :: u64) = sint x" by simp
  then show ?thesis by (simp add: nat_uint_eq [symmetric])
qed

lemma and_mask_less: "(m :: 'a :: len word) \<noteq> 0 \<Longrightarrow> unat (x AND (m - 1)) < unat m"
proof -
  assume "m \<noteq> 0"
  have "x AND (m - 1) \<le> m - 1"
    by (rule word_and_le1)
  also have "m - 1 < m"
    using \<open>m \<noteq> 0\<close> measure_unat [of m] by (simp add: word_less_nat_alt)
  finally show ?thesis
    by (simp add: word_less_nat_alt)
qed

lemma unat_u64: "unat (x :: u64) < 2 ^ 64"
  using unsigned_less [of x] by simp

lemma unat_word: "n < 2 ^ 64 \<Longrightarrow> unat (of_nat n :: u64) = n"
  by (simp only: unat_of_nat) simp

lemma sint_small: "unat (x :: u64) < 2 ^ 63 \<Longrightarrow> sint x = int (unat x)"
proof -
  assume "unat x < 2 ^ 63"
  then have "int (unat x) < int (2 ^ 63)" by (simp only: of_nat_less_iff)
  then have u: "uint x < 2 ^ 63" by simp
  have "sint x = signed_take_bit 63 (uint x)" using sint_uint [of x] by simp
  also have "\<dots> = uint x"
  proof (rule signed_take_bit_int_eq_self)
    have "(0 :: int) \<le> uint x" by simp
    then show "- (2 ^ 63) \<le> uint x" by (rule order_trans [rotated]) simp
  qed (rule u)
  finally show ?thesis by simp
qed

section \<open>Trackers of live allocations\<close>

text \<open>
  A tracker follows allocation and release of addresses. \<open>view s a\<close> is what a lookup of
  address \<open>a\<close> finds, \<open>invar n s\<close> says that the state is well formed and has room for \<open>n\<close>
  more allocations, and \<open>content i\<close> is what an allocation call with input \<open>i\<close> records. The
  contract covers clients that allocate an address only while it is not live, as an allocator
  does.
\<close>

datatype ('a, 'i) tracker_op = Alloc (op_key: 'a) (op_input: 'i) | Release (op_key: 'a) (op_input: 'i)

primrec n_allocs :: "('a, 'i) tracker_op list \<Rightarrow> nat" where
  "n_allocs [] = 0"
| "n_allocs (x # xs) = (case x of Alloc _ _ \<Rightarrow> Suc (n_allocs xs) | Release _ _ \<Rightarrow> n_allocs xs)"

text \<open>The specification: a partial map from addresses to what was recorded for them.\<close>

fun spec_step :: "('i \<Rightarrow> 'r) \<Rightarrow> ('a, 'i) tracker_op \<Rightarrow> ('a \<rightharpoonup> 'r) \<Rightarrow> ('a \<rightharpoonup> 'r)" where
  "spec_step content (Alloc a i) m = m(a \<mapsto> content i)"
| "spec_step content (Release a i) m = m(a := None)"

text \<open>A trace that allocates only valid addresses that are not live.\<close>

fun fresh_trace ::
  "('a \<Rightarrow> bool) \<Rightarrow> ('i \<Rightarrow> 'r) \<Rightarrow> ('a, 'i) tracker_op list \<Rightarrow> ('a \<rightharpoonup> 'r) \<Rightarrow> bool" where
  "fresh_trace ok content [] m = True"
| "fresh_trace ok content (Alloc a i # xs) m =
     (ok a \<and> m a = None \<and> fresh_trace ok content xs (spec_step content (Alloc a i) m))"
| "fresh_trace ok content (Release a i # xs) m =
     (ok a \<and> fresh_trace ok content xs (spec_step content (Release a i) m))"

locale live_tracker =
  fixes invar :: "nat \<Rightarrow> 's \<Rightarrow> bool"
    and view :: "'s \<Rightarrow> 'a \<Rightarrow> 'r option"
    and ok :: "'a \<Rightarrow> bool"
    and content :: "'i \<Rightarrow> 'r"
    and alloc :: "'a \<Rightarrow> 'i \<Rightarrow> 's \<Rightarrow> 's"
    and release :: "'a \<Rightarrow> 'i \<Rightarrow> 's \<Rightarrow> 's"
  assumes view_alloc: "invar (Suc n) s \<Longrightarrow> ok a \<Longrightarrow> view s a = None \<Longrightarrow>
      view (alloc a i s) = (view s)(a \<mapsto> content i)"
    and invar_alloc: "invar (Suc n) s \<Longrightarrow> ok a \<Longrightarrow> view s a = None \<Longrightarrow> invar n (alloc a i s)"
    and view_release: "invar n s \<Longrightarrow> ok a \<Longrightarrow> view (release a i s) = (view s)(a := None)"
    and invar_release: "invar n s \<Longrightarrow> ok a \<Longrightarrow> invar n (release a i s)"
begin

primrec step :: "('a, 'i) tracker_op \<Rightarrow> 's \<Rightarrow> 's" where
  "step (Alloc a i) s = alloc a i s"
| "step (Release a i) s = release a i s"

lemma run_refines:
  "invar (n_allocs ops) s \<Longrightarrow> fresh_trace ok content ops (view s) \<Longrightarrow>
   invar 0 (fold step ops s) \<and> view (fold step ops s) = fold (spec_step content) ops (view s)"
proof (induction ops arbitrary: s)
  case Nil
  then show ?case by simp
next
  case (Cons x ops)
  show ?case
  proof (cases x)
    case (Alloc a i)
    with Cons.prems have inv: "invar (Suc (n_allocs ops)) s" and a: "ok a" "view s a = None"
      by auto
    have v: "view (alloc a i s) = (view s)(a \<mapsto> content i)"
      using inv a by (rule view_alloc)
    show ?thesis
      using Cons.IH [OF invar_alloc [OF inv a]] Cons.prems(2) Alloc
      by (simp only: v fresh_trace.simps spec_step.simps fold_simps comp_apply step.simps)
  next
    case (Release a i)
    with Cons.prems have inv: "invar (n_allocs ops) s" and a: "ok a" by auto
    have v: "view (release a i s) = (view s)(a := None)"
      using inv a by (rule view_release)
    show ?thesis
      using Cons.IH [OF invar_release [OF inv a]] Cons.prems(2) Release
      by (simp only: v fresh_trace.simps spec_step.simps fold_simps comp_apply step.simps)
  qed
qed

end

end
