(* ===== verification/Std_Algorithms.thy ===== *)
theory Std_Algorithms
  imports Prelude "HOL-Library.Multiset"
begin

text \<open>
  The algorithms of the C++ standard library that the resolver uses: \<open>std::sort\<close>, of which only
  the contract is fixed because it may order equivalent elements in any way, \<open>std::upper_bound\<close>
  as the bisection it is, and \<open>std::unique\<close> after a sort.
\<close>

section \<open>Sorting\<close>

text \<open>\<open>std::sort\<close> with the comparison \<open>lt\<close>: a permutation in which no later element is below an earlier one.\<close>

definition sorts_by :: "('a \<Rightarrow> 'a \<Rightarrow> bool) \<Rightarrow> ('a list \<Rightarrow> 'a list) \<Rightarrow> bool" where
  "sorts_by lt srt \<longleftrightarrow>
     (\<forall>xs. mset (srt xs) = mset xs \<and> sorted_wrt (\<lambda>a b. \<not> lt b a) (srt xs))"

locale sorter =
  fixes key :: "'a \<Rightarrow> 'k :: linorder" and lt :: "'a \<Rightarrow> 'a \<Rightarrow> bool" and srt :: "'a list \<Rightarrow> 'a list"
  assumes lt_key: "key a < key b \<Longrightarrow> lt a b"
    and srt: "sorts_by lt srt"
begin

lemma mset_srt [simp]: "mset (srt xs) = mset xs"
  using srt by (simp add: sorts_by_def)

lemma set_srt [simp]: "set (srt xs) = set xs"
  by (metis mset_srt set_mset_mset)

lemma length_srt [simp]: "length (srt xs) = length xs"
  by (metis mset_srt size_mset)

lemma srt_keys: "sorted (map key (srt xs))"
proof -
  have "sorted_wrt (\<lambda>a b. \<not> lt b a) (srt xs)"
    using srt by (simp add: sorts_by_def)
  then have "sorted_wrt (\<lambda>a b. key a \<le> key b) (srt xs)"
    by (rule sorted_wrt_mono_rel [rotated]) (use lt_key not_le_imp_less in blast)
  then show ?thesis by (simp add: sorted_wrt_map)
qed

end

section \<open>Bisection\<close>

text \<open>
  \<open>upper_bound(first, first + n, v, cmp)\<close> as an index; \<open>gt x\<close> is \<open>cmp(v, x)\<close>.
\<close>

function bisect :: "('a \<Rightarrow> bool) \<Rightarrow> 'a list \<Rightarrow> nat \<Rightarrow> nat \<Rightarrow> nat" where
  "bisect gt xs first n =
     (if n = 0 then first
      else let half = n div 2; mid = first + half
           in if gt (xs ! mid) then bisect gt xs first half
              else bisect gt xs (Suc mid) (n - half - 1))"
  by auto

termination
  by (relation "measure (\<lambda>(gt, xs, first, n). n)") auto

declare bisect.simps [simp del]

definition upper_bound :: "('a \<Rightarrow> bool) \<Rightarrow> 'a list \<Rightarrow> nat" where
  "upper_bound gt xs = bisect gt xs 0 (length xs)"

text \<open>On a list that is partitioned by \<open>gt\<close> the bisection finds the border.\<close>

definition partitioned :: "('a \<Rightarrow> bool) \<Rightarrow> 'a list \<Rightarrow> bool" where
  "partitioned gt xs \<longleftrightarrow> (\<forall>i j. i \<le> j \<and> j < length xs \<and> gt (xs ! i) \<longrightarrow> gt (xs ! j))"

lemma partitionedD: "partitioned gt xs \<Longrightarrow> gt (xs ! i) \<Longrightarrow> i \<le> j \<Longrightarrow> j < length xs \<Longrightarrow> gt (xs ! j)"
  by (auto simp: partitioned_def)

definition border :: "('a \<Rightarrow> bool) \<Rightarrow> 'a list \<Rightarrow> nat \<Rightarrow> bool" where
  "border gt xs b \<longleftrightarrow> b \<le> length xs \<and> (\<forall>i < length xs. gt (xs ! i) \<longleftrightarrow> b \<le> i)"

lemma bisect_border:
  "partitioned gt xs \<Longrightarrow> first + n \<le> length xs \<Longrightarrow>
   (\<And>i. i < first \<Longrightarrow> \<not> gt (xs ! i)) \<Longrightarrow> (\<And>i. first + n \<le> i \<Longrightarrow> i < length xs \<Longrightarrow> gt (xs ! i)) \<Longrightarrow>
   border gt xs (bisect gt xs first n)"
proof (induction gt xs first n rule: bisect.induct)
  case (1 gt xs first n)
  note part = "1.prems"(1)
  show ?case
  proof (cases "n = 0")
    case True
    then have "bisect gt xs first n = first" by (subst bisect.simps) simp
    moreover have "gt (xs ! i) \<longleftrightarrow> first \<le> i" if "i < length xs" for i
      using True that "1.prems"(3) [of i] "1.prems"(4) [of i] by linarith
    ultimately show ?thesis using "1.prems"(2) by (simp add: border_def)
  next
    case False
    define half where "half = n div 2"
    have h: "half < n" using False by (simp add: half_def)
    show ?thesis
    proof (cases "gt (xs ! (first + half))")
      case True
      have "border gt xs (bisect gt xs first half)"
      proof (rule "1.IH"(1) [OF False half_def refl True part])
        show "first + half \<le> length xs" using h "1.prems"(2) by simp
        show "\<And>i. i < first \<Longrightarrow> \<not> gt (xs ! i)" by (rule "1.prems"(3))
        show "\<And>i. first + half \<le> i \<Longrightarrow> i < length xs \<Longrightarrow> gt (xs ! i)"
          by (rule partitionedD [OF part True])
      qed
      moreover have "bisect gt xs first n = bisect gt xs first half"
        using False True by (subst bisect.simps) (simp add: half_def Let_def)
      ultimately show ?thesis by simp
    next
      case below: False
      have len: "first + half < length xs" using h "1.prems"(2) by linarith
      have "border gt xs (bisect gt xs (Suc (first + half)) (n - half - 1))"
      proof (rule "1.IH"(2) [OF False half_def refl below part])
        show "Suc (first + half) + (n - half - 1) \<le> length xs" using h "1.prems"(2) by simp
        show "\<not> gt (xs ! i)" if "i < Suc (first + half)" for i
          using partitionedD [OF part _ _ len, of i] that below by auto
        show "gt (xs ! i)" if "Suc (first + half) + (n - half - 1) \<le> i" "i < length xs" for i
          using "1.prems"(4) [of i] that h by simp
      qed
      moreover have "bisect gt xs first n = bisect gt xs (Suc (first + half)) (n - half - 1)"
        using False below by (subst bisect.simps) (simp add: half_def Let_def)
      ultimately show ?thesis by simp
    qed
  qed
qed

lemma upper_bound_border: "partitioned gt xs \<Longrightarrow> border gt xs (upper_bound gt xs)"
  unfolding upper_bound_def by (rule bisect_border) auto

lemma upper_bound_takeWhile:
  assumes "sorted (map key xs)"
  shows "upper_bound (\<lambda>x. v < key x) xs = length (takeWhile (\<lambda>x. key x \<le> v) xs)"
proof -
  let ?u = "upper_bound (\<lambda>x. v < key x) xs"
  have "key (xs ! i) \<le> key (xs ! j)" if "i \<le> j" "j < length xs" for i j
    using sorted_nth_mono [OF assms, of i j] that by simp
  then have "partitioned (\<lambda>x. v < key x) xs"
    unfolding partitioned_def by (meson order_less_le_trans)
  then have u: "?u \<le> length xs" "i < length xs \<Longrightarrow> v < key (xs ! i) \<longleftrightarrow> ?u \<le> i" for i
    using upper_bound_border [of "\<lambda>x. v < key x" xs] by (auto simp: border_def)
  have "takeWhile (\<lambda>x. key x \<le> v) xs = take ?u xs"
  proof (rule takeWhile_eq_take_P_nth)
    fix i assume "i < ?u" "i < length xs"
    then show "key (xs ! i) \<le> v" using u(2) [of i] by (simp add: not_less)
  next
    assume "?u < length xs"
    then show "\<not> key (xs ! ?u) \<le> v" using u(2) [of ?u] by (simp add: not_le)
  qed
  with u show ?thesis by simp
qed

section \<open>Sorting and removing duplicates\<close>

text \<open>\<open>v.erase(std::unique(v.begin(), v.end()), v.end())\<close>: of equal neighbours the first stays.\<close>

fun unique :: "'a list \<Rightarrow> 'a list" where
  "unique [] = []"
| "unique [x] = [x]"
| "unique (x # y # ys) = (if x = y then unique (x # ys) else x # unique (y # ys))"

lemma unique_eq_remdups_adj: "unique xs = remdups_adj xs"
  by (induction xs rule: unique.induct) auto

lemma set_unique [simp]: "set (unique xs) = set xs"
  by (simp add: unique_eq_remdups_adj)

lemma sorted_unique: "sorted xs \<Longrightarrow> sorted (unique xs)"
  by (simp add: unique_eq_remdups_adj sorted_remdups_adj)

lemma sorted_unique_distinct: "sorted xs \<Longrightarrow> distinct (unique xs)"
proof (induction xs rule: unique.induct)
  case (3 x y ys)
  show ?case
  proof (cases "x = y")
    case True
    with 3 show ?thesis by simp
  next
    case False
    with "3.prems" have "x \<notin> set (y # ys)" by auto
    with False 3 show ?thesis by simp
  qed
qed simp_all

end
