(* ===== verification/Dwarf_Info.thy ===== *)
theory Dwarf_Info
  imports Std_Algorithms
begin

text \<open>
  The data and the loading half of \<open>src/dwarf/dwarf_analyzer.cpp\<close>: tables of types, symbols and
  subprograms, filled from the ELF symbol tables and from a walk over the DWARF entries. libdw and
  libelf are not part of the program: their answers are the fields of \<open>libdw\<close> and \<open>elf\<close>. A DIE is
  what libdw lets the code see of it: its tag, offset, name, attributes and children.
\<close>

section \<open>Tables\<close>

record field_info =
  fi_name :: string
  fi_bit_offset :: u64
  fi_bit_size :: u64
  fi_byte_offset :: u64
  fi_byte_size :: u64
  fi_is_bitfield :: bool
  fi_type_name :: string
  fi_is_pointer :: bool
  fi_is_array :: bool
  fi_array_element_count :: u64
  fi_full_qualified_name :: string

datatype type_tag =
    TAG_STRUCT | TAG_UNION | TAG_ENUM | TAG_TYPEDEF | TAG_BASE_TYPE | TAG_POINTER | TAG_ARRAY
  | TAG_FUNCTION | TAG_UNKNOWN

record type_info =
  ti_die_offset :: u64
  ti_name :: string
  ti_linkage_name :: string
  ti_byte_size :: u64
  ti_alignment :: u64
  ti_tag :: type_tag
  ti_fields :: "field_info list"
  ti_source_file :: string
  ti_source_line :: u32

datatype binding = BIND_LOCAL | BIND_GLOBAL | BIND_WEAK

datatype sym_type = SYM_FUNC | SYM_OBJECT | SYM_UNKNOWN

record symbol_info =
  sy_name :: string
  sy_address :: u64
  sy_size :: u64
  sy_type_name :: string
  sy_type_die_offset :: u64
  sy_binding :: binding
  sy_sym_type :: sym_type

record local_variable =
  lv_name :: string
  lv_type_name :: string
  lv_type_die_offset :: u64
  lv_is_pointer :: bool
  lv_target_offset :: u64
  lv_target_name :: string

record location_entry =
  le_begin :: u64
  le_end :: u64
  le_reg :: s32
  le_offset :: s64
  le_is_cfa :: bool

record subprogram =
  sp_name :: string
  sp_linkage_name :: string
  sp_low_pc :: u64
  sp_high_pc :: u64
  sp_high_is_offset :: bool
  sp_die_offset :: u64
  sp_frame_base :: "location_entry list"
  sp_source_file :: string
  sp_source_line :: u32
  sp_locals :: "local_variable list"

record cie_record =
  ci_cie_offset :: u64
  ci_version :: u32
  ci_address_size :: u8
  ci_segment_size :: u8
  ci_code_alignment_factor :: u64
  ci_data_alignment_factor :: s64
  ci_return_address_register :: u64
  ci_initial_instructions :: "u8 list"
  ci_augmentation :: string

record fde_record =
  fd_fde_offset :: u64
  fd_cie_pointer :: u64
  fd_initial_location :: u64
  fd_address_range :: u64
  fd_instructions :: "u8 list"
  fd_cie :: "cie_record option"

record analyzer =
  binary_path :: string
  loaded :: bool
  types :: "type_info list"
  symbols :: "symbol_info list"
  cie_records :: "cie_record list"
  fde_records :: "fde_record list"
  subprograms :: "subprogram list"
  type_name_index :: "string \<rightharpoonup> nat"
  type_offset_index :: "u64 \<rightharpoonup> nat"
  symbol_name_index :: "string \<rightharpoonup> nat"
  symbol_addr_index :: "u64 \<rightharpoonup> nat"
  subprogram_name_index :: "string \<rightharpoonup> nat"
  file_table :: "u64 \<rightharpoonup> string"

definition empty_analyzer :: analyzer where
  "empty_analyzer =
     \<lparr>binary_path = [], loaded = False, types = [], symbols = [], cie_records = [], fde_records = [],
      subprograms = [], type_name_index = Map.empty, type_offset_index = Map.empty,
      symbol_name_index = Map.empty, symbol_addr_index = Map.empty, subprogram_name_index = Map.empty,
      file_table = Map.empty\<rparr>"

section \<open>What libdw and libelf show\<close>

datatype dw_tag =
    DW_TAG_array_type | DW_TAG_enumeration_type | DW_TAG_member | DW_TAG_pointer_type
  | DW_TAG_structure_type | DW_TAG_subroutine_type | DW_TAG_typedef | DW_TAG_union_type
  | DW_TAG_base_type | DW_TAG_subprogram | DW_TAG_variable | DW_TAG_other nat

datatype dw_at =
    DW_AT_location | DW_AT_byte_size | DW_AT_bit_size | DW_AT_low_pc | DW_AT_high_pc
  | DW_AT_data_member_location | DW_AT_decl_file | DW_AT_decl_line | DW_AT_type
  | DW_AT_data_bit_offset | DW_AT_linkage_name | DW_AT_alignment

datatype 'a die =
  Die (die_tag: dw_tag) (die_offset: u64) (die_name: "string option") (die_attr: "dw_at \<Rightarrow> 'a option")
    (die_children: "'a die list")

record dw_op =
  op_atom :: u8
  op_number :: u64
  op_offset :: u64

text \<open>
  \<open>units\<close> are the DIEs that \<open>dwarf_offdie\<close> gives for the units of \<open>dwarf_nextcu\<close>. \<open>cfi_frame\<close> is absent without
  call frame information; for a program counter it says whether there is a frame, and then what
  \<open>dwarf_frame_cfa\<close> gives. \<open>getsrc_die\<close> is the line of a program counter, with its \<open>dwarf_linesrc\<close> and
  \<open>dwarf_lineno\<close>.
\<close>

record 'a libdw =
  has_dwarf :: bool
  units :: "'a die option list"
  formudata :: "'a \<Rightarrow> u64 option"
  formaddr :: "'a \<Rightarrow> u64 option"
  formstring :: "'a \<Rightarrow> string option"
  formref_die :: "'a \<Rightarrow> 'a die option"
  getlocation :: "'a \<Rightarrow> dw_op list option"
  aggregate_size :: "'a die \<Rightarrow> u64 option"
  offdie :: "u64 \<Rightarrow> 'a die option"
  cfi_frame :: "(u64 \<Rightarrow> dw_op list option option) option"
  haspc :: "'a die \<Rightarrow> u64 \<Rightarrow> bool"
  has_srclines :: "'a die \<Rightarrow> bool"
  getsrc_die :: "'a die \<Rightarrow> u64 \<Rightarrow> (string option \<times> u32) option"

definition DW_OP_addr :: u8 where
  "DW_OP_addr = 0x03"

definition DW_OP_breg0 :: u8 where
  "DW_OP_breg0 = 0x70"

definition DW_OP_breg31 :: u8 where
  "DW_OP_breg31 = 0x8f"

definition DW_OP_fbreg :: u8 where
  "DW_OP_fbreg = 0x91"

text \<open>\<open>if (dwarf_attr(die, at, &attr)) if (f(&attr, &val) == 0)\<close>.\<close>

definition attr_val :: "('a \<Rightarrow> 'v option) \<Rightarrow> 'a die \<Rightarrow> dw_at \<Rightarrow> 'v option" where
  "attr_val f d a = Option.bind (die_attr d a) f"

definition name_or :: "'a die \<Rightarrow> string \<Rightarrow> string" where
  "name_or d s = (case die_name d of None \<Rightarrow> s | Some n \<Rightarrow> n)"

section \<open>Types\<close>

fun map_tag :: "dw_tag \<Rightarrow> type_tag" where
  "map_tag DW_TAG_structure_type = TAG_STRUCT"
| "map_tag DW_TAG_union_type = TAG_UNION"
| "map_tag DW_TAG_enumeration_type = TAG_ENUM"
| "map_tag DW_TAG_typedef = TAG_TYPEDEF"
| "map_tag DW_TAG_base_type = TAG_BASE_TYPE"
| "map_tag DW_TAG_pointer_type = TAG_POINTER"
| "map_tag DW_TAG_array_type = TAG_ARRAY"
| "map_tag DW_TAG_subroutine_type = TAG_FUNCTION"
| "map_tag _ = TAG_UNKNOWN"

definition zero_field :: field_info where
  "zero_field =
     \<lparr>fi_name = [], fi_bit_offset = 0, fi_bit_size = 0, fi_byte_offset = 0, fi_byte_size = 0,
      fi_is_bitfield = False, fi_type_name = [], fi_is_pointer = False, fi_is_array = False,
      fi_array_element_count = 0, fi_full_qualified_name = []\<rparr>"

text \<open>The type reference of a member: its name and kind, and its size if no other is known.\<close>

definition member_type :: "'a libdw \<Rightarrow> 'a die \<Rightarrow> field_info \<Rightarrow> field_info" where
  "member_type dw d f =
     (case attr_val (formref_die dw) d DW_AT_type of
        None \<Rightarrow> f
      | Some td \<Rightarrow>
          let f = f\<lparr>fi_type_name := name_or td (fi_type_name f),
                    fi_is_pointer := die_tag td = DW_TAG_pointer_type,
                    fi_is_array := die_tag td = DW_TAG_array_type\<rparr>
          in if fi_byte_size f = 0 then
               (case aggregate_size dw td of
                  None \<Rightarrow> f
                | Some n \<Rightarrow> if 0 < n then f\<lparr>fi_byte_size := n\<rparr> else f)
             else f)"

definition process_member_die :: "'a libdw \<Rightarrow> 'a die \<Rightarrow> type_info \<Rightarrow> type_info" where
  "process_member_die dw d parent =
     (case die_name d of
        None \<Rightarrow> parent
      | Some name \<Rightarrow>
          let f = zero_field\<lparr>fi_name := name, fi_full_qualified_name := ti_name parent @ ''::'' @ name\<rparr>;
              f = (case attr_val (formudata dw) d DW_AT_data_member_location of
                     None \<Rightarrow> f | Some v \<Rightarrow> f\<lparr>fi_byte_offset := v, fi_bit_offset := v * 8\<rparr>);
              f = (case attr_val (formudata dw) d DW_AT_data_bit_offset of
                     None \<Rightarrow> f | Some v \<Rightarrow> f\<lparr>fi_bit_offset := v, fi_byte_offset := v div 8\<rparr>);
              f = (case attr_val (formudata dw) d DW_AT_byte_size of
                     None \<Rightarrow> f | Some v \<Rightarrow> f\<lparr>fi_byte_size := v\<rparr>);
              f = (case attr_val (formudata dw) d DW_AT_bit_size of
                     None \<Rightarrow> f | Some v \<Rightarrow> f\<lparr>fi_bit_size := v, fi_is_bitfield := True\<rparr>);
              f = member_type dw d f
          in parent\<lparr>ti_fields := ti_fields parent @ [f]\<rparr>)"

definition add_type :: "type_info \<Rightarrow> analyzer \<Rightarrow> analyzer" where
  "add_type info an =
     (let idx = length (types an) in
      an\<lparr>types := types an @ [info],
         type_name_index := (type_name_index an)(ti_name info \<mapsto> idx),
         type_offset_index := (type_offset_index an)(ti_die_offset info \<mapsto> idx)\<rparr>)"

definition process_type_die :: "'a libdw \<Rightarrow> 'a die \<Rightarrow> analyzer \<Rightarrow> analyzer" where
  "process_type_die dw d an =
     (case die_name d of
        None \<Rightarrow> an
      | Some name \<Rightarrow>
          let info = \<lparr>ti_die_offset = die_offset d, ti_name = name, ti_linkage_name = [],
                      ti_byte_size = (case attr_val (formudata dw) d DW_AT_byte_size of None \<Rightarrow> 0 | Some v \<Rightarrow> v),
                      ti_alignment = (case attr_val (formudata dw) d DW_AT_alignment of None \<Rightarrow> 0 | Some v \<Rightarrow> v),
                      ti_tag = map_tag (die_tag d), ti_fields = [], ti_source_file = [], ti_source_line = 0\<rparr>;
              info = fold (process_member_die dw)
                       (filter (\<lambda>c. die_tag c = DW_TAG_member) (die_children d)) info;
              info = info\<lparr>ti_source_file :=
                       (case Option.bind (attr_val (formudata dw) d DW_AT_decl_file) (file_table an) of
                          None \<Rightarrow> [] | Some file \<Rightarrow> file),
                     ti_source_line :=
                       (case attr_val (formudata dw) d DW_AT_decl_line of None \<Rightarrow> 0 | Some l \<Rightarrow> ucast l)\<rparr>
          in add_type info an)"

section \<open>Subprograms\<close>

text \<open>The target of a pointer type, if it has one.\<close>

definition pointer_target :: "'a libdw \<Rightarrow> 'a die \<Rightarrow> local_variable \<Rightarrow> local_variable" where
  "pointer_target dw td v =
     (let v = v\<lparr>lv_is_pointer := True\<rparr>
      in case attr_val (formref_die dw) td DW_AT_type of
           None \<Rightarrow> v
         | Some target \<Rightarrow>
             v\<lparr>lv_target_offset := die_offset target,
               lv_target_name := name_or target (lv_target_name v)\<rparr>)"

text \<open>A child of a subprogram: the local variable it declares, if any.\<close>

definition local_of_die :: "'a libdw \<Rightarrow> 'a die \<Rightarrow> local_variable option" where
  "local_of_die dw c =
     (if die_tag c \<noteq> DW_TAG_variable \<or> die_attr c DW_AT_type = None then None
      else
        let v = \<lparr>lv_name = name_or c [], lv_type_name = [], lv_type_die_offset = 0,
                 lv_is_pointer = False, lv_target_offset = 0, lv_target_name = []\<rparr>;
            v = (case attr_val (formref_die dw) c DW_AT_type of
                   None \<Rightarrow> v
                 | Some td \<Rightarrow>
                     let v = v\<lparr>lv_type_die_offset := die_offset td,
                               lv_type_name := name_or td (lv_type_name v)\<rparr>
                     in if die_tag td = DW_TAG_pointer_type then pointer_target dw td v
                        else if die_tag td = DW_TAG_array_type then
                          (case attr_val (formref_die dw) td DW_AT_type of
                             None \<Rightarrow> v
                           | Some elem \<Rightarrow>
                               if die_tag elem = DW_TAG_pointer_type then pointer_target dw elem v else v)
                        else v)
        in if lv_name v \<noteq> [] then Some v else None)"

definition add_subprogram :: "subprogram \<Rightarrow> analyzer \<Rightarrow> analyzer" where
  "add_subprogram info an =
     (let idx = length (subprograms an);
          ix = (subprogram_name_index an)(sp_name info \<mapsto> idx)
      in an\<lparr>subprograms := subprograms an @ [info],
            subprogram_name_index :=
              (if sp_linkage_name info \<noteq> [] then ix(sp_linkage_name info \<mapsto> idx) else ix)\<rparr>)"

definition process_subprogram_die :: "'a libdw \<Rightarrow> 'a die \<Rightarrow> analyzer \<Rightarrow> analyzer" where
  "process_subprogram_die dw d an =
     (let (high, is_off) =
            (case die_attr d DW_AT_high_pc of
               None \<Rightarrow> (0, False)
             | Some a \<Rightarrow>
                 (case formudata dw a of
                    Some v \<Rightarrow> (v, True)
                  | None \<Rightarrow> (case formaddr dw a of Some v \<Rightarrow> (v, False) | None \<Rightarrow> (0, False))));
          info = \<lparr>sp_name = name_or d [],
                  sp_linkage_name =
                    (case attr_val (formstring dw) d DW_AT_linkage_name of None \<Rightarrow> [] | Some s \<Rightarrow> s),
                  sp_low_pc = (case attr_val (formaddr dw) d DW_AT_low_pc of None \<Rightarrow> 0 | Some a \<Rightarrow> a),
                  sp_high_pc = high, sp_high_is_offset = is_off, sp_die_offset = die_offset d,
                  sp_frame_base = [],
                  sp_source_file =
                    (case Option.bind (attr_val (formudata dw) d DW_AT_decl_file) (file_table an) of
                       None \<Rightarrow> [] | Some file \<Rightarrow> file),
                  sp_source_line =
                    (case attr_val (formudata dw) d DW_AT_decl_line of None \<Rightarrow> 0 | Some l \<Rightarrow> ucast l),
                  sp_locals = List.map_filter (local_of_die dw) (die_children d)\<rparr>
      in add_subprogram info an)"

section \<open>Variables\<close>

definition add_symbol :: "symbol_info \<Rightarrow> analyzer \<Rightarrow> analyzer" where
  "add_symbol info an =
     (let idx = length (symbols an) in
      an\<lparr>symbols := symbols an @ [info],
         symbol_name_index := (symbol_name_index an)(sy_name info \<mapsto> idx),
         symbol_addr_index := (symbol_addr_index an)(sy_address info \<mapsto> idx)\<rparr>)"

definition location_addr :: "dw_op list option \<Rightarrow> u64" where
  "location_addr ops =
     (case ops of
        Some [op] \<Rightarrow> if op_atom op = DW_OP_addr then op_number op else 0
      | _ \<Rightarrow> 0)"

definition process_variable_die :: "'a libdw \<Rightarrow> 'a die \<Rightarrow> analyzer \<Rightarrow> analyzer" where
  "process_variable_die dw d an =
     (case (die_name d, die_attr d DW_AT_location) of
        (Some name, Some loc) \<Rightarrow>
          let addr = location_addr (getlocation dw loc)
          in if addr = 0 then an
             else
               let sym = \<lparr>sy_name = name, sy_address = addr, sy_size = 0, sy_type_name = [],
                          sy_type_die_offset = 0, sy_binding = BIND_GLOBAL, sy_sym_type = SYM_OBJECT\<rparr>;
                   sym = (case attr_val (formref_die dw) d DW_AT_type of
                            None \<Rightarrow> sym
                          | Some td \<Rightarrow>
                              let sym = sym\<lparr>sy_type_name := name_or td (sy_type_name sym),
                                            sy_type_die_offset := die_offset td\<rparr>
                              in (case aggregate_size dw td of
                                    None \<Rightarrow> sym
                                  | Some n \<Rightarrow> if 0 < n then sym\<lparr>sy_size := n\<rparr> else sym));
                   sym = (case attr_val (formudata dw) d DW_AT_byte_size of
                            None \<Rightarrow> sym | Some v \<Rightarrow> sym\<lparr>sy_size := v\<rparr>)
               in add_symbol sym an
      | _ \<Rightarrow> an)"

section \<open>The walk\<close>

definition process_one :: "'a libdw \<Rightarrow> 'a die \<Rightarrow> analyzer \<Rightarrow> analyzer" where
  "process_one dw d an =
     (if die_tag d \<in> {DW_TAG_structure_type, DW_TAG_union_type, DW_TAG_enumeration_type,
                      DW_TAG_typedef, DW_TAG_base_type} then process_type_die dw d an
      else if die_tag d = DW_TAG_subprogram then process_subprogram_die dw d an
      else if die_tag d = DW_TAG_variable then process_variable_die dw d an
      else an)"

fun process_die :: "'a libdw \<Rightarrow> 'a die \<Rightarrow> analyzer \<Rightarrow> analyzer"
  and process_dies :: "'a libdw \<Rightarrow> 'a die list \<Rightarrow> analyzer \<Rightarrow> analyzer" where
  "process_die dw (Die tg off nm at cs) an = process_dies dw cs (process_one dw (Die tg off nm at cs) an)"
| "process_dies dw [] an = an"
| "process_dies dw (c # cs) an = process_dies dw cs (process_die dw c an)"

text \<open>One compilation unit after another, until one has no DIE.\<close>

fun process_units :: "'a libdw \<Rightarrow> 'a die option list \<Rightarrow> analyzer \<Rightarrow> analyzer" where
  "process_units dw [] an = an"
| "process_units dw (None # us) an = an"
| "process_units dw (Some d # us) an = process_units dw us (process_dies dw (die_children d) an)"

definition parse_dwarf_info :: "'a libdw \<Rightarrow> analyzer \<Rightarrow> analyzer" where
  "parse_dwarf_info dw an = (if has_dwarf dw then process_units dw (units dw) an else an)"

section \<open>Frames\<close>

definition sp_end :: "subprogram \<Rightarrow> u64" where
  "sp_end sp = (if sp_high_is_offset sp then sp_low_pc sp + sp_high_pc sp else sp_high_pc sp)"

definition fde_of :: "(u64 \<Rightarrow> dw_op list option option) \<Rightarrow> subprogram \<Rightarrow> fde_record option" where
  "fde_of frame sp =
     (if sp_low_pc sp = 0 \<or> sp_end sp \<le> sp_low_pc sp \<or> frame (sp_low_pc sp) = None then None
      else Some \<lparr>fd_fde_offset = 0, fd_cie_pointer = 0, fd_initial_location = sp_low_pc sp,
                 fd_address_range = sp_end sp - sp_low_pc sp, fd_instructions = [], fd_cie = None\<rparr>)"

definition parse_dwarf_frames :: "'a libdw \<Rightarrow> analyzer \<Rightarrow> analyzer" where
  "parse_dwarf_frames dw an =
     (if \<not> has_dwarf dw then an
      else case cfi_frame dw of
             None \<Rightarrow> an
           | Some frame \<Rightarrow> an\<lparr>fde_records := fde_records an @ List.map_filter (fde_of frame) (subprograms an)\<rparr>)"

end
