(* ===== verification/Dwarf_Lookup.thy ===== *)
theory Dwarf_Lookup
  imports Dwarf_Info
begin

text \<open>
  The symbol tables, \<open>load_binary\<close> and the lookups of \<open>src/dwarf/dwarf_analyzer.cpp\<close>. A pointer into
  a table is returned as the element, or as nothing for a null pointer.
\<close>

section \<open>The ELF symbol tables\<close>

datatype section_type = SHT_SYMTAB | SHT_DYNSYM | SHT_other

datatype elf_bind = STB_LOCAL | STB_GLOBAL | STB_WEAK | STB_other

datatype elf_sym_type = STT_OBJECT | STT_FUNC | STT_other

record elf_sym =
  st_value :: u64
  st_name :: u32
  st_size :: u64
  st_bind :: elf_bind
  st_type :: elf_sym_type

record elf_section =
  sh_readable :: bool
  sh_type :: section_type
  sh_size :: u64
  sh_entsize :: u64
  sh_has_data :: bool
  sh_sym :: "nat \<Rightarrow> elf_sym option"
  sh_strptr :: "u32 \<Rightarrow> string option"

record elf =
  has_shstrndx :: bool
  sections :: "elf_section list"

fun map_binding :: "elf_bind \<Rightarrow> binding" where
  "map_binding STB_LOCAL = BIND_LOCAL"
| "map_binding STB_GLOBAL = BIND_GLOBAL"
| "map_binding STB_WEAK = BIND_WEAK"
| "map_binding STB_other = BIND_LOCAL"

fun map_sym_type :: "elf_sym_type \<Rightarrow> sym_type" where
  "map_sym_type STT_FUNC = SYM_FUNC"
| "map_sym_type STT_OBJECT = SYM_OBJECT"
| "map_sym_type STT_other = SYM_UNKNOWN"

definition parse_symbol :: "elf_section \<Rightarrow> nat \<Rightarrow> analyzer \<Rightarrow> analyzer" where
  "parse_symbol s i an =
     (case sh_sym s i of
        None \<Rightarrow> an
      | Some es \<Rightarrow>
          if st_value es = 0 \<or> st_name es = 0 then an
          else case sh_strptr s (st_name es) of
            None \<Rightarrow> an
          | Some name \<Rightarrow>
              if name = [] then an
              else add_symbol
                     \<lparr>sy_name = name, sy_address = st_value es, sy_size = st_size es, sy_type_name = [],
                      sy_type_die_offset = 0, sy_binding = map_binding (st_bind es),
                      sy_sym_type = map_sym_type (st_type es)\<rparr> an)"

text \<open>A symbol section with entries of size 0 has no result: the division traps.\<close>

definition parse_section :: "elf_section \<Rightarrow> analyzer \<Rightarrow> analyzer option" where
  "parse_section s an =
     (if \<not> sh_readable s \<or> sh_type s = SHT_other \<or> \<not> sh_has_data s then Some an
      else if sh_entsize s = 0 then None
      else Some (fold (parse_symbol s) [0..<unat (sh_size s div sh_entsize s)] an))"

fun parse_sections :: "elf_section list \<Rightarrow> analyzer \<Rightarrow> analyzer option" where
  "parse_sections [] an = Some an"
| "parse_sections (s # ss) an = Option.bind (parse_section s an) (parse_sections ss)"

text \<open>The order of \<open>std::sort\<close>: by address, and untyped symbols before typed ones.\<close>

definition symbol_less :: "symbol_info \<Rightarrow> symbol_info \<Rightarrow> bool" where
  "symbol_less a b \<longleftrightarrow>
     (if sy_address a \<noteq> sy_address b then sy_address a < sy_address b
      else sy_type_name a = [] \<and> sy_type_name b \<noteq> [])"

text \<open>\<open>for (i = 0; i < symbols_.size(); i++) symbol_addr_index_[symbols_[i].address] = i\<close>.\<close>

definition index_addresses :: "symbol_info list \<Rightarrow> (u64 \<rightharpoonup> nat) \<Rightarrow> (u64 \<rightharpoonup> nat)" where
  "index_addresses syms m = fold (\<lambda>i m. m(sy_address (syms ! i) \<mapsto> i)) [0..<length syms] m"

definition parse_symbol_table ::
  "(symbol_info list \<Rightarrow> symbol_info list) \<Rightarrow> elf \<Rightarrow> analyzer \<Rightarrow> (int \<times> analyzer) option" where
  "parse_symbol_table srt ef an =
     (if \<not> has_shstrndx ef then Some (- 1, an)
      else map_option
             (\<lambda>an. let syms = srt (symbols an) in
                (0, an\<lparr>symbols := syms, symbol_addr_index := index_addresses syms (symbol_addr_index an)\<rparr>))
             (parse_sections (sections ef) an))"

text \<open>
  \<open>load_binary\<close> from the point where the file is open and is an ELF file. The index by name is not
  rebuilt after the sorts.
\<close>

definition load_tables ::
  "(symbol_info list \<Rightarrow> symbol_info list) \<Rightarrow> elf \<Rightarrow> 'a libdw \<Rightarrow> analyzer \<Rightarrow> (int \<times> analyzer) option" where
  "load_tables srt ef dw an =
     (case parse_symbol_table srt ef an of
        None \<Rightarrow> None
      | Some (rc, an) \<Rightarrow>
          let an = parse_dwarf_frames dw (parse_dwarf_info dw an);
              syms = srt (symbols an)
          in Some (rc, an\<lparr>symbols := syms, symbol_addr_index := index_addresses syms Map.empty, loaded := True\<rparr>))"

text \<open>
  The path of a file is \<^term>\<open>None\<close> where \<open>open\<close>, \<open>fstat\<close>, \<open>mmap\<close>, \<open>elf_begin\<close> or the test of \<open>elf_kind\<close>
  fails; otherwise what libelf and libdw then show of the file.
\<close>

definition load_binary ::
  "(symbol_info list \<Rightarrow> symbol_info list) \<Rightarrow> (string \<Rightarrow> (elf \<times> 'a libdw) option) \<Rightarrow> string \<Rightarrow> analyzer \<Rightarrow>
     (int \<times> analyzer) option" where
  "load_binary srt file path an =
     (let an = an\<lparr>binary_path := path\<rparr>
      in case file path of
           None \<Rightarrow> Some (- 1, an)
         | Some (ef, dw) \<Rightarrow> load_tables srt ef dw an)"

section \<open>Lookups\<close>

definition find_type_by_name :: "analyzer \<Rightarrow> string \<Rightarrow> type_info option" where
  "find_type_by_name an name = map_option ((!) (types an)) (type_name_index an name)"

definition find_type_by_offset :: "analyzer \<Rightarrow> u64 \<Rightarrow> type_info option" where
  "find_type_by_offset an off = map_option ((!) (types an)) (type_offset_index an off)"

definition find_subprogram_by_name :: "analyzer \<Rightarrow> string \<Rightarrow> subprogram option" where
  "find_subprogram_by_name an name = map_option ((!) (subprograms an)) (subprogram_name_index an name)"

definition find_symbol_by_name :: "analyzer \<Rightarrow> string \<Rightarrow> symbol_info option" where
  "find_symbol_by_name an name = map_option ((!) (symbols an)) (symbol_name_index an name)"

definition find_symbol_by_addr :: "analyzer \<Rightarrow> u64 \<Rightarrow> symbol_info option" where
  "find_symbol_by_addr an addr =
     (if symbols an = [] then None
      else case symbol_addr_index an addr of
        Some i \<Rightarrow> Some (symbols an ! i)
      | None \<Rightarrow>
          let ub = upper_bound (\<lambda>s. addr < sy_address s) (symbols an)
          in if ub = 0 then None
             else
               let s = symbols an ! (ub - 1)
               in if sy_address s \<le> addr \<and> addr < sy_address s + sy_size s then Some s else None)"

text \<open>The loop of \<open>resolve_field_at_offset\<close>, with \<open>best\<close> and \<open>best_distance\<close>.\<close>

definition best_field_step :: "u64 \<Rightarrow> field_info \<Rightarrow> field_info option \<times> u64 \<Rightarrow> field_info option \<times> u64" where
  "best_field_step off f acc =
     (let (best, dist) = acc;
          (best, dist) =
            (if off = fi_byte_offset f \<and>
                (case best of None \<Rightarrow> True | Some b \<Rightarrow> fi_byte_size b < fi_byte_size f)
             then (Some f, 0) else (best, dist))
      in if 0 < fi_byte_size f \<and> fi_byte_offset f \<le> off \<and> off < fi_byte_offset f + fi_byte_size f \<and>
            off - fi_byte_offset f < dist
         then (Some f, off - fi_byte_offset f) else (best, dist))"

definition best_field :: "field_info list \<Rightarrow> u64 \<Rightarrow> field_info option" where
  "best_field fs off = fst (fold (best_field_step off) fs (None, - 1))"

definition resolve_field_by_die :: "analyzer \<Rightarrow> u64 \<Rightarrow> u64 \<Rightarrow> field_info option" where
  "resolve_field_by_die an die off =
     Option.bind (find_type_by_offset an die) (\<lambda>t. best_field (ti_fields t) off)"

definition resolve_field_at_offset :: "analyzer \<Rightarrow> string \<Rightarrow> u64 \<Rightarrow> field_info option" where
  "resolve_field_at_offset an name off =
     Option.bind (find_type_by_name an name) (\<lambda>t. resolve_field_by_die an (ti_die_offset t) off)"

text \<open>Where a program counter is in a subprogram.\<close>

definition in_subprogram :: "u64 \<Rightarrow> subprogram \<Rightarrow> bool" where
  "in_subprogram pc sp \<longleftrightarrow> sp_low_pc sp \<le> pc \<and> pc < sp_end sp"

definition pointer_targets :: "subprogram \<Rightarrow> string list" where
  "pointer_targets sp =
     map lv_target_name (filter (\<lambda>v. lv_is_pointer v \<and> lv_target_name v \<noteq> []) (sp_locals sp))"

text \<open>\<open>srt\<close> is \<open>std::sort\<close> on strings.\<close>

definition find_pointer_target_types_at_pc ::
  "(string list \<Rightarrow> string list) \<Rightarrow> analyzer \<Rightarrow> u64 \<Rightarrow> string list" where
  "find_pointer_target_types_at_pc srt an pc =
     unique (srt (case find (in_subprogram pc) (subprograms an) of
                    None \<Rightarrow> [] | Some sp \<Rightarrow> pointer_targets sp))"

record stack_variable =
  sv_name :: string
  sv_type_name :: string
  sv_stack_offset :: s64
  sv_byte_size :: u64

fun frame_offset :: "dw_op list \<Rightarrow> s64 option" where
  "frame_offset [] = None"
| "frame_offset (op # ops) =
     (if op_atom op = DW_OP_fbreg \<or> (DW_OP_breg0 \<le> op_atom op \<and> op_atom op \<le> DW_OP_breg31)
      then Some (op_number op + op_offset op) else frame_offset ops)"

definition stack_variable_of :: "'a libdw \<Rightarrow> 'a die \<Rightarrow> stack_variable option" where
  "stack_variable_of dw c =
     (if die_tag c \<noteq> DW_TAG_variable then None
      else case (die_name c, die_attr c DW_AT_location) of
        (Some name, Some loc) \<Rightarrow>
          (case Option.bind (getlocation dw loc) frame_offset of
             None \<Rightarrow> None
           | Some off \<Rightarrow>
               let v = \<lparr>sv_name = name, sv_type_name = [], sv_stack_offset = off, sv_byte_size = 0\<rparr>
               in Some (case attr_val (formref_die dw) c DW_AT_type of
                          None \<Rightarrow> v
                        | Some td \<Rightarrow>
                            let v = v\<lparr>sv_type_name := name_or td (sv_type_name v)\<rparr>
                            in (case aggregate_size dw td of
                                  None \<Rightarrow> v
                                | Some n \<Rightarrow> if 0 < n then v\<lparr>sv_byte_size := n\<rparr> else v)))
      | _ \<Rightarrow> None)"

definition find_stack_variables :: "'a libdw \<Rightarrow> analyzer \<Rightarrow> u64 \<Rightarrow> stack_variable list" where
  "find_stack_variables dw an pc =
     (if \<not> has_dwarf dw then []
      else case find (in_subprogram pc) (subprograms an) of
        None \<Rightarrow> []
      | Some sp \<Rightarrow>
          (case offdie dw (sp_die_offset sp) of
             None \<Rightarrow> []
           | Some d \<Rightarrow> List.map_filter (stack_variable_of dw) (die_children d)))"

section \<open>What is passed on from libdw\<close>

definition source_of_unit :: "'a libdw \<Rightarrow> u64 \<Rightarrow> 'a die option \<Rightarrow> (string \<times> u32) option" where
  "source_of_unit dw pc u =
     (case u of
        None \<Rightarrow> None
      | Some cudie \<Rightarrow>
          if \<not> haspc dw cudie pc \<or> \<not> has_srclines dw cudie then None
          else case getsrc_die dw cudie pc of
                 Some (Some src, line) \<Rightarrow> Some (src, line)
               | _ \<Rightarrow> None)"

fun first_source :: "'a libdw \<Rightarrow> u64 \<Rightarrow> 'a die option list \<Rightarrow> (string \<times> u32) option" where
  "first_source dw pc [] = None"
| "first_source dw pc (u # us) =
     (case source_of_unit dw pc u of None \<Rightarrow> first_source dw pc us | Some r \<Rightarrow> Some r)"

definition resolve_source_line :: "'a libdw \<Rightarrow> u64 \<Rightarrow> (string \<times> u32) option" where
  "resolve_source_line dw pc = (if has_dwarf dw then first_source dw pc (units dw) else None)"

text \<open>The result and the registers, where a write beyond \<open>regs\<close> is no result.\<close>

definition unwind_frame :: "'a libdw \<Rightarrow> u64 \<Rightarrow> u64 list \<Rightarrow> int \<Rightarrow> (s64 \<times> u64 list) option" where
  "unwind_frame dw pc regs reg_count =
     (if \<not> has_dwarf dw then Some (- 1, regs)
      else case cfi_frame dw of
        None \<Rightarrow> Some (- 1, regs)
      | Some frame \<Rightarrow>
          (case frame pc of
             Some (Some ops) \<Rightarrow>
               if 1 \<le> reg_count \<and> ops \<noteq> [] then
                 if regs = [] then None else Some (0, regs[0 := op_number (hd ops)])
               else Some (0, regs)
           | _ \<Rightarrow> Some (- 1, regs)))"

end
