(* ===== verification/C_Text.thy ===== *)
theory C_Text
  imports Prelude
begin

text \<open>
  The text conversions of the C library that the collector and the resolver use on their file of
  records: printing of integers by \<open>fprintf\<close>, and \<open>sscanf\<close> with literal characters, integer
  conversions and one scan set. An integer too large for its type saturates, as \<open>strtoul\<close> and
  \<open>strtol\<close> do; a string is a list of characters without its terminating NUL.
\<close>

section \<open>Digits\<close>

definition digit_char :: "nat \<Rightarrow> char" where
  "digit_char n = char_of (if n < 10 then 48 + n else 87 + n)"

definition digit_val :: "char \<Rightarrow> nat option" where
  "digit_val c =
     (let k = of_char c :: nat
      in if 48 \<le> k \<and> k \<le> 57 then Some (k - 48)
         else if 97 \<le> k \<and> k \<le> 102 then Some (k - 87)
         else if 65 \<le> k \<and> k \<le> 70 then Some (k - 55)
         else None)"

definition is_digit :: "nat \<Rightarrow> char \<Rightarrow> bool" where
  "is_digit base c = (case digit_val c of None \<Rightarrow> False | Some d \<Rightarrow> d < base)"

fun digits :: "nat \<Rightarrow> nat \<Rightarrow> string" where
  "digits base n =
     (if base < 2 \<or> n < base then [digit_char n]
      else digits base (n div base) @ [digit_char (n mod base)])"

declare digits.simps [simp del]

definition digits_value :: "nat \<Rightarrow> string \<Rightarrow> nat" where
  "digits_value base s = foldl (\<lambda>acc c. acc * base + the (digit_val c)) 0 s"

lemma digit_val_char: "n < 16 \<Longrightarrow> digit_val (digit_char n) = Some n"
  by (auto simp: digit_val_def digit_char_def Let_def)

lemma is_digit_char: "n < base \<Longrightarrow> base \<le> 16 \<Longrightarrow> is_digit base (digit_char n)"
  by (simp add: is_digit_def digit_val_char)

lemma digits_nonempty: "digits base n \<noteq> []"
  by (subst digits.simps) simp

lemma digits_all: "2 \<le> base \<Longrightarrow> base \<le> 16 \<Longrightarrow> \<forall>c \<in> set (digits base n). is_digit base c"
proof (induction base n rule: digits.induct)
  case (1 base n)
  then show ?case
    by (subst digits.simps) (auto simp: is_digit_char)
qed

lemma digits_value: "2 \<le> base \<Longrightarrow> base \<le> 16 \<Longrightarrow> digits_value base (digits base n) = n"
proof (induction base n rule: digits.induct)
  case (1 base n)
  show ?case
  proof (cases "n < base")
    case True
    with 1 show ?thesis
      by (subst digits.simps) (simp add: digits_value_def digit_val_char)
  next
    case False
    have "n mod base < 16" using "1.prems" 
      by (intro less_le_trans [OF mod_less_divisor]) auto
    with False 1 show ?thesis
      by (subst digits.simps) (simp add: digits_value_def digit_val_char)
  qed
qed

section \<open>Printing\<close>

text \<open>\<open>%lx\<close>, \<open>%lu\<close> and \<open>%u\<close>, and \<open>%ld\<close> and \<open>%d\<close>.\<close>

definition print_hex :: "'a :: len word \<Rightarrow> string" where
  "print_hex w = digits 16 (unat w)"

definition print_unsigned :: "'a :: len word \<Rightarrow> string" where
  "print_unsigned w = digits 10 (unat w)"

definition print_signed :: "'a :: len word \<Rightarrow> string" where
  "print_signed w =
     (if sint w < 0 then CHR ''-'' # digits 10 (nat (- sint w)) else digits 10 (nat (sint w)))"

section \<open>Scanning\<close>

definition is_space :: "char \<Rightarrow> bool" where
  "is_space c = (c \<in> set [CHR '' '', CHR 0x09, CHR 0x0A, CHR 0x0B, CHR 0x0C, CHR 0x0D])"

definition scan_sign :: "string \<Rightarrow> bool \<times> string" where
  "scan_sign s =
     (case s of
        [] \<Rightarrow> (False, [])
      | c # cs \<Rightarrow> if c = CHR ''-'' then (True, cs) else if c = CHR ''+'' then (False, cs) else (False, s))"

definition scan_prefix :: "nat \<Rightarrow> string \<Rightarrow> string" where
  "scan_prefix base s =
     (if base = 16 \<and> (take 2 s = ''0x'' \<or> take 2 s = ''0X'') then drop 2 s else s)"

text \<open>
  An integer of the given base: white space, a sign, a prefix \<open>0x\<close> for base 16, digits. The
  result is the sign, the magnitude and what follows, or no match.
\<close>

definition scan_num :: "nat \<Rightarrow> string \<Rightarrow> (bool \<times> nat \<times> string) option" where
  "scan_num base s =
     (let (neg, s) = scan_sign (dropWhile is_space s);
          s = scan_prefix base s;
          ds = takeWhile (is_digit base) s
      in if ds = [] then None
         else Some (neg, digits_value base ds, dropWhile (is_digit base) s))"

definition to_ulong :: "bool \<Rightarrow> nat \<Rightarrow> u64" where
  "to_ulong neg m = (if 2 ^ 64 \<le> m then - 1 else if neg then - of_nat m else of_nat m)"

definition to_long :: "bool \<Rightarrow> nat \<Rightarrow> s64" where
  "to_long neg m =
     (if neg then (if 2 ^ 63 < m then of_int (- (2 ^ 63)) else of_int (- int m))
      else (if 2 ^ 63 \<le> m then of_int (2 ^ 63 - 1) else of_nat m))"

definition strtoul :: "nat \<Rightarrow> string \<Rightarrow> u64" where
  "strtoul base s = (case scan_num base s of None \<Rightarrow> 0 | Some (neg, m, _) \<Rightarrow> to_ulong neg m)"

text \<open>\<open>atoi(s)\<close>.\<close>

definition atoi :: "string \<Rightarrow> s32" where
  "atoi s = (case scan_num 10 s of None \<Rightarrow> 0 | Some (neg, m, _) \<Rightarrow> ucast (to_long neg m))"

text \<open>\<open>sscanf\<close>: the list of the values it assigned, so that its result is the length.\<close>

datatype directive =
    Lit char
  | CULong nat
  | CUInt
  | CLong
  | CInt
  | NotIn nat char

datatype scanned = VULong u64 | VUInt u32 | VLong s64 | VInt s32 | VString string

fun scan_conv :: "directive \<Rightarrow> string \<Rightarrow> (scanned \<times> string) option" where
  "scan_conv (Lit c) s = None"
| "scan_conv (CULong base) s = map_option (\<lambda>(neg, m, r). (VULong (to_ulong neg m), r)) (scan_num base s)"
| "scan_conv CUInt s = map_option (\<lambda>(neg, m, r). (VUInt (ucast (to_ulong neg m)), r)) (scan_num 10 s)"
| "scan_conv CLong s = map_option (\<lambda>(neg, m, r). (VLong (to_long neg m), r)) (scan_num 10 s)"
| "scan_conv CInt s = map_option (\<lambda>(neg, m, r). (VInt (ucast (to_long neg m)), r)) (scan_num 10 s)"
| "scan_conv (NotIn width c) s =
     (let f = takeWhile (\<lambda>d. d \<noteq> c) (take width s)
      in if f = [] then None else Some (VString f, drop (length f) s))"

fun sscanf :: "directive list \<Rightarrow> string \<Rightarrow> scanned list" where
  "sscanf [] s = []"
| "sscanf (Lit c # ds) s = (case s of [] \<Rightarrow> [] | d # cs \<Rightarrow> if d = c then sscanf ds cs else [])"
| "sscanf (d # ds) s = (case scan_conv d s of None \<Rightarrow> [] | Some (v, r) \<Rightarrow> v # sscanf ds r)"

text \<open>\<open>std::getline\<close> until it fails, and \<open>c_str()\<close> read as a C string.\<close>

function getlines :: "char \<Rightarrow> string \<Rightarrow> string list" where
  "getlines d s =
     (if s = [] then []
      else takeWhile (\<lambda>c. c \<noteq> d) s # getlines d (tl (dropWhile (\<lambda>c. c \<noteq> d) s)))"
  by auto

termination
proof (relation "measure (\<lambda>(d, s). length s)", simp)
  fix d :: char and s :: string
  assume "s \<noteq> []"
  then have "0 < length s" by simp
  moreover have "length (dropWhile (\<lambda>c. c \<noteq> d) s) \<le> length s" by (rule length_dropWhile_le)
  ultimately have "length (tl (dropWhile (\<lambda>c. c \<noteq> d) s)) < length s"
    unfolding length_tl by linarith
  then show "((d, tl (dropWhile (\<lambda>c. c \<noteq> d) s)), d, s) \<in> measure (\<lambda>(d, s). length s)" by simp
qed

declare getlines.simps [simp del]

definition c_str :: "string \<Rightarrow> string" where
  "c_str s = takeWhile (\<lambda>c. c \<noteq> CHR 0x00) s"

section \<open>What is printed is scanned\<close>

text \<open>A character that ends a number.\<close>

definition ends_number :: "string \<Rightarrow> bool" where
  "ends_number s \<longleftrightarrow> (case s of [] \<Rightarrow> True | c # _ \<Rightarrow> \<not> is_digit 16 c \<and> c \<noteq> CHR ''x'' \<and> c \<noteq> CHR ''X'')"

lemma is_digit_mono: "is_digit 10 c \<Longrightarrow> is_digit 16 c"
  by (auto simp: is_digit_def split: option.splits)

lemma is_digit_plain:
  "is_digit base c \<Longrightarrow> \<not> is_space c \<and> c \<noteq> CHR ''-'' \<and> c \<noteq> CHR ''+'' \<and> c \<noteq> CHR ''x'' \<and> c \<noteq> CHR ''X''"
  by (auto simp: is_digit_def is_space_def digit_val_def split: option.splits)

lemma scan_digits:
  assumes "base = 10 \<or> base = 16" and "ends_number rest"
  shows "scan_num base (digits base n @ rest) = Some (False, n, rest)"
    and "scan_num base (CHR ''-'' # digits base n @ rest) = Some (True, n, rest)"
proof -
  have b: "2 \<le> base" "base \<le> 16" using assms(1) by auto
  obtain c cs where d: "digits base n = c # cs"
    using digits_nonempty by (cases "digits base n") auto
  have all: "\<forall>x \<in> set (c # cs). is_digit base x"
    using digits_all [OF b, of n] d by simp
  have stop: "rest = [] \<or> \<not> is_digit base (hd rest)"
    using assms is_digit_mono by (auto simp: ends_number_def split: list.splits)
  have tw: "takeWhile (is_digit base) ((c # cs) @ rest) = c # cs"
    "dropWhile (is_digit base) ((c # cs) @ rest) = rest"
    using all stop by (cases rest; simp add: takeWhile_append2 dropWhile_append2)+
  have p: "scan_prefix base ((c # cs) @ rest) = (c # cs) @ rest"
    using assms(2) all is_digit_plain
    by (cases cs; cases rest) (auto simp: scan_prefix_def ends_number_def)
  have v: "digits_value base (c # cs) = n"
    using digits_value [OF b, of n] d by simp
  have c: "\<not> is_space c" "c \<noteq> CHR ''-''" "c \<noteq> CHR ''+''"
    using is_digit_plain all by auto
  show "scan_num base (digits base n @ rest) = Some (False, n, rest)"
    using c p tw v by (simp add: d scan_num_def scan_sign_def)
  have "\<not> is_space CHR ''-''" by (simp add: is_space_def)
  then show "scan_num base (CHR ''-'' # digits base n @ rest) = Some (True, n, rest)"
    using c p tw v by (simp add: d scan_num_def scan_sign_def)
qed

lemma to_ulong_small: "m < 2 ^ 64 \<Longrightarrow> to_ulong False m = of_nat m"
  by (simp add: to_ulong_def)

lemma scan_hex:
  "ends_number r \<Longrightarrow> scan_conv (CULong 16) (print_hex (w :: u64) @ r) = Some (VULong w, r)"
  using unsigned_less [of w, where 'a = nat]
  by (simp add: print_hex_def scan_digits to_ulong_small)

lemma scan_unsigned:
  "ends_number r \<Longrightarrow> scan_conv (CULong 10) (print_unsigned (w :: u64) @ r) = Some (VULong w, r)"
  using unsigned_less [of w, where 'a = nat]
  by (simp add: print_unsigned_def scan_digits to_ulong_small)

lemma scan_uint:
  "ends_number r \<Longrightarrow> scan_conv CUInt (print_unsigned (w :: u32) @ r) = Some (VUInt w, r)"
proof -
  assume r: "ends_number r"
  have "unat w < 2 ^ 64" using unsigned_less [of w, where 'a = nat] by simp
  moreover have "ucast (ucast w :: u64) = w"
    by (rule bit_word_eqI) (simp add: bit_simps)
  ultimately have "ucast (to_ulong False (unat w)) = w"
    by (simp add: to_ulong_small)
  with r show ?thesis
    by (simp add: print_unsigned_def scan_digits)
qed

lemma to_long_sint:
  fixes w :: "'a :: len word"
  assumes "LENGTH('a) \<le> 64"
  shows "(if sint w < 0 then to_long True (nat (- sint w)) else to_long False (nat (sint w))) = of_int (sint w)"
proof -
  have p: "(2 :: int) ^ (LENGTH('a) - 1) \<le> 2 ^ 63"
    using assms by (intro power_increasing) auto
  have "sint w < 2 ^ (LENGTH('a) - 1)" "- (2 ^ (LENGTH('a) - 1)) \<le> sint w"
    using sint_lt [of w] sint_ge [of w] by simp_all
  with p have "sint w < 2 ^ 63" "- (2 ^ 63) \<le> sint w" by linarith+
  then show ?thesis by (auto simp: to_long_def)
qed

lemma scan_long:
  "ends_number r \<Longrightarrow> scan_conv CLong (print_signed (w :: s64) @ r) = Some (VLong w, r)"
  using to_long_sint [of w] by (cases "sint w < 0") (simp_all add: print_signed_def scan_digits)

lemma scan_int:
  "ends_number r \<Longrightarrow> scan_conv CInt (print_signed (w :: s32) @ r) = Some (VInt w, r)"
proof -
  assume r: "ends_number r"
  have "ucast (of_int (sint w) :: s64) = w"
    by (simp only: scast_eq [symmetric]) (rule bit_word_eqI; simp add: bit_simps)
  then show ?thesis
    using r to_long_sint [of w] by (cases "sint w < 0") (simp_all add: print_signed_def scan_digits)
qed

lemmas scan_printed = scan_hex scan_unsigned scan_uint scan_long scan_int

text \<open>The characters that printed numbers are made of.\<close>

lemma printed_chars:
  "c \<in> set (print_hex w) \<Longrightarrow> is_digit 16 c"
  "c \<in> set (print_unsigned w) \<Longrightarrow> is_digit 16 c"
  "c \<in> set (print_signed w) \<Longrightarrow> is_digit 16 c \<or> c = CHR ''-''"
  using digits_all [of 16] digits_all [of 10] is_digit_mono
  by (fastforce simp: print_hex_def print_unsigned_def print_signed_def split: if_splits)+

lemma printed_nonempty: "print_hex w \<noteq> []" "print_unsigned w \<noteq> []" "print_signed w \<noteq> []"
  by (simp_all add: print_hex_def print_unsigned_def print_signed_def digits_nonempty)

section \<open>Lines\<close>

lemma getlines_Nil [simp]: "getlines d [] = []"
  by (subst getlines.simps) simp

lemma no_delimiter:
  assumes "d \<notin> set s"
  shows "takeWhile (\<lambda>c. c \<noteq> d) (s @ r) = s @ takeWhile (\<lambda>c. c \<noteq> d) r"
    and "dropWhile (\<lambda>c. c \<noteq> d) (s @ r) = dropWhile (\<lambda>c. c \<noteq> d) r"
  using assms by (induction s) auto

lemma getlines_last: "d \<notin> set s \<Longrightarrow> s \<noteq> [] \<Longrightarrow> getlines d s = [s]"
proof -
  assume "d \<notin> set s" "s \<noteq> []"
  then have "takeWhile (\<lambda>c. c \<noteq> d) s = s" "dropWhile (\<lambda>c. c \<noteq> d) s = []"
    using no_delimiter [of d s "[]"] by simp_all
  with \<open>s \<noteq> []\<close> show ?thesis
    by (subst getlines.simps) (simp only: list.sel getlines_Nil if_False)
qed

lemma getlines_line: "d \<notin> set s \<Longrightarrow> getlines d (s @ d # rest) = s # getlines d rest"
  using no_delimiter [of d s "d # rest"] by (subst getlines.simps) simp

end
