(* ===== verification/Event_Abi.thy ===== *)
theory Event_Abi
  imports Prelude
begin

text \<open>
  The event record that travels from the kernel probes to the collector
  (\<open>src/bpf/memscope_common.h\<close> and its copy in \<open>src/collector/collector.h\<close>). The C union has
  no tag: it is kept as the array of its 64-bit words, and every member access is a word index.
  The two headers disagree on \<open>MAX_STACK_DEPTH\<close>, so the kernel's union has 35 words and the
  collector's declaration would have 67. What arrives in user space is the kernel's record.
\<close>

section \<open>Constants\<close>

definition BPF_MAX_STACK_DEPTH :: nat where
  "BPF_MAX_STACK_DEPTH = 32"

definition COLLECTOR_MAX_STACK_DEPTH :: nat where
  "COLLECTOR_MAX_STACK_DEPTH = 64"

datatype event_type =
    EVENT_MALLOC_ENTRY
  | EVENT_MALLOC_RETURN
  | EVENT_FREE
  | EVENT_MMAP
  | EVENT_MUNMAP
  | EVENT_STACK_SAMPLE
  | EVENT_CALLOC_RETURN
  | EVENT_REALLOC_ENTRY
  | EVENT_REALLOC_RETURN

primrec event_code :: "event_type \<Rightarrow> u32" where
  "event_code EVENT_MALLOC_ENTRY = 1"
| "event_code EVENT_MALLOC_RETURN = 2"
| "event_code EVENT_FREE = 3"
| "event_code EVENT_MMAP = 4"
| "event_code EVENT_MUNMAP = 5"
| "event_code EVENT_STACK_SAMPLE = 6"
| "event_code EVENT_CALLOC_RETURN = 7"
| "event_code EVENT_REALLOC_ENTRY = 8"
| "event_code EVENT_REALLOC_RETURN = 9"

section \<open>The record\<close>

record mem_event =
  ev_type :: u32
  ev_pid :: u32
  ev_tid :: u32
  ev_timestamp :: u64
  ev_stack_id :: s64
  ev_stack_depth :: u32
  ev_reserved :: u32
  ev_words :: "u64 list"

text \<open>
  Word offsets of the union members. \<open>malloc_ret\<close> and \<open>calloc_ret\<close> have their program counters
  from word 2, \<open>realloc_ret\<close> from word 3, after \<open>old_addr\<close>.
\<close>

definition MALLOC_RET_PCS :: nat where
  "MALLOC_RET_PCS = 2"

definition CALLOC_RET_PCS :: nat where
  "CALLOC_RET_PCS = 2"

definition REALLOC_RET_PCS :: nat where
  "REALLOC_RET_PCS = 3"

text \<open>The largest member of the kernel's union is \<open>realloc_ret\<close>.\<close>

definition BPF_UNION_WORDS :: nat where
  "BPF_UNION_WORDS = REALLOC_RET_PCS + BPF_MAX_STACK_DEPTH"

lemmas [layout_defs] =
  BPF_MAX_STACK_DEPTH_def COLLECTOR_MAX_STACK_DEPTH_def MALLOC_RET_PCS_def CALLOC_RET_PCS_def
  REALLOC_RET_PCS_def BPF_UNION_WORDS_def

text \<open>\<open>__builtin_memset(evt, 0, sizeof(*evt))\<close>.\<close>

definition zero_event :: mem_event where
  "zero_event =
     \<lparr>ev_type = 0, ev_pid = 0, ev_tid = 0, ev_timestamp = 0, ev_stack_id = 0,
      ev_stack_depth = 0, ev_reserved = 0, ev_words = replicate BPF_UNION_WORDS 0\<rparr>"

text \<open>\<open>evt->member.field = v\<close> for the 64-bit field at word \<open>i\<close> of the union.\<close>

definition put_word :: "nat \<Rightarrow> u64 \<Rightarrow> mem_event \<Rightarrow> mem_event" where
  "put_word i v e = e\<lparr>ev_words := (ev_words e)[i := v]\<rparr>"

text \<open>
  \<open>mmap_evt.prot\<close> and \<open>mmap_evt.flags\<close> are two \<open>__s32\<close> that share word 2 (little endian).
\<close>

definition put_prot_flags :: "s32 \<Rightarrow> s32 \<Rightarrow> mem_event \<Rightarrow> mem_event" where
  "put_prot_flags prot flags e = put_word 2 (ucast prot OR push_bit 32 (ucast flags)) e"

definition get_prot :: "mem_event \<Rightarrow> s32" where
  "get_prot e = ucast (ev_words e ! 2)"

definition get_flags :: "mem_event \<Rightarrow> s32" where
  "get_flags e = ucast (drop_bit 32 (ev_words e ! 2))"

lemma length_put_word [simp]: "length (ev_words (put_word i v e)) = length (ev_words e)"
  by (simp add: put_word_def)

lemma put_word_simps [simp]:
  "ev_type (put_word i v e) = ev_type e" "ev_pid (put_word i v e) = ev_pid e"
  "ev_tid (put_word i v e) = ev_tid e" "ev_timestamp (put_word i v e) = ev_timestamp e"
  "ev_stack_id (put_word i v e) = ev_stack_id e" "ev_stack_depth (put_word i v e) = ev_stack_depth e"
  "ev_reserved (put_word i v e) = ev_reserved e"
  "ev_words (put_word i v e) = (ev_words e)[i := v]"
  by (simp_all add: put_word_def)

lemma zero_event_simps [simp]:
  "ev_type zero_event = 0" "ev_pid zero_event = 0" "ev_tid zero_event = 0"
  "ev_timestamp zero_event = 0" "ev_stack_id zero_event = 0" "ev_stack_depth zero_event = 0"
  "ev_reserved zero_event = 0" "ev_words zero_event = replicate BPF_UNION_WORDS 0"
  by (simp_all add: zero_event_def)

lemma prot_flags_roundtrip:
  assumes "2 < length (ev_words e)"
  shows "get_prot (put_prot_flags p f e) = p" and "get_flags (put_prot_flags p f e) = f"
proof -
  have a: "(ucast (ucast p OR push_bit 32 (ucast f) :: u64) :: s32) = p"
    by (rule bit_word_eqI) (simp add: bit_simps)
  have b: "(ucast (drop_bit 32 (ucast p OR push_bit 32 (ucast f) :: u64)) :: s32) = f"
    by (rule bit_word_eqI) (auto simp add: bit_simps dest: bit_imp_le_length)
  from assms a b show "get_prot (put_prot_flags p f e) = p" and "get_flags (put_prot_flags p f e) = f"
    by (simp_all add: get_prot_def get_flags_def put_prot_flags_def)
qed

end
