(* ===== verification/Alloc_Table.thy ===== *)
theory Alloc_Table
  imports Event_Abi "HOL-Library.Monad_Syntax"
begin

text \<open>
  The collector's allocation table, \<open>src/collector/collector.c\<close>: a growing array of records with a
  chained hash index over it. Arrays are lists, with the links of the chains as C \<open>int\<close> indices.
  An operation whose C code would read or write outside an array has no result (\<^const>\<open>None\<close> of the
  outer option), and neither has a chain walk that does not end. \<open>calloc\<close>, \<open>malloc\<close> and \<open>realloc\<close>
  answer through the \<open>heap\<close> argument, which also says what uninitialised memory holds.
\<close>

section \<open>Data\<close>

record alloc_record =
  ar_addr :: u64
  ar_size :: u64
  ar_stack_id :: s64
  ar_timestamp_alloc :: u64
  ar_timestamp_free :: u64
  ar_pid :: u32
  ar_tid :: u32
  ar_live :: int
  ar_stack_pcs :: "u64 list"
  ar_stack_depth :: s32
  ar_comm :: string
  ar_hash_next :: int

record alloc_table =
  records :: "alloc_record list"
  count :: nat
  capacity :: nat
  hash_buckets :: "int list"
  hash_next :: "int list"
  hash_size :: s32

datatype errno = ENOMEM | EINVAL | ENOENT

record heap =
  calloc_ok :: "nat \<Rightarrow> nat \<Rightarrow> bool"
  malloc_ok :: "nat \<Rightarrow> bool"
  realloc_ok :: "nat \<Rightarrow> bool"
  junk_record :: "nat \<Rightarrow> alloc_record"
  junk_int :: "nat \<Rightarrow> int"

text \<open>A zero-initialised record: \<open>struct alloc_record rec = {}\<close>.\<close>

definition zero_record :: alloc_record where
  "zero_record =
     \<lparr>ar_addr = 0, ar_size = 0, ar_stack_id = 0, ar_timestamp_alloc = 0, ar_timestamp_free = 0,
      ar_pid = 0, ar_tid = 0, ar_live = 0, ar_stack_pcs = replicate COLLECTOR_MAX_STACK_DEPTH 0,
      ar_stack_depth = 0, ar_comm = [], ar_hash_next = 0\<rparr>"

text \<open>\<open>sizeof(struct alloc_record)\<close>, \<open>sizeof(int)\<close>, and \<open>size_t\<close> products.\<close>

definition SIZEOF_RECORD :: nat where
  "SIZEOF_RECORD = 640"

definition SIZEOF_INT :: nat where
  "SIZEOF_INT = 4"

definition size_mult :: "nat \<Rightarrow> nat \<Rightarrow> nat" where
  "size_mult a b = (a * b) mod 2 ^ 64"

definition ALLOC_HASH_SIZE :: nat where
  "ALLOC_HASH_SIZE = 2 ^ 16"

definition ALLOC_HASH_MASK :: u64 where
  "ALLOC_HASH_MASK = of_nat (ALLOC_HASH_SIZE - 1)"

section \<open>Operations\<close>

definition alloc_hash :: "u64 \<Rightarrow> u32" where
  "alloc_hash addr =
     (let h = addr;
          h = h XOR drop_bit 33 h;
          h = h * 0xff51afd7ed558ccd;
          h = h XOR drop_bit 33 h;
          h = h * 0xc4ceb9fe1a85ec53;
          h = h XOR drop_bit 33 h
      in ucast (h AND ALLOC_HASH_MASK))"

definition alloc_table_init :: "heap \<Rightarrow> nat \<Rightarrow> errno + alloc_table" where
  "alloc_table_init hp initial_cap =
     (let cap = (if initial_cap \<noteq> 0 then initial_cap else 4096) in
      if \<not> calloc_ok hp cap SIZEOF_RECORD then Inl ENOMEM
      else if \<not> malloc_ok hp (size_mult ALLOC_HASH_SIZE SIZEOF_INT) then Inl ENOMEM
      else if \<not> malloc_ok hp (size_mult cap SIZEOF_INT) then Inl ENOMEM
      else Inr \<lparr>records = replicate cap zero_record, count = 0, capacity = cap,
                hash_buckets = replicate ALLOC_HASH_SIZE (-1),
                hash_next = replicate (size_mult cap SIZEOF_INT div SIZEOF_INT) (-1),
                hash_size = of_nat ALLOC_HASH_SIZE\<rparr>)"

definition alloc_table_destroy :: "alloc_table \<Rightarrow> alloc_table" where
  "alloc_table_destroy t =
     \<lparr>records = [], count = 0, capacity = 0, hash_buckets = [], hash_next = [], hash_size = 0\<rparr>"

text \<open>
  What \<open>realloc\<close> returns for a request of \<open>n\<close> elements: the old contents, then uninitialised
  memory.
\<close>

definition resize :: "nat \<Rightarrow> (nat \<Rightarrow> 'a) \<Rightarrow> 'a list \<Rightarrow> 'a list" where
  "resize n junk xs = take n xs @ map junk [length xs..<n]"

text \<open>The loop \<open>for (i = capacity; i < new_cap; i++) hash_next[i] = -1\<close>.\<close>

definition fill_from :: "nat \<Rightarrow> nat \<Rightarrow> int list \<Rightarrow> int list" where
  "fill_from i n xs = fold (\<lambda>j ys. ys[j := -1]) [i..<n] xs"

definition alloc_table_grow :: "heap \<Rightarrow> alloc_table \<Rightarrow> errno option \<times> alloc_table" where
  "alloc_table_grow hp t =
     (let new_cap = size_mult (capacity t) 2;
          rec_bytes = size_mult new_cap SIZEOF_RECORD;
          int_bytes = size_mult new_cap SIZEOF_INT
      in if \<not> realloc_ok hp rec_bytes then (Some ENOMEM, t)
         else
           let t = t\<lparr>records := resize (rec_bytes div SIZEOF_RECORD) (junk_record hp) (records t)\<rparr>
           in if \<not> realloc_ok hp int_bytes then (Some ENOMEM, t)
              else (None, t\<lparr>hash_next := fill_from (capacity t) new_cap
                              (resize (int_bytes div SIZEOF_INT) (junk_int hp) (hash_next t)),
                            capacity := new_cap\<rparr>))"

text \<open>\<open>alloc_hash(addr) & (tbl->hash_size - 1)\<close>.\<close>

definition bucket_of :: "alloc_table \<Rightarrow> u64 \<Rightarrow> nat" where
  "bucket_of t addr = unat (alloc_hash addr AND (hash_size t - 1))"

text \<open>\<open>(int)idx\<close>.\<close>

definition int_of_size :: "nat \<Rightarrow> int" where
  "int_of_size i = sint (of_nat i :: s32)"

definition alloc_table_insert_hash :: "nat \<Rightarrow> alloc_table \<Rightarrow> alloc_table option" where
  "alloc_table_insert_hash idx t =
     (if idx < length (records t) then
        let bucket = bucket_of t (ar_addr (records t ! idx)) in
        if idx < length (hash_next t) \<and> bucket < length (hash_buckets t) then
          Some (t\<lparr>hash_next := (hash_next t)[idx := hash_buckets t ! bucket],
                  hash_buckets := (hash_buckets t)[bucket := int_of_size idx]\<rparr>)
        else None
      else None)"

definition add_alloc_record ::
  "heap \<Rightarrow> alloc_record \<Rightarrow> alloc_table \<Rightarrow> (errno option \<times> alloc_table) option" where
  "add_alloc_record hp rec t =
     (let (err, t) = (if capacity t \<le> count t then alloc_table_grow hp t else (None, t))
      in if err \<noteq> None then Some (Some ENOMEM, t)
         else
           let idx = count t in
           if idx < length (records t) \<and> idx < length (hash_next t) then
             do {
               t \<leftarrow> alloc_table_insert_hash idx
                 (t\<lparr>records := (records t)[idx := rec], hash_next := (hash_next t)[idx := -1]\<rparr>);
               Some (None, t\<lparr>count := Suc (count t)\<rparr>)
             }
           else None)"

text \<open>The \<open>while (idx >= 0)\<close> loop of \<open>find_live_alloc\<close>; the result is an index or NULL.\<close>

partial_function (option) walk_chain :: "alloc_table \<Rightarrow> u64 \<Rightarrow> int \<Rightarrow> nat option option" where
  "walk_chain t addr idx =
     (if idx < 0 then Some None
      else if length (records t) \<le> nat idx then None
      else if ar_live (records t ! nat idx) \<noteq> 0 \<and> ar_addr (records t ! nat idx) = addr
           then Some (Some (nat idx))
      else if length (hash_next t) \<le> nat idx then None
      else walk_chain t addr (hash_next t ! nat idx))"

definition find_live_alloc :: "alloc_table \<Rightarrow> u64 \<Rightarrow> nat option option" where
  "find_live_alloc t addr =
     (let bucket = bucket_of t addr
      in if bucket < length (hash_buckets t) then walk_chain t addr (hash_buckets t ! bucket)
         else None)"

text \<open>The handler of a release: \<open>rec->live = 0; rec->timestamp_free = ts\<close> on the record at index \<open>i\<close>.\<close>

definition released :: "nat \<Rightarrow> u64 \<Rightarrow> alloc_table \<Rightarrow> alloc_table" where
  "released i ts t =
     t\<lparr>records := (records t)[i := (records t ! i)\<lparr>ar_live := 0, ar_timestamp_free := ts\<rparr>]\<rparr>"

section \<open>Well-formed tables\<close>

text \<open>
  \<open>chain next s is\<close>: following \<open>next\<close> from link \<open>s\<close> visits exactly the indices \<open>is\<close> and ends at \<open>-1\<close>.
\<close>

primrec chain :: "int list \<Rightarrow> int \<Rightarrow> nat list \<Rightarrow> bool" where
  "chain nx s [] \<longleftrightarrow> s = -1"
| "chain nx s (i # is) \<longleftrightarrow> s = int i \<and> i < length nx \<and> chain nx (nx ! i) is"

text \<open>The records of a bucket, newest first.\<close>

definition bucket_indices :: "alloc_table \<Rightarrow> nat \<Rightarrow> nat list" where
  "bucket_indices t b = filter (\<lambda>i. bucket_of t (ar_addr (records t ! i)) = b) (rev [0..<count t])"

definition table_inv :: "alloc_table \<Rightarrow> bool" where
  "table_inv t \<longleftrightarrow>
     hash_size t \<noteq> 0 \<and> length (hash_buckets t) = unat (hash_size t) \<and>
     count t \<le> capacity t \<and> capacity t \<le> length (records t) \<and>
     length (hash_next t) = capacity t \<and> 0 < capacity t \<and> count t \<le> 2 ^ 31 \<and>
     (\<forall>b < length (hash_buckets t). chain (hash_next t) (hash_buckets t ! b) (bucket_indices t b))"

text \<open>
  The specification of the lookup: the newest record that is live and has the address.
\<close>

definition newest_live :: "alloc_table \<Rightarrow> u64 \<Rightarrow> nat option" where
  "newest_live t addr =
     find (\<lambda>i. ar_live (records t ! i) \<noteq> 0 \<and> ar_addr (records t ! i) = addr) (rev [0..<count t])"

text \<open>All live records of an address, newest first.\<close>

definition live_stack :: "alloc_table \<Rightarrow> u64 \<Rightarrow> alloc_record list" where
  "live_stack t addr =
     filter (\<lambda>r. ar_live r \<noteq> 0 \<and> ar_addr r = addr) (rev (take (count t) (records t)))"

end
