(* ===== verification/Csv.thy ===== *)
theory Csv
  imports C_Text Alloc_Table
begin

text \<open>
  The file that passes from the collector to the resolver: \<open>write_csv_batch\<close> of
  \<open>src/collector/main.c\<close>, and \<open>load_csv\<close> and \<open>parse_addr\<close> of \<open>src/resolver/main.cpp\<close>, over the
  contents of the file as one string.
\<close>

section \<open>Writing\<close>

definition CSV_HEADER :: string where
  "CSV_HEADER = ''address,size,pid,tid,live,timestamp_alloc,timestamp_free,stack_id,stack_depth,stack_pcs''"

definition NL :: char where
  "NL = CHR 0x0A"

text \<open>
  The program counters of a record from index \<open>j\<close> on: the loop runs while \<open>j\<close> is below the depth
  and below 64.
\<close>

function write_pcs :: "alloc_record \<Rightarrow> nat \<Rightarrow> string" where
  "write_pcs r j =
     (if int j < sint (ar_stack_depth r) \<and> j < COLLECTOR_MAX_STACK_DEPTH then
        (if 0 < j then '';'' else []) @ ''0x'' @ print_hex (ar_stack_pcs r ! j) @ write_pcs r (Suc j)
      else [])"
  by auto

termination
  by (relation "measure (\<lambda>(r, j). COLLECTOR_MAX_STACK_DEPTH - j)") auto

declare write_pcs.simps [simp del]

definition write_row :: "alloc_record \<Rightarrow> string" where
  "write_row r =
     ''0x'' @ print_hex (ar_addr r) @ '','' @ print_unsigned (ar_size r) @ '','' @
     print_unsigned (ar_pid r) @ '','' @ print_unsigned (ar_tid r) @ '','' @
     (if ar_live r \<noteq> 0 then ''1'' else ''0'') @ '','' @
     print_unsigned (ar_timestamp_alloc r) @ '','' @ print_unsigned (ar_timestamp_free r) @ '','' @
     print_signed (ar_stack_id r) @ '','' @ print_signed (ar_stack_depth r) @ '','' @
     write_pcs r 0 @ [NL]"

definition write_csv_batch :: "alloc_table \<Rightarrow> string" where
  "write_csv_batch t = CSV_HEADER @ [NL] @ concat (map write_row (take (count t) (records t)))"

section \<open>Loading\<close>

record alloc_entry =
  ae_addr :: u64
  ae_size :: u64
  ae_stack_id :: s64
  ae_timestamp :: u64
  ae_pid :: u32
  ae_tid :: u32
  ae_live :: int
  ae_stack_depth :: s32
  ae_stack_pcs :: "u64 list"

definition zero_entry :: alloc_entry where
  "zero_entry =
     \<lparr>ae_addr = 0, ae_size = 0, ae_stack_id = 0, ae_timestamp = 0, ae_pid = 0, ae_tid = 0,
      ae_live = 0, ae_stack_depth = 0, ae_stack_pcs = []\<rparr>"

definition parse_addr :: "string \<Rightarrow> u64" where
  "parse_addr s =
     (let vs = (if take 2 s = ''0x'' \<or> take 2 s = ''0X'' then sscanf [CULong 16] (drop 2 s)
                else sscanf [CULong 10] s)
      in case vs of [VULong a] \<Rightarrow> a | _ \<Rightarrow> 0)"

text \<open>\<open>"0x%lx,%lu,%u,%u,%7[^,],%lu,%lu,%ld,%d"\<close>\<close>

definition ROW_FORMAT :: "directive list" where
  "ROW_FORMAT =
     [Lit (CHR ''0''), Lit (CHR ''x''), CULong 16, Lit (CHR '',''), CULong 10, Lit (CHR '',''),
      CUInt, Lit (CHR '',''), CUInt, Lit (CHR '',''), NotIn 7 (CHR '',''), Lit (CHR '',''),
      CULong 10, Lit (CHR '',''), CULong 10, Lit (CHR '',''), CLong, Lit (CHR '',''), CInt]"

definition PC_FORMAT :: "directive list" where
  "PC_FORMAT = [Lit (CHR ''0''), Lit (CHR ''x''), CULong 16]"

text \<open>
  The destinations of the conversions, in order. The sixth and the seventh both go to
  \<open>info.timestamp\<close>. The name \<open>live_str\<close> is a local of the loop.
\<close>

record row_vars =
  rv_info :: alloc_entry
  rv_live_str :: string
  rv_stack_id :: s64
  rv_stack_depth :: s32

fun assign_row :: "nat \<Rightarrow> scanned list \<Rightarrow> row_vars \<Rightarrow> row_vars" where
  "assign_row k [] v = v"
| "assign_row k (VULong w # vs) v =
     assign_row (Suc k) vs (v\<lparr>rv_info :=
       (if k = 0 then (rv_info v)\<lparr>ae_addr := w\<rparr>
        else if k = 1 then (rv_info v)\<lparr>ae_size := w\<rparr>
        else (rv_info v)\<lparr>ae_timestamp := w\<rparr>)\<rparr>)"
| "assign_row k (VUInt w # vs) v =
     assign_row (Suc k) vs (v\<lparr>rv_info :=
       (if k = 2 then (rv_info v)\<lparr>ae_pid := w\<rparr> else (rv_info v)\<lparr>ae_tid := w\<rparr>)\<rparr>)"
| "assign_row k (VString s # vs) v = assign_row (Suc k) vs (v\<lparr>rv_live_str := s\<rparr>)"
| "assign_row k (VLong w # vs) v = assign_row (Suc k) vs (v\<lparr>rv_stack_id := w\<rparr>)"
| "assign_row k (VInt w # vs) v = assign_row (Suc k) vs (v\<lparr>rv_stack_depth := w\<rparr>)"

text \<open>The loop that looks for the ninth comma: the index after it, or 0.\<close>

fun after_comma :: "nat \<Rightarrow> nat \<Rightarrow> string \<Rightarrow> nat" where
  "after_comma i n [] = 0"
| "after_comma i n (c # cs) =
     (if c = CHR '','' then if Suc n = 9 then i + 1 else after_comma (Suc i) (Suc n) cs
      else after_comma (Suc i) n cs)"

definition parse_pc :: "string \<Rightarrow> u64 list" where
  "parse_pc token = (case sscanf PC_FORMAT (c_str token) of [VULong pc] \<Rightarrow> if pc \<noteq> 0 then [pc] else [] | _ \<Rightarrow> [])"

definition parse_pcs :: "string \<Rightarrow> u64 list" where
  "parse_pcs s = concat (map parse_pc (getlines (CHR '';'') s))"

definition parse_row :: "string \<Rightarrow> alloc_entry option" where
  "parse_row line =
     (let vs = sscanf ROW_FORMAT (c_str line);
          v = assign_row 0 vs \<lparr>rv_info = zero_entry, rv_live_str = [], rv_stack_id = 0, rv_stack_depth = 0\<rparr>
      in if 5 \<le> length vs then
           let info = (rv_info v)\<lparr>ae_live := (if rv_live_str v = ''1'' then 1 else 0),
                                 ae_stack_id := rv_stack_id v, ae_stack_depth := rv_stack_depth v\<rparr>;
               pos = after_comma 0 0 line
           in if 9 \<le> length vs \<and> 0 < pos \<and> pos < length line
              then Some (info\<lparr>ae_stack_pcs := parse_pcs (drop pos line)\<rparr>)
              else Some info
         else None)"

definition load_csv :: "string \<Rightarrow> alloc_entry list" where
  "load_csv file = List.map_filter parse_row (tl (getlines NL file))"

end
