(* ===== verification/Alloc_Index.thy ===== *)
theory Alloc_Index
  imports Std_Algorithms Csv
begin

text \<open>
  The resolver's index of allocations, \<open>set_alloc_table\<close> and \<open>find_alloc\<close> of
  \<open>src/resolver/address_resolver.cpp\<close>: the loaded entries sorted by address, searched with
  \<open>std::upper_bound\<close> and a walk back. Results are indices into the sorted table instead of pointers.
\<close>

section \<open>Definitions\<close>

definition entry_less :: "alloc_entry \<Rightarrow> alloc_entry \<Rightarrow> bool" where
  "entry_less a b \<longleftrightarrow> ae_addr a < ae_addr b"

text \<open>\<open>srt\<close> is \<open>std::sort\<close> with \<^const>\<open>entry_less\<close>.\<close>

definition set_alloc_table :: "(alloc_entry list \<Rightarrow> alloc_entry list) \<Rightarrow> alloc_entry list \<Rightarrow> alloc_entry list" where
  "set_alloc_table srt allocs = srt allocs"

definition covers :: "alloc_entry \<Rightarrow> u64 \<Rightarrow> bool" where
  "covers e addr \<longleftrightarrow> ae_addr e \<le> addr \<and> addr < ae_addr e + ae_size e"

text \<open>
  The walk back from the iterator at index \<open>i\<close>. \<open>best\<close> is \<open>best_match\<close>, which is set but never
  returned.
\<close>

fun walk_back :: "alloc_entry list \<Rightarrow> u64 \<Rightarrow> nat \<Rightarrow> nat option \<Rightarrow> nat option" where
  "walk_back xs addr 0 best = None"
| "walk_back xs addr (Suc i) best =
     (let e = xs ! i in
      if covers e addr \<and> ae_live e \<noteq> 0 then Some i
      else
        let best = (if covers e addr \<and> best = None then Some i else best)
        in if ae_addr e + ae_size e \<le> addr then None
           else walk_back xs addr i best)"

definition find_alloc :: "alloc_entry list \<Rightarrow> u64 \<Rightarrow> nat option" where
  "find_alloc xs addr =
     walk_back xs addr (upper_bound (\<lambda>e. addr < ae_addr e) xs) None"

section \<open>Correctness\<close>

lemma walk_back_best: "walk_back xs addr i best = walk_back xs addr i None"
proof (induction i arbitrary: best)
  case 0
  then show ?case by simp
next
  case (Suc i)
  show ?case
    unfolding walk_back.simps Let_def
    by (subst (1 2) Suc) (rule refl)
qed

interpretation entries: sorter ae_addr entry_less "sort_key ae_addr"
  by unfold_locales (auto simp: entry_less_def sorts_by_def sorted_wrt_map [symmetric] not_less)

text \<open>
  The reference: among the entries that start at or below the address, the last; entries that
  cover it but are dead are skipped, and the search gives up at the first that does not cover it.
\<close>

definition find_alloc_spec :: "alloc_entry list \<Rightarrow> u64 \<Rightarrow> alloc_entry option" where
  "find_alloc_spec xs addr =
     (case dropWhile (\<lambda>e. covers e addr \<and> ae_live e = 0) (rev (takeWhile (\<lambda>e. ae_addr e \<le> addr) xs)) of
        [] \<Rightarrow> None
      | e # _ \<Rightarrow> if covers e addr then Some e else None)"

lemma walk_back_spec:
  "i \<le> length xs \<Longrightarrow> \<forall>j < i. ae_addr (xs ! j) \<le> addr \<Longrightarrow>
   map_option ((!) xs) (walk_back xs addr i best) =
     (case dropWhile (\<lambda>e. covers e addr \<and> ae_live e = 0) (rev (take i xs)) of
        [] \<Rightarrow> None | e # _ \<Rightarrow> if covers e addr then Some e else None)"
proof (induction i arbitrary: best)
  case 0
  then show ?case by simp
next
  case (Suc i)
  then have r: "rev (take (Suc i) xs) = xs ! i # rev (take i xs)"
    by (simp add: take_Suc_conv_app_nth)
  have c: "covers (xs ! i) addr \<longleftrightarrow> \<not> ae_addr (xs ! i) + ae_size (xs ! i) \<le> addr"
    using Suc.prems(2) by (auto simp: covers_def)
  show ?case
    using Suc by (simp add: r c Let_def del: take_Suc_conv_app_nth)
qed

lemma walk_back_bound: "walk_back xs addr i best = Some k \<Longrightarrow> k < i"
  by (induction i arbitrary: best) (auto simp: Let_def split: if_splits intro: less_SucI)

lemma find_alloc_eq_spec:
  assumes "sorted (map ae_addr xs)"
  shows "map_option ((!) xs) (find_alloc xs addr) = find_alloc_spec xs addr"
proof -
  let ?tw = "takeWhile (\<lambda>e. ae_addr e \<le> addr) xs"
  have u: "upper_bound (\<lambda>e. addr < ae_addr e) xs = length ?tw"
    using upper_bound_takeWhile [OF assms, of addr] by simp
  have t: "take (length ?tw) xs = ?tw"
    by (metis takeWhile_eq_take)
  have l: "length ?tw \<le> length xs" by (rule length_takeWhile_le)
  have "\<forall>j < length ?tw. ae_addr (xs ! j) \<le> addr"
    by (metis nth_mem set_takeWhileD takeWhile_nth)
  from walk_back_spec [OF l this, of None] show ?thesis
    by (simp add: find_alloc_def find_alloc_spec_def u t)
qed

lemma sorts_by_entries: "sorts_by entry_less srt \<Longrightarrow> sorter ae_addr entry_less srt"
  by unfold_locales (auto simp: entry_less_def)

lemma table_sorted: "sorts_by entry_less srt \<Longrightarrow> sorted (map ae_addr (set_alloc_table srt allocs))"
  unfolding set_alloc_table_def by (rule sorter.srt_keys [OF sorts_by_entries])

lemma table_set: "sorts_by entry_less srt \<Longrightarrow> set (set_alloc_table srt allocs) = set allocs"
  unfolding set_alloc_table_def by (rule sorter.set_srt [OF sorts_by_entries])

lemma table_length: "sorts_by entry_less srt \<Longrightarrow> length (set_alloc_table srt allocs) = length allocs"
  unfolding set_alloc_table_def by (rule sorter.length_srt [OF sorts_by_entries])

text \<open>
  C13: The bisection and the walk back compute the reference, however \<open>std::sort\<close> orders entries with
  the same address.
\<close>

theorem find_alloc_computes_spec:
  assumes "sorts_by entry_less srt" and "xs = set_alloc_table srt allocs"
  shows "map_option ((!) xs) (find_alloc xs addr) = find_alloc_spec xs addr"
  using find_alloc_eq_spec table_sorted [OF assms(1)] assms(2) by simp

lemma find_alloc_spec_sound:
  assumes "find_alloc_spec xs addr = Some e"
  shows "e \<in> set xs \<and> covers e addr \<and> ae_live e \<noteq> 0"
proof -
  let ?ys = "rev (takeWhile (\<lambda>e. ae_addr e \<le> addr) xs)"
  obtain rest where d: "dropWhile (\<lambda>e. covers e addr \<and> ae_live e = 0) ?ys = e # rest" and c: "covers e addr"
    using assms by (auto simp: find_alloc_spec_def split: list.splits if_splits)
  have "e \<in> set ?ys" using d by (metis list.set_intros(1) set_dropWhileD)
  then have "e \<in> set xs" by (auto dest: set_takeWhileD)
  moreover have "ae_live e \<noteq> 0"
    using d c by (auto simp: dropWhile_eq_Cons_conv)
  ultimately show ?thesis using c by simp
qed

text \<open>An entry found is one of the loaded ones, it is live, and it contains the address.\<close>

theorem find_alloc_sound:
  assumes "sorts_by entry_less srt" and "find_alloc (set_alloc_table srt allocs) addr = Some i"
  shows "i < length allocs \<and> set_alloc_table srt allocs ! i \<in> set allocs \<and>
    covers (set_alloc_table srt allocs ! i) addr \<and> ae_live (set_alloc_table srt allocs ! i) \<noteq> 0"
proof -
  let ?xs = "set_alloc_table srt allocs"
  have "i < upper_bound (\<lambda>e. addr < ae_addr e) ?xs"
    using assms(2) walk_back_bound by (simp add: find_alloc_def)
  also have "\<dots> \<le> length ?xs"
    using upper_bound_takeWhile [OF table_sorted [OF assms(1)], where v = addr] by (simp add: length_takeWhile_le)
  finally have "i < length ?xs" .
  moreover have "find_alloc_spec ?xs addr = Some (?xs ! i)"
    using find_alloc_eq_spec [where addr = addr, OF table_sorted [OF assms(1), of allocs]] assms(2) by simp
  ultimately show ?thesis
    using find_alloc_spec_sound [of ?xs addr "?xs ! i"] table_set [OF assms(1), of allocs]
      table_length [OF assms(1), of allocs] by simp
qed

text \<open>
  What completeness needs: each entry that starts in between covers the address as well, and is
  either dead or the entry itself. Blocks that do not overlap, dead ones included, satisfy it.
\<close>

definition unobstructed :: "alloc_entry list \<Rightarrow> alloc_entry \<Rightarrow> u64 \<Rightarrow> bool" where
  "unobstructed xs e addr \<longleftrightarrow>
     (\<forall>f \<in> set xs. ae_addr e \<le> ae_addr f \<and> ae_addr f \<le> addr \<longrightarrow>
        covers f addr \<and> (ae_live f \<noteq> 0 \<longrightarrow> f = e))"

definition disjoint_entries :: "alloc_entry list \<Rightarrow> bool" where
  "disjoint_entries xs \<longleftrightarrow>
     (\<forall>e \<in> set xs. covers e (ae_addr e)) \<and>
     (\<forall>e \<in> set xs. \<forall>f \<in> set xs. \<forall>a. covers e a \<and> covers f a \<longrightarrow> e = f)"

lemma disjoint_unobstructed:
  assumes "disjoint_entries xs" and "e \<in> set xs" and "covers e addr"
  shows "unobstructed xs e addr"
proof -
  have "f = e" if "f \<in> set xs" "ae_addr e \<le> ae_addr f" "ae_addr f \<le> addr" for f
  proof -
    have "covers e (ae_addr f)" using that assms(3) by (auto simp: covers_def)
    with that assms(1,2) show ?thesis by (auto simp: disjoint_entries_def)
  qed
  with assms(3) show ?thesis by (auto simp: unobstructed_def)
qed

lemma sorted_takeWhile_filter:
  "sorted (map key xs) \<Longrightarrow> takeWhile (\<lambda>x. key x \<le> v) xs = filter (\<lambda>x. key x \<le> v) xs"
proof (induction xs)
  case Nil
  then show ?case by simp
next
  case (Cons x xs)
  have "filter (\<lambda>x. key x \<le> v) xs = []" if "\<not> key x \<le> v"
    using that Cons.prems by (fastforce simp: filter_empty_conv)
  with Cons show ?case by simp
qed

text \<open>The entries at or below the address, around one of them, in the order of the walk.\<close>

lemma walk_order:
  assumes "sorted (map ae_addr xs)" and "e \<in> set xs" and "ae_addr e \<le> addr"
  shows "\<exists>ys zs. rev (takeWhile (\<lambda>e. ae_addr e \<le> addr) xs) = zs @ e # ys \<and>
    (\<forall>f \<in> set zs. f \<in> set xs \<and> ae_addr e \<le> ae_addr f \<and> ae_addr f \<le> addr)"
proof -
  let ?P = "\<lambda>e. ae_addr e \<le> addr"
  note flt = sorted_takeWhile_filter [OF assms(1), of addr]
  have "e \<in> set (takeWhile ?P xs)" using assms(2,3) by (simp add: flt)
  then obtain ys zs where tw: "takeWhile ?P xs = ys @ e # zs" by (meson split_list)
  have "sorted (map ae_addr (takeWhile ?P xs))"
    using assms(1) by (metis sorted_wrt_takeWhile sorted_map takeWhile_map)
  then have "\<forall>f \<in> set zs. ae_addr e \<le> ae_addr f" unfolding tw by (auto simp: sorted_append)
  moreover have "set zs \<subseteq> set (takeWhile ?P xs)" by (auto simp: tw)
  then have "\<forall>f \<in> set zs. f \<in> set xs \<and> ae_addr f \<le> addr" by (auto simp: flt)
  ultimately show ?thesis by (intro exI [of _ "rev ys"] exI [of _ "rev zs"]) (simp add: tw)
qed

lemma find_alloc_spec_complete:
  assumes srtd: "sorted (map ae_addr xs)" and clear: "unobstructed xs e addr"
    and e: "e \<in> set xs" "covers e addr" "ae_live e \<noteq> 0"
  shows "find_alloc_spec xs addr = Some e"
proof -
  obtain ys zs where w: "rev (takeWhile (\<lambda>e. ae_addr e \<le> addr) xs) = zs @ e # ys"
    and zs: "\<forall>f \<in> set zs. f \<in> set xs \<and> ae_addr e \<le> ae_addr f \<and> ae_addr f \<le> addr"
    using walk_order [OF srtd e(1), of addr] e(2) by (auto simp: covers_def)
  have "\<exists>rest. dropWhile (\<lambda>f. covers f addr \<and> ae_live f = 0) (zs @ e # ys) = e # rest"
    using zs
  proof (induction zs)
    case Nil
    with e show ?case by simp
  next
    case (Cons f zs)
    with clear show ?case by (auto simp: unobstructed_def)
  qed
  with e show ?thesis by (auto simp: find_alloc_spec_def w)
qed

text \<open>
  C12: A live entry that contains the address is found unless an entry that starts between them ends at
  or before the address, or another live entry does.
\<close>

theorem find_alloc_complete:
  assumes "sorts_by entry_less srt" and "unobstructed allocs e addr"
    and "e \<in> set allocs" and "covers e addr" and "ae_live e \<noteq> 0"
  shows "map_option ((!) (set_alloc_table srt allocs)) (find_alloc (set_alloc_table srt allocs) addr) = Some e"
proof -
  have "unobstructed (set_alloc_table srt allocs) e addr"
    using assms(2) table_set [OF assms(1)] by (simp add: unobstructed_def)
  then show ?thesis
    using find_alloc_spec_complete [OF table_sorted [OF assms(1)]] find_alloc_eq_spec [OF table_sorted [OF assms(1)]]
      table_set [OF assms(1)] assms(3-5) by simp
qed

text \<open>
  A block that ends at or before the address, dead or alive, hides every live block that contains
  the address and starts below it: the walk back stops there and nothing is found.
\<close>

theorem ended_block_hides_live_blocks:
  assumes "sorts_by entry_less srt" and "d \<in> set allocs"
    and "ae_addr d \<le> addr" and "ae_addr d + ae_size d \<le> addr"
    and "\<forall>e \<in> set allocs. covers e addr \<and> ae_live e \<noteq> 0 \<longrightarrow> ae_addr e < ae_addr d"
  shows "find_alloc (set_alloc_table srt allocs) addr = None"
proof -
  let ?xs = "set_alloc_table srt allocs"
  have d: "d \<in> set ?xs" "\<not> covers d addr"
    using assms(2,4) table_set [OF assms(1)] by (simp_all add: covers_def not_less)
  obtain ys zs where w: "rev (takeWhile (\<lambda>e. ae_addr e \<le> addr) ?xs) = zs @ d # ys"
    and zs: "\<forall>f \<in> set zs. f \<in> set ?xs \<and> ae_addr d \<le> ae_addr f \<and> ae_addr f \<le> addr"
    using walk_order [OF table_sorted [OF assms(1)] d(1) assms(3)] by blast
  have "\<exists>f rest. dropWhile (\<lambda>f. covers f addr \<and> ae_live f = 0) (zs @ d # ys) = f # rest \<and> \<not> covers f addr"
    using zs
  proof (induction zs)
    case Nil
    with d show ?case by simp
  next
    case (Cons f zs)
    then have "ae_live f = 0 \<or> \<not> covers f addr"
      using assms(5) table_set [OF assms(1)] by fastforce
    with Cons show ?case by auto
  qed
  then have "find_alloc_spec ?xs addr = None" by (auto simp: find_alloc_spec_def w)
  then show ?thesis
    using find_alloc_eq_spec [where addr = addr, OF table_sorted [OF assms(1), of allocs]] by simp
qed

definition sample_entry :: "u64 \<Rightarrow> u64 \<Rightarrow> int \<Rightarrow> alloc_entry" where
  "sample_entry a n live = zero_entry\<lparr>ae_addr := a, ae_size := n, ae_live := live\<rparr>"

lemma sample_sorts: "sorts_by entry_less (sort_key ae_addr)"
  by (rule entries.srt)

theorem find_alloc_computes_spec_witness:
  "map_option ((!) [sample_entry 100 10 0, sample_entry 200 10 1])
     (find_alloc [sample_entry 100 10 0, sample_entry 200 10 1] 205) = Some (sample_entry 200 10 1)"
proof -
  have "[sample_entry 100 10 0, sample_entry 200 10 1] =
      set_alloc_table (sort_key ae_addr) [sample_entry 200 10 1, sample_entry 100 10 0]"
    by (simp add: set_alloc_table_def sample_entry_def)
  from find_alloc_computes_spec [OF sample_sorts this, of 205] show ?thesis
    by (simp add: find_alloc_spec_def covers_def sample_entry_def)
qed

text \<open>An address that was used before by a block of the same size.\<close>

theorem find_alloc_complete_witness:
  "map_option ((!) (set_alloc_table (sort_key ae_addr) [sample_entry 200 10 1, sample_entry 100 10 1, sample_entry 100 10 0]))
     (find_alloc (set_alloc_table (sort_key ae_addr) [sample_entry 200 10 1, sample_entry 100 10 1, sample_entry 100 10 0]) 105) =
   Some (sample_entry 100 10 1)"
  by (rule find_alloc_complete [OF sample_sorts])
    (simp_all add: unobstructed_def covers_def sample_entry_def)

theorem find_alloc_sound_witness:
  "\<exists>i. find_alloc (set_alloc_table (sort_key ae_addr) [sample_entry 100 10 1]) 105 = Some i \<and> i < 1"
proof -
  obtain i where i: "find_alloc (set_alloc_table (sort_key ae_addr) [sample_entry 100 10 1]) 105 = Some i"
    by (simp add: find_alloc_def set_alloc_table_def upper_bound_def bisect.simps sample_entry_def covers_def Let_def)
  with find_alloc_sound [OF sample_sorts i] show ?thesis by simp
qed

theorem ended_block_hides_live_blocks_witness:
  "find_alloc (set_alloc_table (sort_key ae_addr) [sample_entry 100 100 1, sample_entry 120 10 0]) 150 = None"
  by (rule ended_block_hides_live_blocks [OF sample_sorts, where d = "sample_entry 120 10 0"])
    (simp_all add: covers_def sample_entry_def)

end
