(* ===== verification/Source_Text.thy ===== *)
theory Source_Text
  imports C_Text Std_Algorithms "HOL-Library.Char_ord" "HOL-Library.List_Lexorder"
begin

text \<open>
  \<open>src/resolver/source_code_analyzer.cpp\<close>: the source line of a program counter, asked from the
  program \<open>addr2line\<close> and read from the source file, and the type names that regular expressions find
  in it. \<open>std::regex_search\<close> is the backtracking matcher of ECMAScript for what the patterns use:
  characters, classes, greedy repetition of one class, and groups.
\<close>

section \<open>Regular expressions\<close>

datatype re_atom = Is char | White | Word

datatype re_class = Atom re_atom | Except "re_atom list"

datatype re_item = One re_class | Star re_class | Open nat | Close nat

definition is_word :: "char \<Rightarrow> bool" where
  "is_word c =
     (let k = of_char c :: nat
      in 48 \<le> k \<and> k \<le> 57 \<or> 65 \<le> k \<and> k \<le> 90 \<or> 97 \<le> k \<and> k \<le> 122 \<or> k = 95)"

fun in_atom :: "re_atom \<Rightarrow> char \<Rightarrow> bool" where
  "in_atom (Is a) c = (c = a)"
| "in_atom White c = is_space c"
| "in_atom Word c = is_word c"

fun in_class :: "re_class \<Rightarrow> char \<Rightarrow> bool" where
  "in_class (Atom a) c = in_atom a c"
| "in_class (Except as) c = list_all (\<lambda>a. \<not> in_atom a c) as"

text \<open>
  The notation of the patterns. A string of HOL cannot hold a backslash, which is written \<open>%\<close> here.
\<close>

definition escaped :: "char \<Rightarrow> re_atom" where
  "escaped c = (if c = CHR ''s'' then White else if c = CHR ''w'' then Word else Is c)"

fun parse_set :: "string \<Rightarrow> re_atom list \<times> string" where
  "parse_set [] = ([], [])"
| "parse_set [c] = ([], [])"
| "parse_set (c # d # s) =
     (if c = CHR '']'' then ([], d # s)
      else if c = CHR ''%'' then let (as, r) = parse_set s in (escaped d # as, r)
      else let (as, r) = parse_set (d # s) in (Is c # as, r))"

lemma parse_set_length: "length (snd (parse_set s)) \<le> length s"
  by (induction s rule: parse_set.induct) (auto simp: split_beta Let_def)

definition quantified :: "re_class \<Rightarrow> string \<Rightarrow> re_item list \<times> string" where
  "quantified k s =
     (case s of
        [] \<Rightarrow> ([One k], [])
      | c # r \<Rightarrow>
          if c = CHR ''*'' then ([Star k], r)
          else if c = CHR ''+'' then ([One k, Star k], r)
          else ([One k], s))"

lemma quantified_length: "length (snd (quantified k s)) \<le> length s"
  by (auto simp: quantified_def split: list.split)

function parse_regex :: "nat \<Rightarrow> nat list \<Rightarrow> string \<Rightarrow> re_item list" where
  "parse_regex n stk [] = []"
| "parse_regex n stk (c # s) =
     (if c = CHR ''('' then Open n # parse_regex (Suc n) (n # stk) s
      else if c = CHR '')'' then Close (hd stk) # parse_regex n (tl stk) s
      else if c = CHR ''['' \<and> take 1 s = ''^'' then
        fst (quantified (Except (fst (parse_set (drop 1 s)))) (snd (parse_set (drop 1 s)))) @
        parse_regex n stk (snd (quantified (Except (fst (parse_set (drop 1 s)))) (snd (parse_set (drop 1 s)))))
      else if c = CHR ''%'' then
        fst (quantified (Atom (escaped (hd s))) (tl s)) @
        parse_regex n stk (snd (quantified (Atom (escaped (hd s))) (tl s)))
      else
        fst (quantified (Atom (Is c)) s) @ parse_regex n stk (snd (quantified (Atom (Is c)) s)))"
  by pat_completeness auto

termination
proof (relation "measure (\<lambda>(n, stk, s). length s)", simp_all)
  fix c :: char and s :: string
  show "length (snd (quantified (Except (fst (parse_set (drop (Suc 0) s)))) (snd (parse_set (drop (Suc 0) s))))) < Suc (length s)"
    using quantified_length [of "Except (fst (parse_set (drop (Suc 0) s)))" "snd (parse_set (drop (Suc 0) s))"]
      parse_set_length [of "drop (Suc 0) s"] by simp
  show "length (snd (quantified (Atom (escaped (hd s))) (tl s))) < Suc (length s)"
    using quantified_length [of "Atom (escaped (hd s))" "tl s"] by simp
  show "length (snd (quantified (Atom (Is c)) s)) < Suc (length s)"
    using quantified_length [of "Atom (Is c)" s] by simp
qed

definition regex :: "string \<Rightarrow> re_item list" where
  "regex p = parse_regex 1 [] p"

text \<open>The groups while matching: a character that is consumed belongs to every open group.\<close>

definition feed :: "nat list \<Rightarrow> char \<Rightarrow> (nat \<Rightarrow> string) \<Rightarrow> (nat \<Rightarrow> string)" where
  "feed opn c m = (\<lambda>g. if g \<in> set opn then m g @ [c] else m g)"

fun match_here :: "re_item list \<Rightarrow> string \<Rightarrow> nat list \<Rightarrow> (nat \<Rightarrow> string) \<Rightarrow> (nat \<Rightarrow> string) option" where
  "match_here [] s opn m = Some m"
| "match_here (Open g # ps) s opn m = match_here ps s (g # opn) (m(g := []))"
| "match_here (Close g # ps) s opn m = match_here ps s (removeAll g opn) m"
| "match_here (One k # ps) [] opn m = None"
| "match_here (One k # ps) (c # s) opn m =
     (if in_class k c then match_here ps s opn (feed opn c m) else None)"
| "match_here (Star k # ps) [] opn m = match_here ps [] opn m"
| "match_here (Star k # ps) (c # s) opn m =
     (if in_class k c then
        (case match_here (Star k # ps) s opn (feed opn c m) of
           Some r \<Rightarrow> Some r
         | None \<Rightarrow> match_here ps (c # s) opn m)
      else match_here ps (c # s) opn m)"

text \<open>\<open>std::regex_search\<close>: the match that starts first. A group that took no part is empty.\<close>

fun regex_search :: "re_item list \<Rightarrow> string \<Rightarrow> (nat \<Rightarrow> string) option" where
  "regex_search ps [] = match_here ps [] [] (\<lambda>_. [])"
| "regex_search ps (c # s) =
     (case match_here ps (c # s) [] (\<lambda>_. []) of
        Some m \<Rightarrow> Some m
      | None \<Rightarrow> regex_search ps s)"

section \<open>Types in a line\<close>

definition MALLOC_PATTERNS :: "string list" where
  "MALLOC_PATTERNS =
     [''=%s*%(%s*([^*%s]+)%s*%*%s*%)%s*malloc%s*%('',
      ''=%s*%(%s*struct%s+([^*%s]+)%s*%*%s*%)%s*malloc%s*%('',
      ''([^*%s]+)%s*%*%s+(%w+)%s*=%s*malloc%s*%('',
      ''struct%s+([^*%s]+)%s*%*%s+(%w+)%s*=%s*malloc%s*%('',
      ''malloc%s*%(%s*sizeof%s*%(%s*([^)]+)%s*%)%s*%)'',
      ''malloc%s*%(%s*sizeof%s*%(%s*struct%s+([^)]+)%s*%)%s*%)'',
      ''malloc%s*%([^)]*%*%s*sizeof%s*%(%s*([^)]+)%s*%)%s*%)'',
      ''malloc%s*%([^)]*%*%s*sizeof%s*%(%s*struct%s+([^)]+)%s*%)%s*%)'',
      ''malloc%s*%(%s*%([^)]+%)%s*%*%s*sizeof%s*%(%s*([^)]+)%s*%)%s*%)'',
      ''malloc%s*%(%s*%([^)]+%)%s*%*%s*sizeof%s*%(%s*struct%s+([^)]+)%s*%)%s*%)'']"

definition CALLOC_PATTERNS :: "string list" where
  "CALLOC_PATTERNS =
     [''=%s*%(%s*([^*%s]+)%s*%*%s*%)%s*calloc%s*%('',
      ''=%s*%(%s*struct%s+([^*%s]+)%s*%*%s*%)%s*calloc%s*%('',
      ''([^*%s]+)%s*%*%s+(%w+)%s*=%s*calloc%s*%('',
      ''struct%s+([^*%s]+)%s*%*%s+(%w+)%s*=%s*calloc%s*%('',
      ''calloc%s*%([^,]+,%s*sizeof%s*%(%s*([^)]+)%s*%)%s*%)'',
      ''calloc%s*%([^,]+,%s*sizeof%s*%(%s*struct%s+([^)]+)%s*%)%s*%)'']"

definition REALLOC_PATTERNS :: "string list" where
  "REALLOC_PATTERNS =
     [''=%s*%(%s*([^*%s]+)%s*%*%s*%)%s*realloc%s*%('',
      ''=%s*%(%s*struct%s+([^*%s]+)%s*%*%s*%)%s*realloc%s*%('',
      ''([^*%s]+)%s*%*%s+(%w+)%s*=%s*realloc%s*%('',
      ''struct%s+([^*%s]+)%s*%*%s+(%w+)%s*=%s*realloc%s*%('',
      ''realloc%s*%([^,]+,%s*[^)]*sizeof%s*%(%s*([^)]+)%s*%)%s*%)'',
      ''realloc%s*%([^,]+,%s*[^)]*sizeof%s*%(%s*struct%s+([^)]+)%s*%)%s*%)'']"

definition blank :: "char \<Rightarrow> bool" where
  "blank c = (c \<in> set [CHR '' '', CHR 0x09, CHR 0x0A, CHR 0x0D])"

definition trim :: "string \<Rightarrow> string" where
  "trim s = rev (dropWhile blank (rev (dropWhile blank s)))"

definition type_in :: "string \<Rightarrow> string \<Rightarrow> string option" where
  "type_in line p =
     (case regex_search (regex p) line of
        None \<Rightarrow> None
      | Some m \<Rightarrow>
          let t = trim (m 1)
          in if t \<noteq> [] \<and> t \<noteq> ''void'' then Some t else None)"

text \<open>The strings are totally ordered, so that \<open>std::sort\<close> has one result, which is \<^const>\<open>sort\<close>.\<close>

definition types_in :: "string list \<Rightarrow> string \<Rightarrow> string list" where
  "types_in patterns line = unique (sort (List.map_filter (type_in line) patterns))"

definition extract_malloc_types :: "string \<Rightarrow> string list" where
  "extract_malloc_types line = types_in MALLOC_PATTERNS line"

definition extract_calloc_types :: "string \<Rightarrow> string list" where
  "extract_calloc_types line = types_in CALLOC_PATTERNS line"

definition extract_realloc_types :: "string \<Rightarrow> string list" where
  "extract_realloc_types line = types_in REALLOC_PATTERNS line"

section \<open>The source line of a program counter\<close>

text \<open>
  What the host answers: the output of a command run by \<open>popen\<close>, unless that fails, and the content
  of a file, unless it cannot be opened. The confidence of a result is in hundredths: the program
  uses only constants with two decimals.
\<close>

record text_host =
  popen :: "string \<Rightarrow> string option"
  file_content :: "string \<Rightarrow> string option"

record source_analyzer =
  sa_binary_path :: string
  sa_cache :: "string \<rightharpoonup> string"

record type_extraction =
  te_type_name :: string
  te_source_line :: string
  te_method :: string
  te_confidence :: nat
  te_note :: string

definition empty_source_analyzer :: source_analyzer where
  "empty_source_analyzer = \<lparr>sa_binary_path = [], sa_cache = Map.empty\<rparr>"

definition source_load_binary :: "string \<Rightarrow> source_analyzer \<Rightarrow> int \<times> source_analyzer" where
  "source_load_binary path sa = (0, sa\<lparr>sa_binary_path := path\<rparr>)"

text \<open>\<open>snprintf(cmd, 1024, ...)\<close> keeps 1023 characters.\<close>

definition addr2line_command :: "string \<Rightarrow> u64 \<Rightarrow> string" where
  "addr2line_command path pc =
     take 1023 (''addr2line -e '' @ path @ '' 0x'' @ print_hex pc @ '' 2>/dev/null'')"

definition is_eol :: "char \<Rightarrow> bool" where
  "is_eol c = (c = CHR 0x0A \<or> c = CHR 0x0D)"

definition execute_addr2line :: "text_host \<Rightarrow> source_analyzer \<Rightarrow> u64 \<Rightarrow> string" where
  "execute_addr2line th sa pc =
     (if sa_binary_path sa = [] then []
      else case popen th (addr2line_command (sa_binary_path sa) pc) of
             None \<Rightarrow> []
           | Some out \<Rightarrow> rev (dropWhile is_eol (rev out)))"

text \<open>\<open>std::stoul\<close>, which throws without a number and on one that is too large.\<close>

definition stoul :: "string \<Rightarrow> u64 option" where
  "stoul s =
     (case scan_num 10 s of
        None \<Rightarrow> None
      | Some (neg, m, _) \<Rightarrow> if 2 ^ 64 \<le> m then None else Some (to_ulong neg m))"

definition get_source_location :: "text_host \<Rightarrow> source_analyzer \<Rightarrow> u64 \<Rightarrow> (string \<times> u32) option" where
  "get_source_location th sa pc =
     (let result = execute_addr2line th sa pc
      in if CHR '':'' \<notin> set result then None
         else
           let line_str = rev (takeWhile (\<lambda>c. c \<noteq> CHR '':'') (rev result));
               file = take (length result - length line_str - 1) result
           in if file = ''??'' \<or> line_str = ''?'' then None
              else map_option (\<lambda>n. (file, ucast n)) (stoul line_str))"

definition read_source_file :: "text_host \<Rightarrow> string \<Rightarrow> source_analyzer \<Rightarrow> string \<times> source_analyzer" where
  "read_source_file th file sa =
     (case sa_cache sa file of
        Some content \<Rightarrow> (content, sa)
      | None \<Rightarrow>
          (case file_content th file of
             None \<Rightarrow> ([], sa)
           | Some content \<Rightarrow> (content, sa\<lparr>sa_cache := (sa_cache sa)(file \<mapsto> content)\<rparr>)))"

fun nth_line :: "u32 \<Rightarrow> u32 \<Rightarrow> string list \<Rightarrow> string option" where
  "nth_line line current [] = None"
| "nth_line line current (l # ls) = (if current = line then Some l else nth_line line (current + 1) ls)"

definition get_source_line :: "text_host \<Rightarrow> string \<Rightarrow> u32 \<Rightarrow> source_analyzer \<Rightarrow> string option \<times> source_analyzer" where
  "get_source_line th file line sa =
     (let (content, sa) = read_source_file th file sa
      in (if content = [] then None else nth_line line 1 (getlines (CHR 0x0A) content), sa))"

definition no_extraction :: type_extraction where
  "no_extraction =
     \<lparr>te_type_name = [], te_source_line = [], te_method = [], te_confidence = 0, te_note = []\<rparr>"

definition extraction_of_line :: "string \<Rightarrow> type_extraction" where
  "extraction_of_line line =
     (let result = no_extraction\<lparr>te_source_line := line\<rparr>;
          types = extract_malloc_types line @ extract_calloc_types line @ extract_realloc_types line
      in if types = [] then
           result\<lparr>te_method := ''no_type_found'', te_note := ''No type pattern matched in source line''\<rparr>
         else if length types = 1 then
           result\<lparr>te_type_name := types ! 0, te_method := ''source_text'', te_confidence := 90,
                  te_note := ''Extracted from source: '' @ line\<rparr>
         else
           result\<lparr>te_type_name := types ! 0, te_method := ''source_text'', te_confidence := 75,
                  te_note := ''Extracted from source (multiple candidates): '' @ line\<rparr>)"

definition extract_type_from_source ::
  "text_host \<Rightarrow> u64 \<Rightarrow> source_analyzer \<Rightarrow> type_extraction \<times> source_analyzer" where
  "extract_type_from_source th pc sa =
     (case get_source_location th sa pc of
        None \<Rightarrow> (no_extraction, sa)
      | Some (file, line) \<Rightarrow>
          (let (source_line, sa) = get_source_line th file line sa
           in case source_line of
                None \<Rightarrow> (no_extraction, sa)
              | Some l \<Rightarrow> (extraction_of_line l, sa)))"

end
