(* ===== verification/Resolver.thy ===== *)
theory Resolver
  imports Dwarf_Lookup Alloc_Index Source_Text
begin

text \<open>
  The state of \<open>AddressResolver\<close> of \<open>src/resolver/address_resolver.cpp\<close>, its loading, and what it knows
  about where the binary lies: the ranges of the binary's addresses, the guesses of the offset at which
  it was loaded, and the translation of a run-time address. A \<open>const\<close> method that writes to a member
  returns the state as well.
\<close>

section \<open>State\<close>

record binary_range =
  br_start :: u64
  br_end :: u64
  br_path :: string

record resolver =
  rs_analyzer :: analyzer
  rs_source :: source_analyzer
  rs_allocs :: "alloc_entry list"
  rs_binary_path :: string
  rs_ranges :: "binary_range list"
  rs_size_index :: "u64 \<rightharpoonup> nat list"
  rs_stack_map_fd :: int
  rs_aslr_offset :: int

text \<open>
  What the host answers: libdw for the loaded file, \<open>addr2line\<close> and the source files, and the lookup in
  the stack map, whose keys have 32 bits.
\<close>

record 'a resolver_host =
  rh_dw :: "'a libdw"
  rh_text :: text_host
  rh_stack :: "u32 \<Rightarrow> u64 list option"

definition new_resolver :: resolver where
  "new_resolver =
     \<lparr>rs_analyzer = empty_analyzer, rs_source = empty_source_analyzer, rs_allocs = [], rs_binary_path = [],
      rs_ranges = [], rs_size_index = Map.empty, rs_stack_map_fd = - 1, rs_aslr_offset = 0\<rparr>"

definition set_allocs :: "(alloc_entry list \<Rightarrow> alloc_entry list) \<Rightarrow> alloc_entry list \<Rightarrow> resolver \<Rightarrow> resolver" where
  "set_allocs srt allocs rs = rs\<lparr>rs_allocs := set_alloc_table srt allocs\<rparr>"

definition set_stack_map_fd :: "int \<Rightarrow> resolver \<Rightarrow> resolver" where
  "set_stack_map_fd fd rs = rs\<lparr>rs_stack_map_fd := fd\<rparr>"

section \<open>Loading\<close>

definition index_size :: "type_info list \<Rightarrow> nat \<Rightarrow> (u64 \<rightharpoonup> nat list) \<Rightarrow> (u64 \<rightharpoonup> nat list)" where
  "index_size ts i m =
     (let n = ti_byte_size (ts ! i)
      in if 0 < n \<and> ti_fields (ts ! i) \<noteq> []
         then m(n \<mapsto> (case m n of None \<Rightarrow> [] | Some is \<Rightarrow> is) @ [i]) else m)"

definition build_size_index :: "resolver \<Rightarrow> resolver" where
  "build_size_index rs =
     (let ts = types (rs_analyzer rs)
      in rs\<lparr>rs_size_index := fold (index_size ts) [0..<length ts] Map.empty\<rparr>)"

text \<open>The pair \<open>(min_addr, max_addr)\<close> after one subprogram and after one symbol.\<close>

definition extend_by_subprogram :: "subprogram \<Rightarrow> u64 \<times> u64 \<Rightarrow> u64 \<times> u64" where
  "extend_by_subprogram sp mm =
     (if sp_low_pc sp = 0 \<or> sp_high_pc sp = 0 \<or> sp_end sp \<le> sp_low_pc sp then mm
      else (if sp_low_pc sp < fst mm then sp_low_pc sp else fst mm,
            if snd mm < sp_end sp then sp_end sp else snd mm))"

definition symbol_end :: "symbol_info \<Rightarrow> u64" where
  "symbol_end s = sy_address s + (if 0 < sy_size s then sy_size s else 1)"

definition extend_by_symbol :: "symbol_info \<Rightarrow> u64 \<times> u64 \<Rightarrow> u64 \<times> u64" where
  "extend_by_symbol s mm =
     (if sy_address s = 0 then mm
      else (if sy_address s < fst mm then sy_address s else fst mm,
            if snd mm < symbol_end s then symbol_end s else snd mm))"

definition detect_binary_ranges :: "resolver \<Rightarrow> resolver" where
  "detect_binary_ranges rs =
     (let an = rs_analyzer rs;
          mm = fold extend_by_subprogram (subprograms an) (- 1, 0);
          (mn, mx) = fold extend_by_symbol (symbols an) mm
      in rs\<lparr>rs_ranges :=
              (if mn \<noteq> - 1 \<and> mn < mx
               then [\<lparr>br_start = mn, br_end = mx, br_path = rs_binary_path rs\<rparr>] else [])\<rparr>)"

definition resolver_load_binary ::
  "(symbol_info list \<Rightarrow> symbol_info list) \<Rightarrow> (string \<Rightarrow> (elf \<times> 'a libdw) option) \<Rightarrow> string \<Rightarrow> resolver \<Rightarrow>
     (int \<times> resolver) option" where
  "resolver_load_binary srt file path rs =
     (case load_binary srt file path (rs_analyzer rs) of
        None \<Rightarrow> None
      | Some (rc, an) \<Rightarrow>
          let rs = rs\<lparr>rs_binary_path := path, rs_analyzer := an\<rparr>
          in if rc = 0 then
               let rs = build_size_index rs;
                   rs = rs\<lparr>rs_source := snd (source_load_binary path (rs_source rs))\<rparr>
               in Some (rc, detect_binary_ranges rs)
             else Some (rc, rs))"

section \<open>Run-time addresses\<close>

text \<open>Addresses from here on belong to shared libraries and the stack.\<close>

definition LIBRARY_START :: u64 where
  "LIBRARY_START = 0x7f0000000000"

definition is_in_target_binary :: "resolver \<Rightarrow> u64 \<Rightarrow> bool" where
  "is_in_target_binary rs addr =
     (if addr < 0x100000 then True
      else if LIBRARY_START \<le> addr then False
      else list_ex (\<lambda>r. 0x1000000 \<le> sint (addr - br_start r) \<and> sint (addr - br_start r) < 0x1000000000000)
             (rs_ranges rs))"

definition PAGE_MASK :: u64 where
  "PAGE_MASK = 0xFFF"

definition range_has :: "binary_range \<Rightarrow> u64 \<Rightarrow> bool" where
  "range_has r a \<longleftrightarrow> br_start r \<le> a \<and> a < br_end r"

text \<open>
  The loop over the pages of a range. The page after the last one of the address space is page 0, so
  that the loop need not end; a result is the address that matched, if any.
\<close>

partial_function (option) scan_pages :: "u64 \<Rightarrow> binary_range \<Rightarrow> u64 \<Rightarrow> u64 \<Rightarrow> u64 option option" where
  "scan_pages va r page_end page =
     (if page \<le> page_end then
        let c = page OR (va AND PAGE_MASK)
        in if range_has r c \<and> 0x1000000 \<le> sint (va - c) \<and> sint (va - c) < 0x1000000000000
           then Some (Some c)
           else scan_pages va r page_end (page + 0x1000)
      else Some None)"

definition scan_range :: "u64 \<Rightarrow> binary_range \<Rightarrow> u64 option option" where
  "scan_range va r =
     scan_pages va r ((br_end r + PAGE_MASK) AND NOT PAGE_MASK) (br_start r AND NOT PAGE_MASK)"

fun scan_ranges :: "u64 \<Rightarrow> binary_range list \<Rightarrow> u64 option option" where
  "scan_ranges va [] = Some None"
| "scan_ranges va (r # rs) =
     (case scan_range va r of
        None \<Rightarrow> None
      | Some (Some c) \<Rightarrow> Some (Some c)
      | Some None \<Rightarrow> scan_ranges va rs)"

definition va_to_file_offset :: "resolver \<Rightarrow> u64 \<Rightarrow> u64 option" where
  "va_to_file_offset rs va =
     (if va < 0x100000 \<or> LIBRARY_START \<le> va then Some va
      else map_option (\<lambda>c. case c of Some c \<Rightarrow> c | None \<Rightarrow> va) (scan_ranges va (rs_ranges rs)))"

section \<open>The load offset\<close>

text \<open>\<open>std::map<int64_t, int>\<close> as the list of its entries in order, and \<open>offset_counts[k]++\<close>.\<close>

fun bump :: "int \<Rightarrow> (int \<times> nat) list \<Rightarrow> (int \<times> nat) list" where
  "bump k [] = [(k, 1)]"
| "bump k ((l, n) # xs) =
     (if k < l then (k, 1) # (l, n) # xs
      else if k = l then (l, Suc n) # xs
      else (l, n) # bump k xs)"

definition best_count :: "(int \<times> nat) list \<Rightarrow> int" where
  "best_count counts =
     fst (fold (\<lambda>(k, n) (best, count). if count < n then (k, n) else (best, count)) counts (0, 0))"

definition plausible_offset :: "int \<Rightarrow> bool" where
  "plausible_offset d \<longleftrightarrow> \<not> (d < 0x1000000 \<or> d > 0x1000000000000)"

definition page_floor :: "int \<Rightarrow> int" where
  "page_floor d = (d div 0x1000) * 0x1000"

text \<open>The offset for which a program counter votes with a subprogram, if it does.\<close>

definition pc_vote :: "u64 \<Rightarrow> subprogram \<Rightarrow> int option" where
  "pc_vote pc sp =
     (if sp_low_pc sp = 0 \<or> sp_name sp = [] \<or> sp_end sp \<le> sp_low_pc sp then None
      else let d = sint (pc - sp_low_pc sp)
           in if plausible_offset d then Some (page_floor d) else None)"

definition pc_votes :: "subprogram list \<Rightarrow> u64 \<Rightarrow> int list" where
  "pc_votes sps pc = (if pc = 0 \<or> LIBRARY_START \<le> pc then [] else List.map_filter (pc_vote pc) sps)"

definition compute_aslr_offset :: "u64 list \<Rightarrow> resolver \<Rightarrow> int \<times> resolver" where
  "compute_aslr_offset pcs rs =
     (if rs_aslr_offset rs \<noteq> 0 then (rs_aslr_offset rs, rs)
      else
        let counts = fold bump (concat (map (pc_votes (subprograms (rs_analyzer rs))) pcs)) []
        in if counts \<noteq> [] then (best_count counts, rs\<lparr>rs_aslr_offset := best_count counts\<rparr>) else (0, rs))"

definition global_vote :: "u64 \<Rightarrow> symbol_info \<Rightarrow> int option" where
  "global_vote addr s =
     (if sy_address s = 0 \<or> sy_sym_type s \<noteq> SYM_OBJECT then None
      else
        let c = (sy_address s AND NOT PAGE_MASK) OR (addr AND PAGE_MASK)
        in if c < sy_address s \<or> 0 < sy_size s \<and> sy_address s + sy_size s \<le> c then None
           else let d = sint (addr - c)
                in if plausible_offset d then Some (page_floor d) else None)"

definition compute_aslr_from_global_addr :: "u64 \<Rightarrow> resolver \<Rightarrow> int" where
  "compute_aslr_from_global_addr addr rs =
     (let counts = fold bump (List.map_filter (global_vote addr) (symbols (rs_analyzer rs))) []
      in if counts \<noteq> [] then best_count counts else 0)"

end
