(* ===== verification/Type_Inference.thy ===== *)
theory Type_Inference
  imports Resolver
begin

text \<open>
  How \<open>src/resolver/address_resolver.cpp\<close> guesses the type of a heap block: from the source line of a
  caller, from the pointers a caller declares, from the size, or as an array. Confidences are in
  hundredths. A result that is absent is a translation of a program counter that does not end.
\<close>

section \<open>Stacks\<close>

text \<open>The buffer of 128 words is zeroed before the lookup.\<close>

definition read_stack :: "'a resolver_host \<Rightarrow> resolver \<Rightarrow> s64 \<Rightarrow> u64 list option" where
  "read_stack h rs stack_id =
     (if rs_stack_map_fd rs < 0 \<or> sint stack_id < 0 then None
      else map_option (overwrite (replicate 128 0)) (rh_stack h (ucast stack_id)))"

definition resolve_stack_pcs :: "'a resolver_host \<Rightarrow> resolver \<Rightarrow> s64 \<Rightarrow> u64 list" where
  "resolve_stack_pcs h rs stack_id =
     (case read_stack h rs stack_id of None \<Rightarrow> [] | Some pcs \<Rightarrow> takeWhile (\<lambda>pc. pc \<noteq> 0) pcs)"

definition SKIP_NAMES :: "string list" where
  "SKIP_NAMES =
     [''malloc'', ''free'', ''__libc_malloc'', ''__libc_free'', ''calloc'', ''realloc'', ''__libc_calloc'',
      ''__libc_realloc'', ''memalign'', ''__libc_memalign'', ''posix_memalign'', ''aligned_alloc'',
      ''valloc'', ''pvalloc'']"

definition shown_name :: "symbol_info option \<Rightarrow> string option" where
  "shown_name found =
     (case found of
        None \<Rightarrow> None
      | Some s \<Rightarrow> if sy_name s \<in> set SKIP_NAMES then None else Some (sy_name s))"

definition resolve_stack_function_names :: "'a resolver_host \<Rightarrow> resolver \<Rightarrow> s64 \<Rightarrow> string list" where
  "resolve_stack_function_names h rs stack_id =
     (case read_stack h rs stack_id of
        None \<Rightarrow> []
      | Some pcs \<Rightarrow>
          List.map_filter (\<lambda>pc. shown_name (find_symbol_by_addr (rs_analyzer rs) pc))
            (takeWhile (\<lambda>pc. pc \<noteq> 0) pcs))"

fun resolve_function_names_from_pcs :: "resolver \<Rightarrow> u64 list \<Rightarrow> string list option" where
  "resolve_function_names_from_pcs rs [] = Some []"
| "resolve_function_names_from_pcs rs (pc # pcs) =
     (case va_to_file_offset rs pc of
        None \<Rightarrow> None
      | Some file_pc \<Rightarrow>
          (case resolve_function_names_from_pcs rs pcs of
             None \<Rightarrow> None
           | Some names \<Rightarrow>
               let found = find_symbol_by_addr (rs_analyzer rs) file_pc;
                   found = (if found = None then find_symbol_by_addr (rs_analyzer rs) pc else found)
               in Some (case shown_name found of None \<Rightarrow> names | Some n \<Rightarrow> n # names)))"

section \<open>Candidates\<close>

definition callsite_candidates :: "resolver \<Rightarrow> string list \<Rightarrow> string list" where
  "callsite_candidates rs names =
     concat (map (\<lambda>n. case find_subprogram_by_name (rs_analyzer rs) n of
                        None \<Rightarrow> [] | Some sp \<Rightarrow> pointer_targets sp) names)"

definition get_size_candidates :: "resolver \<Rightarrow> u64 \<Rightarrow> string list" where
  "get_size_candidates rs sz =
     (case rs_size_index rs sz of
        None \<Rightarrow> [] | Some idx \<Rightarrow> map (\<lambda>i. ti_name (types (rs_analyzer rs) ! i)) idx)"

definition intersection :: "string list \<Rightarrow> string list \<Rightarrow> string list" where
  "intersection cs ss = filter (\<lambda>c. c \<in> set ss) cs"

definition to_string :: "nat \<Rightarrow> string" where
  "to_string n = digits 10 n"

definition ambiguous :: "string list \<Rightarrow> string \<Rightarrow> string" where
  "ambiguous cs what = hd cs @ '' (ambiguous: '' @ to_string (length cs) @ what @ '')''"

section \<open>Types as text\<close>

definition infer_type_from_callsite :: "'a resolver_host \<Rightarrow> resolver \<Rightarrow> s64 \<Rightarrow> string" where
  "infer_type_from_callsite h rs stack_id =
     (if sint stack_id \<le> 0 then []
      else
        let cs = callsite_candidates rs (resolve_stack_function_names h rs stack_id)
        in if cs = [] then [] else if length cs = 1 then hd cs
           else ambiguous cs '' callsite candidates'')"

definition infer_type_from_size :: "resolver \<Rightarrow> u64 \<Rightarrow> string" where
  "infer_type_from_size rs sz =
     (if sz = 0 then []
      else
        let cs = get_size_candidates rs sz
        in if length cs = 1 then hd cs else if 1 < length cs then ambiguous cs '' candidates'' else [])"

definition infer_type_combined :: "'a resolver_host \<Rightarrow> resolver \<Rightarrow> s64 \<Rightarrow> u64 \<Rightarrow> string" where
  "infer_type_combined h rs stack_id sz =
     (let cs = (if 0 < sint stack_id then callsite_candidates rs (resolve_stack_function_names h rs stack_id) else [])
      in if length cs = 1 then hd cs
         else
           let ss = (if 0 < sz then get_size_candidates rs sz else []);
               both = (if cs \<noteq> [] \<and> ss \<noteq> [] then intersection cs ss else [])
           in if length both = 1 then hd both
              else if 1 < length both then ambiguous both '' candidates''
              else if cs \<noteq> [] then ambiguous cs '' callsite candidates''
              else infer_type_from_size rs sz)"

section \<open>Results with a method and a confidence\<close>

record inference =
  in_type_name :: string
  in_alloc_count :: u64
  in_method :: string
  in_confidence :: nat
  in_note :: string

definition no_inference :: inference where
  "no_inference = \<lparr>in_type_name = [], in_alloc_count = 0, in_method = [], in_confidence = 0, in_note = []\<rparr>"

text \<open>The loop over all types; the second type that fits ends it.\<close>

fun array_match :: "u64 \<Rightarrow> type_info list \<Rightarrow> inference \<Rightarrow> inference" where
  "array_match sz [] r = r"
| "array_match sz (t # ts) r =
     (if ti_fields t = [] \<or> ti_byte_size t < 8 \<or> sz mod ti_byte_size t \<noteq> 0 then array_match sz ts r
      else
        let n = sz div ti_byte_size t
        in if n < 2 \<or> n > 100000 then array_match sz ts r
           else if in_type_name r = [] then
             array_match sz ts
               (r\<lparr>in_type_name := ti_name t, in_alloc_count := n, in_method := ''array_size_match'',
                  in_confidence := 35\<rparr>)
           else r\<lparr>in_type_name := in_type_name r @ '' (ambiguous)'', in_confidence := 15\<rparr>)"

definition try_array_size_match :: "resolver \<Rightarrow> u64 \<Rightarrow> inference" where
  "try_array_size_match rs sz = array_match sz (types (rs_analyzer rs)) no_inference"

definition infer_type_from_source_text :: "'a resolver_host \<Rightarrow> u64 \<Rightarrow> resolver \<Rightarrow> inference \<times> resolver" where
  "infer_type_from_source_text h pc rs =
     (let (src, sa) = extract_type_from_source (rh_text h) pc (rs_source rs);
          r = no_inference\<lparr>in_alloc_count := 1\<rparr>
      in (if te_type_name src \<noteq> [] then
            r\<lparr>in_type_name := te_type_name src, in_method := te_method src,
              in_confidence := te_confidence src, in_note := te_note src\<rparr>
          else r,
          rs\<lparr>rs_source := sa\<rparr>))"

text \<open>The number of elements, when the size is a multiple of the size of the type.\<close>

definition count_elements :: "resolver \<Rightarrow> u64 \<Rightarrow> inference \<Rightarrow> inference" where
  "count_elements rs sz r =
     (case find_type_by_name (rs_analyzer rs) (in_type_name r) of
        None \<Rightarrow> r
      | Some ti \<Rightarrow>
          if 0 < ti_byte_size ti \<and> sz mod ti_byte_size ti = 0 then
            let n = sz div ti_byte_size ti;
                r = r\<lparr>in_alloc_count := n\<rparr>
            in if 1 < n then r\<lparr>in_note := ''array allocation ('' @ print_unsigned n @ '' elements)''\<rparr> else r
          else r)"

text \<open>The pointer types at one caller: a result unless there is none.\<close>

definition callsite_result :: "resolver \<Rightarrow> u64 \<Rightarrow> string list \<Rightarrow> inference option" where
  "callsite_result rs sz pc_types =
     (let r = no_inference\<lparr>in_alloc_count := 1\<rparr>
      in if pc_types = [] then None
         else if length pc_types = 1 then
           Some (count_elements rs sz
             (r\<lparr>in_type_name := hd pc_types, in_method := ''callsite_pc'', in_confidence := 95\<rparr>))
         else
           let both = intersection pc_types (get_size_candidates rs sz)
           in if length both = 1 then
                Some (count_elements rs sz
                  (r\<lparr>in_type_name := hd both, in_method := ''combined'', in_confidence := 80\<rparr>))
              else if 1 < length both then
                Some (r\<lparr>in_type_name := hd both, in_method := ''combined_ambiguous'', in_confidence := 40,
                        in_note := to_string (length both) @ '' combined candidates''\<rparr>)
              else
                Some (r\<lparr>in_type_name := hd pc_types, in_method := ''callsite_ambiguous'', in_confidence := 40,
                        in_note := to_string (length pc_types) @ '' callsite candidates''\<rparr>))"

text \<open>The loop over the callers.\<close>

fun infer_from_callers ::
  "'a resolver_host \<Rightarrow> u64 \<Rightarrow> u64 list \<Rightarrow> resolver \<Rightarrow> (inference option \<times> resolver) option" where
  "infer_from_callers h sz [] rs = Some (None, rs)"
| "infer_from_callers h sz (pc # pcs) rs =
     (let caller = (if 0 < pc then pc - 1 else pc)
      in if \<not> is_in_target_binary rs caller then infer_from_callers h sz pcs rs
         else case va_to_file_offset rs caller of
           None \<Rightarrow> None
         | Some file_offset \<Rightarrow>
             (let (src, rs) = infer_type_from_source_text h file_offset rs
              in if in_type_name src \<noteq> [] \<and> 50 \<le> in_confidence src then
                   Some (Some (count_elements rs sz src), rs)
                 else
                   (case callsite_result rs sz
                           (find_pointer_target_types_at_pc sort (rs_analyzer rs) file_offset) of
                      Some r \<Rightarrow> Some (Some r, rs)
                    | None \<Rightarrow> infer_from_callers h sz pcs rs)))"

text \<open>The pointers that the functions of the stack declare.\<close>

definition function_result :: "resolver \<Rightarrow> u64 \<Rightarrow> string list \<Rightarrow> inference" where
  "function_result rs sz names =
     (let r = no_inference\<lparr>in_alloc_count := 1\<rparr>;
          ts = unique (sort (callsite_candidates rs names))
      in if length ts = 1 then
           r\<lparr>in_type_name := hd ts, in_method := ''callsite_func'', in_confidence := 70\<rparr>
         else if 1 < length ts then
           let both = intersection ts (get_size_candidates rs sz)
           in if length both = 1 then
                r\<lparr>in_type_name := hd both, in_method := ''callsite_func+size'', in_confidence := 75\<rparr>
              else if 1 < length both then
                r\<lparr>in_type_name := hd both, in_method := ''callsite_func_ambiguous'', in_confidence := 35,
                  in_note := to_string (length both) @ '' func+size candidates''\<rparr>
              else
                r\<lparr>in_type_name := hd ts, in_method := ''callsite_func_ambiguous'', in_confidence := 30,
                  in_note := to_string (length ts) @ '' func ptr candidates''\<rparr>
         else r)"

fun has_infix :: "string \<Rightarrow> string \<Rightarrow> bool" where
  "has_infix w [] = (w = [])"
| "has_infix w (c # s) = (take (length w) (c # s) = w \<or> has_infix w s)"

definition infer_from_size :: "resolver \<Rightarrow> u64 \<Rightarrow> inference \<Rightarrow> inference" where
  "infer_from_size rs sz r =
     (let ss = get_size_candidates rs sz
      in if length ss = 1 then
           r\<lparr>in_type_name := hd ss, in_method := ''size_match'', in_confidence := 60, in_alloc_count := 1\<rparr>
         else if 1 < length ss then
           r\<lparr>in_type_name := hd ss, in_method := ''size_ambiguous'', in_confidence := 20,
             in_note := to_string (length ss) @ '' size candidates''\<rparr>
         else
           let a = try_array_size_match rs sz
           in if in_type_name a \<noteq> [] then a
              else r\<lparr>in_method := ''unknown'', in_confidence := 0\<rparr>)"

text \<open>The stack: the program counters of the record, or those that the stack map has for it.\<close>

definition inference_pcs :: "'a resolver_host \<Rightarrow> resolver \<Rightarrow> s64 \<Rightarrow> u64 list \<Rightarrow> u64 list" where
  "inference_pcs h rs stack_id inline_pcs =
     (if inline_pcs \<noteq> [] then inline_pcs
      else if 0 < sint stack_id then resolve_stack_pcs h rs stack_id else [])"

definition infer_type_combined_v2 ::
  "'a resolver_host \<Rightarrow> s64 \<Rightarrow> u64 \<Rightarrow> u64 list \<Rightarrow> resolver \<Rightarrow> (inference \<times> resolver) option" where
  "infer_type_combined_v2 h stack_id sz inline_pcs rs =
     (let r = no_inference\<lparr>in_alloc_count := 1\<rparr>;
          pcs = inference_pcs h rs stack_id inline_pcs
      in if pcs = [] then Some (infer_from_size rs sz r, rs)
         else
           let rs = snd (compute_aslr_offset pcs (rs\<lparr>rs_aslr_offset := 0\<rparr>))
           in case infer_from_callers h sz (tl pcs) rs of
                None \<Rightarrow> None
              | Some (Some r, rs) \<Rightarrow> Some (r, rs)
              | Some (None, rs) \<Rightarrow>
                  (case resolve_function_names_from_pcs rs pcs of
                     None \<Rightarrow> None
                   | Some names \<Rightarrow>
                       let r = function_result rs sz names
                       in if in_type_name r \<noteq> [] \<and> \<not> has_infix ''ambiguous'' (in_type_name r)
                          then Some (count_elements rs sz r, rs)
                          else Some (infer_from_size rs sz r, rs)))"

end
