(* ===== verification/Resolve.thy ===== *)
theory Resolve
  imports Type_Inference
begin

text \<open>
  The resolution of an address in \<open>src/resolver/address_resolver.cpp\<close>: as a global, in the heap, on the
  stack, in this order; the fields of a block, a global or a frame; the stack trace; the printed form.
  Inference may not end, so the operations that use it return nothing in that case and otherwise the
  resolver with its caches.
\<close>

section \<open>Results\<close>

record resolved_field =
  rf_type_name :: string
  rf_field_name :: string
  rf_full_path :: string
  rf_byte_offset :: u64
  rf_byte_size :: u64
  rf_base_address :: u64
  rf_resolved_address :: u64
  rf_field_type_name :: string
  rf_is_bitfield :: bool
  rf_bit_offset :: u64
  rf_source_file :: string
  rf_source_line :: u32

record resolved_stack_frame =
  rsf_pc :: u64
  rsf_function_name :: string
  rsf_source_file :: string
  rsf_source_line :: u32
  rsf_offset :: s64

datatype addr_class = ADDR_GLOBAL | ADDR_STACK | ADDR_HEAP | ADDR_UNKNOWN

record resolved_address =
  ra_class :: addr_class
  ra_address :: u64
  ra_symbol_name :: string
  ra_type_name :: string
  ra_fields :: "resolved_field list"
  ra_stack_trace :: "resolved_stack_frame list"
  ra_callsite :: string
  ra_alloc_size :: u64
  ra_pid :: u32
  ra_tid :: u32

definition zero_resolved :: resolved_address where
  "zero_resolved =
     \<lparr>ra_class = ADDR_GLOBAL, ra_address = 0, ra_symbol_name = [], ra_type_name = [], ra_fields = [],
      ra_stack_trace = [], ra_callsite = [], ra_alloc_size = 0, ra_pid = 0, ra_tid = 0\<rparr>"

definition zero_resolved_field :: resolved_field where
  "zero_resolved_field =
     \<lparr>rf_type_name = [], rf_field_name = [], rf_full_path = [], rf_byte_offset = 0, rf_byte_size = 0,
      rf_base_address = 0, rf_resolved_address = 0, rf_field_type_name = [], rf_is_bitfield = False,
      rf_bit_offset = 0, rf_source_file = [], rf_source_line = 0\<rparr>"

text \<open>What all results about the field \<open>f\<close> of a type share.\<close>

definition field_result :: "string \<Rightarrow> field_info \<Rightarrow> u64 \<Rightarrow> u64 \<Rightarrow> resolved_field" where
  "field_result ty f base addr =
     zero_resolved_field\<lparr>rf_type_name := ty, rf_field_name := fi_name f, rf_full_path := ty @ ''.'' @ fi_name f,
       rf_byte_offset := fi_byte_offset f, rf_byte_size := fi_byte_size f, rf_base_address := base,
       rf_resolved_address := addr, rf_field_type_name := fi_type_name f, rf_is_bitfield := fi_is_bitfield f\<rparr>"

definition bit_offset_in :: "field_info \<Rightarrow> u64 \<Rightarrow> u64" where
  "bit_offset_in f off = (if fi_is_bitfield f then off * 8 - fi_bit_offset f else 0)"

section \<open>Globals\<close>

definition resolve_global :: "u64 \<Rightarrow> resolver \<Rightarrow> resolved_address option" where
  "resolve_global address rs =
     (let an = rs_analyzer rs;
          direct = find_symbol_by_addr an address;
          aslr = (if direct = None then compute_aslr_from_global_addr address rs else 0);
          found = (if aslr \<noteq> 0 then find_symbol_by_addr an (address - of_int aslr) else direct)
      in case found of
           None \<Rightarrow> None
         | Some s \<Rightarrow>
             let r = zero_resolved\<lparr>ra_class := ADDR_GLOBAL, ra_address := address,
                       ra_symbol_name := sy_name s, ra_type_name := sy_type_name s\<rparr>
             in if sy_type_name s = [] then Some r
                else
                  let off = (if aslr \<noteq> 0 then address - of_int aslr - sy_address s else address - sy_address s)
                  in Some (case resolve_field_at_offset an (sy_type_name s) off of
                       None \<Rightarrow> r
                     | Some f \<Rightarrow> r\<lparr>ra_fields := [(field_result (sy_type_name s) f (sy_address s) address)
                                     \<lparr>rf_bit_offset := bit_offset_in f off\<rparr>]\<rparr>))"

section \<open>The heap\<close>

text \<open>\<open>std::to_string(confidence).substr(0, 4)\<close> for a confidence in hundredths.\<close>

definition print_confidence :: "nat \<Rightarrow> string" where
  "print_confidence c =
     take 4 (digits 10 (c div 100) @ ''.'' @ [digit_char (c div 10 mod 10), digit_char (c mod 10)] @ ''0000'')"

definition print_callsite :: "inference \<Rightarrow> string" where
  "print_callsite t =
     in_method t @ '' (confidence='' @ print_confidence (in_confidence t) @ '')'' @
     (if in_note t = [] then [] else '' '' @ in_note t)"

text \<open>The size of an element, where the block is taken for an array.\<close>

definition array_element_size :: "analyzer \<Rightarrow> inference \<Rightarrow> u64 option" where
  "array_element_size an t =
     (case find_type_by_name an (in_type_name t) of
        None \<Rightarrow> None
      | Some ti \<Rightarrow> if 1 < in_alloc_count t \<and> 0 < ti_byte_size ti then Some (ti_byte_size ti) else None)"

text \<open>The field of an element of an array or of a single object.\<close>

definition heap_fields :: "analyzer \<Rightarrow> inference \<Rightarrow> u64 \<Rightarrow> u64 \<Rightarrow> resolved_field list" where
  "heap_fields an t base address =
     (let off = address - base; ty = in_type_name t
      in case array_element_size an t of
           Some n \<Rightarrow>
             (case resolve_field_at_offset an ty (off mod n) of
                None \<Rightarrow> []
              | Some f \<Rightarrow>
                  [(field_result ty f base address)
                     \<lparr>rf_full_path := ty @ ''['' @ print_unsigned (off div n) @ ''].'' @ fi_name f,
                      rf_byte_offset := off\<rparr>])
         | None \<Rightarrow>
             (case resolve_field_at_offset an ty off of
                None \<Rightarrow> []
              | Some f \<Rightarrow> [(field_result ty f base address)\<lparr>rf_bit_offset := bit_offset_in f off\<rparr>]))"

definition resolve_heap ::
  "'a resolver_host \<Rightarrow> u64 \<Rightarrow> u32 \<Rightarrow> resolver \<Rightarrow> (resolved_address option \<times> resolver) option" where
  "resolve_heap h address pid rs =
     (case find_alloc (rs_allocs rs) address of
        None \<Rightarrow> Some (None, rs)
      | Some i \<Rightarrow>
          let e = rs_allocs rs ! i
          in case infer_type_combined_v2 h (ae_stack_id e) (ae_size e) (ae_stack_pcs e) rs of
               None \<Rightarrow> None
             | Some (t, rs) \<Rightarrow>
                 let r = zero_resolved\<lparr>ra_class := ADDR_HEAP, ra_address := address,
                           ra_alloc_size := ae_size e, ra_pid := ae_pid e, ra_tid := ae_tid e,
                           ra_type_name := in_type_name t, ra_callsite := print_callsite t\<rparr>
                 in Some (Some (if in_type_name t = [] then r
                                else r\<lparr>ra_fields := heap_fields (rs_analyzer rs) t (ae_addr e) address\<rparr>),
                          rs))"

section \<open>The stack\<close>

definition resolve_frame :: "'a resolver_host \<Rightarrow> resolver \<Rightarrow> u64 \<Rightarrow> resolved_stack_frame" where
  "resolve_frame h rs pc =
     (let fr = (case find_symbol_by_addr (rs_analyzer rs) pc of
                  Some s \<Rightarrow> \<lparr>rsf_pc = pc, rsf_function_name = sy_name s, rsf_source_file = [],
                             rsf_source_line = 0, rsf_offset = pc - sy_address s\<rparr>
                | None \<Rightarrow> \<lparr>rsf_pc = pc, rsf_function_name = ''0x'' @ print_hex pc, rsf_source_file = [],
                           rsf_source_line = 0, rsf_offset = 0\<rparr>)
      in case resolve_source_line (rh_dw h) pc of
           None \<Rightarrow> fr
         | Some (file, line) \<Rightarrow> fr\<lparr>rsf_source_file := file, rsf_source_line := line\<rparr>)"

definition resolve_stack_trace :: "'a resolver_host \<Rightarrow> resolver \<Rightarrow> u64 list \<Rightarrow> resolved_stack_frame list" where
  "resolve_stack_trace h rs frames = map (resolve_frame h rs) frames"

definition stack_field :: "stack_variable \<Rightarrow> resolved_field" where
  "stack_field v =
     zero_resolved_field\<lparr>rf_type_name := sv_type_name v, rf_field_name := sv_name v,
       rf_full_path := sv_type_name v @ ''.'' @ sv_name v, rf_byte_offset := sv_stack_offset v,
       rf_byte_size := sv_byte_size v\<rparr>"

definition resolve_stack :: "'a resolver_host \<Rightarrow> u64 \<Rightarrow> u64 list \<Rightarrow> resolver \<Rightarrow> resolved_address option" where
  "resolve_stack h address frames rs =
     (if frames = [] then None
      else case find_symbol_by_addr (rs_analyzer rs) (hd frames) of
        None \<Rightarrow> None
      | Some s \<Rightarrow>
          Some (zero_resolved\<lparr>ra_class := ADDR_STACK, ra_address := address, ra_symbol_name := sy_name s,
            ra_stack_trace := resolve_stack_trace h rs frames,
            ra_fields :=
              (case find_subprogram_by_name (rs_analyzer rs) (sy_name s) of
                 None \<Rightarrow> []
               | Some sp \<Rightarrow> map stack_field (find_stack_variables (rh_dw h) (rs_analyzer rs) (sp_low_pc sp)))\<rparr>))"

section \<open>Any address\<close>

definition resolve ::
  "'a resolver_host \<Rightarrow> u64 \<Rightarrow> u32 \<Rightarrow> u64 list \<Rightarrow> resolver \<Rightarrow> (resolved_address option \<times> resolver) option" where
  "resolve h address pid frames rs =
     (case resolve_global address rs of
        Some r \<Rightarrow> Some (Some r, rs)
      | None \<Rightarrow>
          (case resolve_heap h address pid rs of
             None \<Rightarrow> None
           | Some (Some r, rs) \<Rightarrow> Some (Some r, rs)
           | Some (None, rs) \<Rightarrow>
               (case resolve_stack h address frames rs of
                  Some r \<Rightarrow> Some (Some r, rs)
                | None \<Rightarrow> Some (Some (zero_resolved\<lparr>ra_class := ADDR_UNKNOWN, ra_address := address\<rparr>), rs))))"

section \<open>Fields by name and offset\<close>

definition resolve_heap_field :: "u64 \<Rightarrow> u64 \<Rightarrow> resolver \<Rightarrow> resolved_field option" where
  "resolve_heap_field base off rs =
     (case find_alloc (rs_allocs rs) base of
        None \<Rightarrow> None
      | Some i \<Rightarrow>
          let ty = infer_type_from_size rs (ae_size (rs_allocs rs ! i))
          in if ty = [] then None
             else map_option (\<lambda>f. field_result ty f base (base + off))
                    (resolve_field_at_offset (rs_analyzer rs) ty off))"

definition resolve_global_field :: "string \<Rightarrow> u64 \<Rightarrow> resolver \<Rightarrow> resolved_field option" where
  "resolve_global_field name off rs =
     (case find_symbol_by_name (rs_analyzer rs) name of
        None \<Rightarrow> None
      | Some s \<Rightarrow>
          if sy_type_name s = [] then None
          else map_option (\<lambda>f. field_result (sy_type_name s) f (sy_address s) (sy_address s + off))
                 (resolve_field_at_offset (rs_analyzer rs) (sy_type_name s) off))"

definition in_variable :: "s64 \<Rightarrow> stack_variable \<Rightarrow> bool" where
  "in_variable off v \<longleftrightarrow>
     sint (sv_stack_offset v) \<le> sint off \<and> sint off < sint (sv_stack_offset v + sv_byte_size v)"

definition resolve_stack_field :: "'a resolver_host \<Rightarrow> u64 \<Rightarrow> s64 \<Rightarrow> string \<Rightarrow> resolver \<Rightarrow> resolved_field option" where
  "resolve_stack_field h frame_base off name rs =
     (case find_subprogram_by_name (rs_analyzer rs) name of
        None \<Rightarrow> None
      | Some sp \<Rightarrow>
          map_option
            (\<lambda>v. (stack_field v)\<lparr>rf_base_address := frame_base, rf_resolved_address := frame_base + off\<rparr>)
            (find (in_variable off) (find_stack_variables (rh_dw h) (rs_analyzer rs) (sp_low_pc sp))))"

section \<open>The printed form\<close>

definition NEWLINE :: string where
  "NEWLINE = [NL]"

fun class_name :: "addr_class \<Rightarrow> string" where
  "class_name ADDR_GLOBAL = ''GLOBAL''"
| "class_name ADDR_STACK = ''STACK''"
| "class_name ADDR_HEAP = ''HEAP''"
| "class_name ADDR_UNKNOWN = ''UNKNOWN''"

definition print_field :: "resolved_field \<Rightarrow> string" where
  "print_field f =
     ''Field:   '' @ rf_full_path f @ '' (offset='' @ print_unsigned (rf_byte_offset f) @
     '', size='' @ print_unsigned (rf_byte_size f) @
     (if rf_field_type_name f \<noteq> [] then '', type='' @ rf_field_type_name f else []) @
     (if rf_is_bitfield f then '', bit_offset='' @ print_unsigned (rf_bit_offset f) else []) @
     '')'' @ NEWLINE"

definition print_frame :: "nat \<Rightarrow> resolved_stack_frame \<Rightarrow> string" where
  "print_frame i fr =
     ''  #'' @ digits 10 i @ '' 0x'' @ print_hex (rsf_pc fr) @ '' '' @ rsf_function_name fr @
     (if rsf_offset fr \<noteq> 0 then ''+'' @ print_signed (rsf_offset fr) else []) @
     (if rsf_source_file fr \<noteq> [] then
        '' ('' @ rsf_source_file fr @ '':'' @ print_unsigned (rsf_source_line fr) @ '')'' else []) @
     NEWLINE"

definition resolved_to_string :: "resolved_address \<Rightarrow> string" where
  "resolved_to_string r =
     ''Address: 0x'' @ print_hex (ra_address r) @ NEWLINE @
     ''Class:   '' @ class_name (ra_class r) @ NEWLINE @
     (if ra_symbol_name r \<noteq> [] then ''Symbol:  '' @ ra_symbol_name r @ NEWLINE else []) @
     (if ra_type_name r \<noteq> [] then ''Type:    '' @ ra_type_name r @ NEWLINE else []) @
     (if ra_alloc_size r \<noteq> 0 then ''Alloc:   '' @ print_unsigned (ra_alloc_size r) @ '' bytes'' @ NEWLINE else []) @
     (if ra_pid r \<noteq> 0 then
        ''PID:     '' @ print_unsigned (ra_pid r) @ '' TID: '' @ print_unsigned (ra_tid r) @ NEWLINE else []) @
     concat (map print_field (ra_fields r)) @
     (if ra_stack_trace r \<noteq> [] then
        ''Stack:'' @ NEWLINE @
        concat (map (\<lambda>i. print_frame i (ra_stack_trace r ! i)) [0..<length (ra_stack_trace r)])
      else [])"

end
