(* ===== verification/Va_Translation.thy ===== *)
theory Va_Translation
  imports Resolver
begin

text \<open>
  \<open>va_to_file_offset\<close> of \<open>src/resolver/address_resolver.cpp\<close>: its loop over the pages of a range is a
  search, which ends for every range that does not reach the last pages of the address space; and where
  its result is the address of the binary that the run-time address came from.
\<close>

section \<open>Pages\<close>

lemma page_mask: "PAGE_MASK = mask 12"
  by (simp add: PAGE_MASK_def mask_eq_exp_minus_1)

lemma unat_offset: "unat (x AND PAGE_MASK) = unat x mod 4096"
proof -
  have "unat (x AND PAGE_MASK) = unat (take_bit 12 x)" by (simp add: page_mask take_bit_eq_mask)
  also have "\<dots> = take_bit 12 (unat x)" by (simp add: unsigned_take_bit_eq)
  finally show ?thesis by (simp add: take_bit_eq_mod)
qed

lemma unat_page: "unat (x AND NOT PAGE_MASK) = 4096 * (unat x div 4096)"
proof -
  have "(x AND NOT PAGE_MASK) AND (x AND PAGE_MASK) = 0"
    by (simp add: bit_eq_iff bit_simps)
  then have "(x AND NOT PAGE_MASK) + (x AND PAGE_MASK) = (x AND NOT PAGE_MASK) OR (x AND PAGE_MASK)"
    by (rule disjunctive_add_eq_or)
  also have "\<dots> = x" by (auto simp add: bit_eq_iff bit_simps)
  finally have "x AND NOT PAGE_MASK = x - (x AND PAGE_MASK)" by (simp add: algebra_simps)
  moreover have "x AND PAGE_MASK \<le> x" by (rule word_and_le2)
  ultimately have "unat (x AND NOT PAGE_MASK) = unat x - unat x mod 4096"
    by (simp add: unat_sub unat_offset)
  then show ?thesis by (simp add: minus_mod_eq_mult_div)
qed

lemma page_or:
  assumes "off < 4096" and "4096 * k + off < 2 ^ 64"
  shows "(of_nat (4096 * k) :: u64) OR of_nat off = of_nat (4096 * k + off)"
proof -
  let ?p = "of_nat (4096 * k) :: u64" and ?o = "of_nat off :: u64"
  have "unat (?p AND PAGE_MASK) = 0"
    using unat_word [of "4096 * k"] assms(2) by (simp only: unat_offset) simp
  then have "?p AND PAGE_MASK = 0" by (simp only: unat_eq_zero)
  then have p: "?p AND mask 12 = 0" by (simp only: page_mask)
  have "unat (?o AND PAGE_MASK) = unat ?o" using assms(1) by (simp add: unat_offset unat_of_nat)
  then have "?o AND PAGE_MASK = ?o" by (simp only: unsigned_word_eqI)
  then have o: "?o AND mask 12 = ?o" by (simp only: page_mask)
  have "?p AND ?o = ?p AND (?o AND mask 12)" by (simp only: o)
  also have "\<dots> = ?o AND (?p AND mask 12)" by (rule and.left_commute)
  also have "\<dots> = 0" by (simp only: p and_zero_eq)
  finally have "?p + ?o = ?p OR ?o" by (rule disjunctive_add_eq_or)
  then show ?thesis by simp
qed

text \<open>The address in page \<open>k\<close> with the page offset of \<open>va\<close>, and when the loop takes an address.\<close>

definition candidate :: "u64 \<Rightarrow> nat \<Rightarrow> u64" where
  "candidate va k = of_nat (4096 * k + unat va mod 4096)"

definition takes :: "u64 \<Rightarrow> binary_range \<Rightarrow> u64 \<Rightarrow> bool" where
  "takes va r c \<longleftrightarrow> range_has r c \<and> 0x1000000 \<le> sint (va - c) \<and> sint (va - c) < 0x1000000000000"

lemma page_bound: "4096 * Suc k \<le> 2 ^ 64 \<Longrightarrow> 4096 * k + n mod 4096 < 2 ^ 64"
proof -
  assume a: "4096 * Suc k \<le> 2 ^ 64"
  have "n mod 4096 < 4096" by simp
  then have "4096 * k + n mod 4096 < 4096 * Suc k" by simp
  with a show ?thesis by (rule less_le_trans [rotated])
qed

lemma of_nat_le_u64: "a < 2 ^ 64 \<Longrightarrow> b < 2 ^ 64 \<Longrightarrow> (of_nat a :: u64) \<le> of_nat b \<longleftrightarrow> a \<le> b"
  by (simp only: word_le_nat_alt unat_word)

lemma of_nat_unat_u64: "of_nat (unat (x :: u64)) = x"
  by simp

lemma unat_candidate: "4096 * Suc k \<le> 2 ^ 64 \<Longrightarrow> unat (candidate va k) = 4096 * k + unat va mod 4096"
  unfolding candidate_def by (rule unat_word) (rule page_bound)

lemma page_candidate:
  assumes "4096 * Suc k \<le> 2 ^ 64"
  shows "(of_nat (4096 * k) :: u64) OR (va AND PAGE_MASK) = candidate va k"
proof -
  have "va AND PAGE_MASK = of_nat (unat va mod 4096)"
    by (simp flip: unat_offset)
  moreover have "4096 * k + unat va mod 4096 < 2 ^ 64"
    using assms by (rule page_bound)
  ultimately show ?thesis by (simp only: page_or [OF mod_less_divisor] candidate_def)
qed

text \<open>The loop is a search through the pages.\<close>

lemma scan_pages_find:
  assumes "4096 * Suc K < 2 ^ 64" and "k \<le> Suc K"
  shows "scan_pages va r (of_nat (4096 * K)) (of_nat (4096 * k)) =
    Some (map_option (candidate va) (find (\<lambda>k. takes va r (candidate va k)) [k..<Suc K]))"
  using assms(2)
proof (induction "Suc K - k" arbitrary: k)
  case 0
  then have "k = Suc K" by simp
  moreover have "\<not> (of_nat (4096 * Suc K) :: u64) \<le> of_nat (4096 * K)"
    using assms(1) of_nat_le_u64 [of "4096 * Suc K" "4096 * K"] by simp
  ultimately show ?case by (subst scan_pages.simps) simp
next
  case (Suc n)
  then have k: "k \<le> K" by simp
  have le: "(of_nat (4096 * k) :: u64) \<le> of_nat (4096 * K)"
    using assms(1) k of_nat_le_u64 [of "4096 * k" "4096 * K"] by simp
  have c: "(of_nat (4096 * k) :: u64) OR (va AND PAGE_MASK) = candidate va k"
    using assms(1) k by (intro page_candidate) simp
  have up: "[k..<Suc K] = k # [Suc k..<Suc K]" using k by (simp add: upt_conv_Cons)
  have next_page: "(of_nat (4096 * k) :: u64) + 0x1000 = of_nat (4096 * Suc k)" by simp
  have IH: "scan_pages va r (of_nat (4096 * K)) (of_nat (4096 * Suc k)) =
      Some (map_option (candidate va) (find (\<lambda>k. takes va r (candidate va k)) [Suc k..<Suc K]))"
    using Suc.hyps(2) k by (intro Suc.hyps(1)) simp_all
  have "scan_pages va r (of_nat (4096 * K)) (of_nat (4096 * k)) =
      (if takes va r (candidate va k) then Some (Some (candidate va k))
       else scan_pages va r (of_nat (4096 * K)) (of_nat (4096 * Suc k)))"
    by (subst scan_pages.simps) (simp only: le c next_page Let_def takes_def if_True)
  then show ?case
    by (cases "takes va r (candidate va k)") (simp_all only: IH up find.simps option.map if_True if_False)
qed

text \<open>A range that ends two pages below the end of the address space, so that the loop ends.\<close>

definition bounded_range :: "binary_range \<Rightarrow> bool" where
  "bounded_range r \<longleftrightarrow> br_start r \<le> br_end r \<and> unat (br_end r) + 0x2000 \<le> 2 ^ 64"

lemma bounded_range_pages:
  assumes "bounded_range r"
  shows "4096 * Suc ((unat (br_end r) + 4095) div 4096) < 2 ^ 64"
proof -
  have "4096 * ((e + 4095) div 4096) \<le> e + 4095" for e :: nat
    by (rule times_div_less_eq_dividend)
  then have "4096 * Suc ((e + 4095) div 4096) < e + 0x2000" for e :: nat
    unfolding mult_Suc_right by (rule order_le_less_trans [OF add_left_mono]) simp
  then have "4096 * Suc ((unat (br_end r) + 4095) div 4096) < unat (br_end r) + 0x2000" .
  also have "\<dots> \<le> 2 ^ 64" using assms unfolding bounded_range_def by (rule conjunct2)
  finally show ?thesis .
qed

lemma scan_range_find:
  assumes "bounded_range r"
  shows "scan_range va r =
    Some (map_option (candidate va) (find (\<lambda>k. takes va r (candidate va k))
      [unat (br_start r) div 4096..<Suc ((unat (br_end r) + 4095) div 4096)]))"
proof -
  let ?K = "(unat (br_end r) + 4095) div 4096" and ?k = "unat (br_start r) div 4096"
  have "unat (br_end r) + unat PAGE_MASK < 2 ^ 64"
    using assms by (simp add: bounded_range_def PAGE_MASK_def)
  then have "unat (br_end r + PAGE_MASK) = unat (br_end r) + 4095"
    by (simp add: unat_add_lem [where 'a = 64, simplified, symmetric] PAGE_MASK_def unat_plus_if')
  then have "unat ((br_end r + PAGE_MASK) AND NOT PAGE_MASK) = 4096 * ?K" by (simp only: unat_page)
  then have K: "(br_end r + PAGE_MASK) AND NOT PAGE_MASK = of_nat (4096 * ?K)"
    by (metis of_nat_unat_u64)
  have k: "br_start r AND NOT PAGE_MASK = of_nat (4096 * ?k)"
    by (metis unat_page of_nat_unat_u64)
  have "unat (br_start r) \<le> unat (br_end r)" using assms by (simp add: bounded_range_def word_le_nat_alt)
  then have "?k \<le> ?K" by (intro div_le_mono) simp
  then show ?thesis
    unfolding scan_range_def K k by (intro scan_pages_find bounded_range_pages assms) simp
qed

lemma va_to_file_offset_ends:
  assumes "\<forall>r \<in> set (rs_ranges rs). bounded_range r"
  shows "\<exists>c. va_to_file_offset rs va = Some c \<and>
    (c = va \<or> (\<exists>r \<in> set (rs_ranges rs). takes va r c \<and> c AND PAGE_MASK = va AND PAGE_MASK))"
proof -
  have "\<exists>res. scan_ranges va rs' = Some res \<and>
      (\<forall>c. res = Some c \<longrightarrow> (\<exists>r \<in> set rs'. takes va r c \<and> c AND PAGE_MASK = va AND PAGE_MASK))"
    if "\<forall>r \<in> set rs'. bounded_range r" for rs'
    using that
  proof (induction rs')
    case Nil
    then show ?case by simp
  next
    case (Cons r rs')
    then have r: "bounded_range r" by simp
    let ?found = "find (\<lambda>k. takes va r (candidate va k))
      [unat (br_start r) div 4096..<Suc ((unat (br_end r) + 4095) div 4096)]"
    show ?case
    proof (cases ?found)
      case None
      then have "scan_range va r = Some None" using scan_range_find [OF r, of va] by simp
      moreover obtain res where "scan_ranges va rs' = Some res"
        "\<forall>c. res = Some c \<longrightarrow> (\<exists>r \<in> set rs'. takes va r c \<and> c AND PAGE_MASK = va AND PAGE_MASK)"
        using Cons by auto
      ultimately show ?thesis by auto
    next
      case (Some k)
      have k: "takes va r (candidate va k)" "k < Suc ((unat (br_end r) + 4095) div 4096)"
        using find_mem [OF Some] by auto
      have "4096 * Suc k \<le> 4096 * Suc ((unat (br_end r) + 4095) div 4096)" using k(2) by simp
      also have "\<dots> \<le> 2 ^ 64" using bounded_range_pages [OF r] by (rule less_imp_le)
      finally have "4096 * Suc k \<le> 2 ^ 64" .
      then have "unat (candidate va k AND PAGE_MASK) = unat (va AND PAGE_MASK)"
        by (simp add: unat_offset unat_candidate)
      then have "candidate va k AND PAGE_MASK = va AND PAGE_MASK" by (rule unsigned_word_eqI)
      then show ?thesis using k(1) Some scan_range_find [OF r, of va] by auto
    qed
  qed
  from this [OF assms] obtain res where res: "scan_ranges va (rs_ranges rs) = Some res"
    "\<forall>c. res = Some c \<longrightarrow> (\<exists>r \<in> set (rs_ranges rs). takes va r c \<and> c AND PAGE_MASK = va AND PAGE_MASK)"
    by blast
  show ?thesis
  proof (cases res)
    case None
    with res show ?thesis by (simp add: va_to_file_offset_def)
  next
    case (Some c)
    with res have "\<exists>r \<in> set (rs_ranges rs). takes va r c \<and> c AND PAGE_MASK = va AND PAGE_MASK" by blast
    moreover have "va_to_file_offset rs va = Some va \<or> va_to_file_offset rs va = Some c"
      using res(1) Some by (simp add: va_to_file_offset_def)
    ultimately show ?thesis by blast
  qed
qed

text \<open>
  When every range ends before the last two pages of the address space, the translation ends. Its
  result is the address itself or an address of a range with the same page offset at a plausible
  distance.
\<close>

theorem va_to_file_offset_total:
  assumes "\<forall>r \<in> set (rs_ranges rs). bounded_range r"
  shows "\<exists>c. va_to_file_offset rs va = Some c \<and>
    (c = va \<or> (\<exists>r \<in> set (rs_ranges rs). takes va r c \<and> c AND PAGE_MASK = va AND PAGE_MASK))"
  using assms by (rule va_to_file_offset_ends)

lemma find_upt:
  "P k \<Longrightarrow> a \<le> k \<Longrightarrow> k < b \<Longrightarrow> \<exists>j. find P [a..<b] = Some j \<and> a \<le> j \<and> j \<le> k \<and> P j"
proof (induction "k - a" arbitrary: a)
  case 0
  then show ?case by (simp add: upt_conv_Cons)
next
  case (Suc n)
  show ?case
  proof (cases "P a")
    case True
    with Suc.prems show ?thesis by (simp add: upt_conv_Cons)
  next
    case False
    have "\<exists>j. find P [Suc a..<b] = Some j \<and> Suc a \<le> j \<and> j \<le> k \<and> P j"
      using Suc.hyps(2) Suc.prems by (intro Suc.hyps(1)) simp_all
    with False Suc.prems show ?thesis by (auto simp: upt_conv_Cons)
  qed
qed

lemma takes_iff:
  assumes "range_has r c" and "va = c + d" and "unat c + unat d < unat LIBRARY_START"
  shows "takes va r c \<longleftrightarrow> 0x1000000 \<le> unat d"
proof -
  have "unat LIBRARY_START < 0x1000000000000" by (simp add: LIBRARY_START_def)
  then have d: "unat d < 0x1000000000000" using assms(3) by linarith
  then have s: "sint d = int (unat d)" by (intro sint_small) simp
  have vc: "va - c = d" using assms(2) by simp
  show ?thesis unfolding takes_def vc s using assms(1) d by presburger
qed

lemma takes_page_before:
  assumes c: "unat c' + 4096 = unat c" and rng: "range_has r c'"
    and base: "0x1000000 \<le> unat base" "unat c + unat base < unat LIBRARY_START"
  shows "takes (c + base) r c'"
proof -
  have lib: "unat LIBRARY_START < 0x1000000000000" by (simp add: LIBRARY_START_def)
  then have "unat base + 4096 < 2 ^ 64" using base(2) by simp
  then have up: "unat (base + 4096) = unat base + 4096" by (simp add: unat_plus_if')
  have "unat (c' + 4096) = unat c" using c unat_u64 [of c] by (simp add: unat_plus_if')
  then have "c' + 4096 = c" by (rule unsigned_word_eqI)
  then have d: "c + base = c' + (base + 4096)" by (simp add: algebra_simps)
  have "unat c' + unat (base + 4096) < unat LIBRARY_START"
    unfolding up using c base(2) by (simp only: ac_simps)
  from takes_iff [OF rng d this] show ?thesis using base(1) up by simp
qed

lemma translation_first_page:
  assumes one: "rs_ranges rs = [r]" "bounded_range r" and c: "range_has r c"
    and base: "base AND PAGE_MASK = 0" "0x1000000 \<le> unat base" "unat c + unat base < unat LIBRARY_START"
  shows "va_to_file_offset rs (c + base) = Some c \<longleftrightarrow> unat c < unat (br_start r) + 0x1000"
proof -
  let ?va = "c + base" and ?kc = "unat c div 4096" and ?ks = "unat (br_start r) div 4096"
  let ?P = "\<lambda>k. takes ?va r (candidate ?va k)"
  have lib: "unat LIBRARY_START < 0x1000000000000" by (simp add: LIBRARY_START_def)
  then have "unat c + unat base < 2 ^ 64" using base(3) by simp
  then have va: "unat ?va = unat c + unat base" by (simp add: unat_plus_if')
  have "unat base mod 4096 = 0" using unat_offset [of base] base(1) by simp
  then have o: "unat ?va mod 4096 = unat c mod 4096" by (simp add: va mod_add_right_eq [symmetric])
  have cand: "candidate ?va k = of_nat (4096 * k + unat c mod 4096)" for k
    by (simp only: candidate_def o)
  have kc: "candidate ?va ?kc = c" by (simp only: cand mult_div_mod_eq of_nat_unat_u64)
  have hit: "?P ?kc" using takes_iff [OF c refl base(3)] base(2) by (simp only: kc)
  have ks: "?ks \<le> ?kc" using c by (intro div_le_mono) (simp add: range_has_def word_le_nat_alt)
  have ce: "unat c < unat (br_end r)" using c by (simp add: range_has_def word_less_nat_alt)
  then have ke: "?kc < Suc ((unat (br_end r) + 4095) div 4096)"
    by (simp add: le_imp_less_Suc div_le_mono)
  obtain k where k: "find ?P [?ks..<Suc ((unat (br_end r) + 4095) div 4096)] = Some k" "k \<le> ?kc" "?P k"
    using find_upt [where P = ?P, OF hit ks ke] by blast
  have "\<not> ?va < 0x100000" "\<not> LIBRARY_START \<le> ?va"
    using base by (simp_all add: word_less_nat_alt word_le_nat_alt va)
  then have res: "va_to_file_offset rs ?va = Some (candidate ?va k)"
    using one scan_range_find [OF one(2), of ?va] k(1) by (simp add: va_to_file_offset_def)
  have nat_k: "unat (candidate ?va j) = 4096 * j + unat c mod 4096" if "j \<le> ?kc" for j
  proof -
    have "4096 * j + unat c mod 4096 \<le> unat c" using that by (metis add_le_mono1 mult_div_mod_eq mult_le_mono2)
    then have "4096 * j + unat c mod 4096 < 2 ^ 64" using unat_u64 [of c] by simp
    then show ?thesis by (simp only: cand unat_word)
  qed
  have above: "unat (br_start r) \<le> 4096 * k + unat c mod 4096"
    using k(3) nat_k [OF k(2)] by (simp add: takes_def range_has_def word_le_nat_alt)
  have split: "unat c = 4096 * ?kc + unat c mod 4096" by simp
  show ?thesis
  proof
    assume near: "unat c < unat (br_start r) + 0x1000"
    have "k = ?kc"
    proof (rule ccontr)
      assume "k \<noteq> ?kc"
      with k(2) have "4096 * k + 4096 \<le> 4096 * ?kc" by simp
      with above near split show False by linarith
    qed
    then show "va_to_file_offset rs ?va = Some c" by (simp only: res kc)
  next
    assume "va_to_file_offset rs ?va = Some c"
    then have kk: "k = ?kc" using res nat_k [OF k(2)] split by (metis (no_types) add_right_cancel mult_left_cancel option.inject zero_neq_numeral)
    show "unat c < unat (br_start r) + 0x1000"
    proof (rule ccontr)
      assume "\<not> unat c < unat (br_start r) + 0x1000"
      then have far: "unat (br_start r) + 4096 \<le> unat c" by simp
      then have pos: "1 \<le> ?kc" "?ks \<le> ?kc - 1" by (simp_all add: le_div_geq)
      have n: "unat (candidate ?va (?kc - 1)) + 4096 = unat c"
        using nat_k [of "?kc - 1"] pos(1) split by (simp add: algebra_simps)
      have "range_has r (candidate ?va (?kc - 1))"
        using n far ce by (simp add: range_has_def word_le_nat_alt word_less_nat_alt)
      then have "?P (?kc - 1)" by (rule takes_page_before [OF n _ base(2,3)])
      from find_upt [where P = ?P, OF this pos(2) le_less_trans [OF diff_le_self ke]] obtain j where "find ?P [?ks..<Suc ((unat (br_end r) + 4095) div 4096)] = Some j" "j \<le> ?kc - 1"
        by blast
      with k(1) have "?kc \<le> ?kc - 1" unfolding kk by (metis option.inject)
      with pos(1) show False by linarith
    qed
  qed
qed

text \<open>
  C34: For a position-independent binary that is loaded at a multiple of the page size, not below
  \<open>0x1000000\<close>: where the run-time address of the address \<open>c\<close> of its only range is below the libraries,
  it is translated to \<open>c\<close> exactly when \<open>c\<close> is within a page of the start of the range. (A binary that
  is loaded where it is linked has \<open>base = 0\<close> and is not meant.)
\<close>

theorem va_translation_first_page:
  assumes one: "rs_ranges rs = [r]" "bounded_range r" and c: "range_has r c"
    and base: "base AND PAGE_MASK = 0" "0x1000000 \<le> unat base" "unat c + unat base < unat LIBRARY_START"
  shows "va_to_file_offset rs (c + base) = Some c \<longleftrightarrow> unat c < unat (br_start r) + 0x1000"
  using assms by (rule translation_first_page)

theorem va_to_file_offset_total_witness:
  "\<exists>c. va_to_file_offset (new_resolver\<lparr>rs_ranges := [\<lparr>br_start = 0x1000, br_end = 0x5000, br_path = []\<rparr>]\<rparr>)
     0x555555557234 = Some c"
  using va_to_file_offset_total [of "new_resolver\<lparr>rs_ranges := [\<lparr>br_start = 0x1000, br_end = 0x5000, br_path = []\<rparr>]\<rparr>"
      "0x555555557234"]
  by (auto simp: bounded_range_def)

theorem va_translation_first_page_witness:
  "va_to_file_offset (new_resolver\<lparr>rs_ranges := [\<lparr>br_start = 0x1000, br_end = 0x5000, br_path = []\<rparr>]\<rparr>)
     (0x1234 + 0x555555554000) = Some 0x1234 \<and>
   va_to_file_offset (new_resolver\<lparr>rs_ranges := [\<lparr>br_start = 0x1000, br_end = 0x5000, br_path = []\<rparr>]\<rparr>)
     (0x3234 + 0x555555554000) \<noteq> Some 0x3234"
proof -
  let ?r = "\<lparr>br_start = 0x1000, br_end = 0x5000, br_path = []\<rparr>"
  have t: "va_to_file_offset (new_resolver\<lparr>rs_ranges := [?r]\<rparr>) (c + 0x555555554000) = Some c \<longleftrightarrow>
      unat c < unat (br_start ?r) + 0x1000" if "c = 0x1234 \<or> c = 0x3234" for c
    using that
    by (intro va_translation_first_page)
      (auto simp: bounded_range_def range_has_def PAGE_MASK_def LIBRARY_START_def)
  show ?thesis using t [of "0x1234"] t [of "0x3234"] by simp
qed

end
