(* ===== verification/Dwarf_Correct.thy ===== *)
theory Dwarf_Correct
  imports Dwarf_Lookup "HOL-Library.List_Lexorder" "HOL-Library.Char_ord" "HOL-Library.Product_Lexorder"
begin

text \<open>
  What the lookups of the analyzer return: the last type of a name, the typed symbol at an
  address, the nearest field of an offset; and where the name index of symbols fails.
\<close>

section \<open>Tables with an index\<close>

text \<open>\<open>m\<close> maps a key to the position of the last element that has it.\<close>

definition index_ok :: "('x \<Rightarrow> 'k) \<Rightarrow> 'x list \<Rightarrow> ('k \<rightharpoonup> nat) \<Rightarrow> bool" where
  "index_ok key xs m \<longleftrightarrow>
     (\<forall>k. map_option ((!) xs) (m k) = find (\<lambda>x. key x = k) (rev xs)) \<and>
     (\<forall>k i. m k = Some i \<longrightarrow> i < length xs)"

lemma index_ok_empty: "index_ok key [] Map.empty"
  by (simp add: index_ok_def)

lemma index_ok_snoc:
  assumes "index_ok key xs m"
  shows "index_ok key (xs @ [x]) (m(key x \<mapsto> length xs))"
proof -
  have "map_option ((!) (xs @ [x])) (m k) = find (\<lambda>y. key y = k) (rev xs)" for k
  proof -
    have e: "map_option ((!) xs) (m k) = find (\<lambda>y. key y = k) (rev xs)"
      and b: "\<forall>i. m k = Some i \<longrightarrow> i < length xs"
      using assms by (simp_all add: index_ok_def)
    have "map_option ((!) (xs @ [x])) (m k) = map_option ((!) xs) (m k)"
      using b by (cases "m k") (simp_all add: nth_append)
    with e show ?thesis by simp
  qed
  with assms show ?thesis
    by (auto simp: index_ok_def less_Suc_eq)
qed

lemma index_ok_find: "index_ok key xs m \<Longrightarrow> map_option ((!) xs) (m k) = find (\<lambda>x. key x = k) (rev xs)"
  by (simp add: index_ok_def)

lemma index_ok_all:
  "index_ok key xs (fold (\<lambda>i m. m(key (xs ! i) \<mapsto> i)) [0..<length xs] Map.empty)"
proof -
  have "index_ok key (take n xs) (fold (\<lambda>i m. m(key (xs ! i) \<mapsto> i)) [0..<n] Map.empty)" if "n \<le> length xs" for n
    using that
  proof (induction n)
    case 0
    then show ?case by (simp add: index_ok_empty)
  next
    case (Suc n)
    then show ?case
      using index_ok_snoc [of key "take n xs" _ "xs ! n"] by (simp add: take_Suc_conv_app_nth del: fun_upd_apply)
  qed
  from this [of "length xs"] show ?thesis by simp
qed

section \<open>The walk over the entries\<close>

fun preorder :: "'a die \<Rightarrow> 'a die list" where
  "preorder (Die tg off nm at cs) = Die tg off nm at cs # concat (map preorder cs)"

lemma process_die_preorder:
  "process_die dw d an = fold (process_one dw) (preorder d) an"
  "process_dies dw ds an = fold (process_one dw) (concat (map preorder ds)) an"
  by (induction dw d an and dw ds an rule: process_die_process_dies.induct) simp_all

text \<open>The entries of all units, up to the first unit without an entry.\<close>

fun unit_dies :: "'a die option list \<Rightarrow> 'a die list" where
  "unit_dies [] = []"
| "unit_dies (None # us) = []"
| "unit_dies (Some d # us) = concat (map preorder (die_children d)) @ unit_dies us"

lemma process_units_fold: "process_units dw us an = fold (process_one dw) (unit_dies us) an"
  by (induction us arbitrary: an rule: unit_dies.induct) (simp_all add: process_die_preorder)

text \<open>C29: Every entry below a unit is processed exactly once, parents before children.\<close>

theorem parse_dwarf_info_preorder:
  "parse_dwarf_info dw an = (if has_dwarf dw then fold (process_one dw) (unit_dies (units dw)) an else an)"
  by (simp add: parse_dwarf_info_def process_units_fold)

section \<open>Types\<close>

definition types_ok :: "analyzer \<Rightarrow> bool" where
  "types_ok an \<longleftrightarrow>
     index_ok ti_name (types an) (type_name_index an) \<and>
     index_ok ti_die_offset (types an) (type_offset_index an)"

definition types_part :: "analyzer \<Rightarrow> type_info list \<times> (string \<rightharpoonup> nat) \<times> (u64 \<rightharpoonup> nat)" where
  "types_part an = (types an, type_name_index an, type_offset_index an)"

lemma types_ok_part: "types_part an = types_part an' \<Longrightarrow> types_ok an = types_ok an'"
  by (simp add: types_part_def types_ok_def)

lemma add_type_ok: "types_ok an \<Longrightarrow> types_ok (add_type info an)"
  by (simp add: types_ok_def add_type_def Let_def index_ok_snoc)

lemma types_part_frames:
  "types_part (add_symbol s an) = types_part an"
  "types_part (add_subprogram p an) = types_part an"
  "types_part (parse_symbol sec i an) = types_part an"
  "types_part (process_subprogram_die dw d an) = types_part an"
  "types_part (process_variable_die dw d an) = types_part an"
  by (auto simp: types_part_def add_symbol_def add_subprogram_def parse_symbol_def
      process_subprogram_die_def process_variable_die_def Let_def split: option.split prod.split)

lemma process_one_types: "types_ok an \<Longrightarrow> types_ok (process_one dw d an)"
proof -
  assume ok: "types_ok an"
  have "types_ok (process_type_die dw d an)"
    using ok by (auto simp: process_type_die_def Let_def add_type_ok split: option.split)
  moreover have "types_ok (process_subprogram_die dw d an)" "types_ok (process_variable_die dw d an)"
    using ok types_ok_part types_part_frames(4,5) by metis+
  ultimately show ?thesis using ok by (simp add: process_one_def)
qed

lemma fold_process_types: "types_ok an \<Longrightarrow> types_ok (fold (process_one dw) ds an)"
  by (induction ds arbitrary: an) (simp_all add: process_one_types)

lemma parse_sections_types: "parse_sections ss an = Some an' \<Longrightarrow> types_part an' = types_part an"
proof (induction ss arbitrary: an)
  case Nil
  then show ?case by simp
next
  case (Cons s ss)
  have f: "types_part (fold (parse_symbol s) is a) = types_part a" for "is" a
    by (induction "is" arbitrary: a) (simp_all add: types_part_frames)
  obtain b where b: "parse_section s an = Some b" "parse_sections ss b = Some an'"
    using Cons.prems by (auto simp: bind_eq_Some_conv)
  have "types_part b = types_part an"
    using b(1) f by (auto simp: parse_section_def split: if_splits)
  with Cons.IH [OF b(2)] show ?case by simp
qed

lemma load_tables_types:
  assumes "load_tables srt ef dw an = Some (rc, an')" and "types_ok an"
  shows "types_ok an'"
proof -
  obtain rc0 b where t: "parse_symbol_table srt ef an = Some (rc0, b)"
    using assms(1) by (auto simp: load_tables_def split: option.splits)
  then have "types_part b = types_part an"
    using parse_sections_types by (auto simp: parse_symbol_table_def types_part_def Let_def split: if_splits)
  then have "types_ok b" using assms(2) types_ok_part by blast
  then have "types_ok (parse_dwarf_info dw b)"
    by (simp add: parse_dwarf_info_def process_units_fold fold_process_types)
  then have "types_ok (parse_dwarf_frames dw (parse_dwarf_info dw b))"
    by (auto simp: parse_dwarf_frames_def types_ok_def split: option.split)
  then show ?thesis
    using assms(1) t by (auto simp: load_tables_def Let_def types_ok_def)
qed

lemma types_ok_lookup:
  "types_ok an \<Longrightarrow> find_type_by_name an name = find (\<lambda>t. ti_name t = name) (rev (types an)) \<and>
     find_type_by_offset an off = find (\<lambda>t. ti_die_offset t = off) (rev (types an))"
  by (simp add: types_ok_def find_type_by_name_def find_type_by_offset_def index_ok_find)

lemma load_binary_types:
  assumes "load_binary srt file path empty_analyzer = Some (rc, an)"
  shows "types_ok an"
proof -
  have "types_ok (empty_analyzer\<lparr>binary_path := path\<rparr>)"
    by (simp add: types_ok_def empty_analyzer_def index_ok_empty)
  moreover have "load_binary srt file path empty_analyzer =
      (case file path of
         None \<Rightarrow> Some (- 1, empty_analyzer\<lparr>binary_path := path\<rparr>)
       | Some (ef, dw) \<Rightarrow> load_tables srt ef dw (empty_analyzer\<lparr>binary_path := path\<rparr>))"
    by (simp add: load_binary_def Let_def)
  ultimately show ?thesis
    using assms by (auto split: option.splits elim: load_tables_types [OF sym])
qed

text \<open>
  After loading, a lookup by name or by offset finds the last type that was read with that name or
  offset; in particular what it finds has the name, and it finds something whenever there is one.
\<close>

theorem type_lookup_finds_last:
  assumes "load_binary srt file path empty_analyzer = Some (rc, an)"
  shows "find_type_by_name an name = find (\<lambda>t. ti_name t = name) (rev (types an)) \<and>
         find_type_by_offset an off = find (\<lambda>t. ti_die_offset t = off) (rev (types an))"
proof -
  have "types_ok an" by (rule load_binary_types [OF assms])
  then show ?thesis by (rule types_ok_lookup)
qed

section \<open>Fields\<close>

definition field_covers :: "field_info \<Rightarrow> u64 \<Rightarrow> bool" where
  "field_covers f off \<longleftrightarrow> 0 < fi_byte_size f \<and> fi_byte_offset f \<le> off \<and> off < fi_byte_offset f + fi_byte_size f"

definition field_hits :: "field_info \<Rightarrow> u64 \<Rightarrow> bool" where
  "field_hits f off \<longleftrightarrow> off = fi_byte_offset f \<or> field_covers f off"

definition field_fits :: "field_info \<Rightarrow> bool" where
  "field_fits f \<longleftrightarrow> unat (fi_byte_offset f) + unat (fi_byte_size f) < 2 ^ 64"

text \<open>What is known of the pair \<open>(best, best_distance)\<close> after the fields \<open>fs\<close>.\<close>

definition best_inv :: "u64 \<Rightarrow> field_info set \<Rightarrow> field_info option \<times> u64 \<Rightarrow> bool" where
  "best_inv off fs acc \<longleftrightarrow>
     (case acc of
        (None, d) \<Rightarrow> d = - 1 \<and> (\<forall>f \<in> fs. \<not> field_hits f off)
      | (Some b, d) \<Rightarrow>
          b \<in> fs \<and> field_hits b off \<and> d = off - fi_byte_offset b \<and>
          (\<forall>f \<in> fs. field_covers f off \<longrightarrow> d \<le> off - fi_byte_offset f) \<and>
          (\<forall>f \<in> fs. fi_byte_offset f = off \<and> fi_byte_offset b = off \<longrightarrow> fi_byte_size f \<le> fi_byte_size b))"

lemma field_fits_covers: "field_fits f \<Longrightarrow> 0 < fi_byte_size f \<Longrightarrow> field_covers f (fi_byte_offset f)"
  by (simp add: field_covers_def field_fits_def word_less_nat_alt unat_add_lem [THEN iffD1])

lemma field_covers_distance: "field_covers f off \<Longrightarrow> off - fi_byte_offset f < - 1"
proof -
  assume c: "field_covers f off"
  then have "off - fi_byte_offset f \<le> off" by (simp add: field_covers_def word_sub_le)
  moreover have "off < - 1"
    using c by (simp add: field_covers_def) (metis order_less_le_trans word_n1_ge)
  ultimately show ?thesis by (rule order_le_less_trans)
qed

lemma best_field_step_inv:
  assumes inv: "best_inv off fs acc" and fit: "\<forall>g \<in> insert f fs. field_fits g"
  shows "best_inv off (insert f fs) (best_field_step off f acc)"
proof -
  obtain best d where acc: "acc = (best, d)" by fastforce
  have zero: "fi_byte_size g = 0" if "g \<in> fs" "fi_byte_offset g = off" "best = Some b" "off \<noteq> fi_byte_offset b" for g b
  proof (rule ccontr)
    assume "fi_byte_size g \<noteq> 0"
    then have "field_covers g off"
      using field_fits_covers [of g] fit that(1,2) by (simp add: word_gt_0)
    then have "d \<le> off - fi_byte_offset g" using inv that acc by (auto simp: best_inv_def)
    then have "off - fi_byte_offset b = 0" using inv that acc by (auto simp: best_inv_def)
    then show False using that(4) by simp
  qed
  show ?thesis
  proof (cases best)
    case None
    with inv acc have d: "d = - 1" "\<forall>g \<in> fs. \<not> field_hits g off" by (simp_all add: best_inv_def)
    then show ?thesis
      using None acc field_covers_distance [of f off]
      by (auto simp: best_field_step_def best_inv_def field_hits_def field_covers_def)
  next
    case (Some b)
    then have "best_inv off fs (Some b, d)" using inv acc by simp
    then have b: "b \<in> fs" "field_hits b off" "d = off - fi_byte_offset b"
      "\<forall>g \<in> fs. field_covers g off \<longrightarrow> d \<le> off - fi_byte_offset g"
      "\<forall>g \<in> fs. fi_byte_offset g = off \<and> fi_byte_offset b = off \<longrightarrow> fi_byte_size g \<le> fi_byte_size b"
      unfolding best_inv_def by auto
    show ?thesis
    proof (cases "off = fi_byte_offset f \<and> fi_byte_size b < fi_byte_size f")
      case True
      have "fi_byte_size g \<le> fi_byte_size f" if "g \<in> fs" "fi_byte_offset g = off" for g
        using zero [OF that Some] b(5) that True
        by (cases "off = fi_byte_offset b") (auto intro: order_trans less_imp_le)
      then show ?thesis
        using True Some acc by (auto simp: best_field_step_def best_inv_def field_hits_def)
    next
      case keep: False
      show ?thesis
      proof (cases "field_covers f off \<and> off - fi_byte_offset f < d")
        case True
        have "fi_byte_size g \<le> fi_byte_size f" if "g \<in> fs" "fi_byte_offset g = off" "fi_byte_offset f = off" for g
        proof -
          have "off \<noteq> fi_byte_offset b" using True b(3) by auto
          then show ?thesis using zero [OF that(1,2) Some] by simp
        qed
        then show ?thesis
          using True keep Some acc b
          by (auto simp: best_field_step_def best_inv_def field_hits_def field_covers_def intro: order_trans less_imp_le)
      next
        case False
        then show ?thesis
          using keep Some acc b
          by (auto simp: best_field_step_def best_inv_def field_covers_def not_less)
      qed
    qed
  qed
qed

lemma best_field_fold:
  "best_inv off A acc \<Longrightarrow> \<forall>g \<in> A \<union> set fs. field_fits g \<Longrightarrow>
   best_inv off (A \<union> set fs) (fold (best_field_step off) fs acc)"
proof (induction fs arbitrary: A acc)
  case Nil
  then show ?case by simp
next
  case (Cons f fs)
  have "best_inv off (insert f A) (best_field_step off f acc)"
    using Cons.prems by (intro best_field_step_inv) auto
  from Cons.IH [OF this] Cons.prems(2) show ?case by simp
qed

lemma best_field_inv:
  assumes "\<forall>f \<in> set fs. field_fits f"
  shows "case best_field fs off of
      None \<Rightarrow> \<forall>f \<in> set fs. \<not> field_hits f off
    | Some b \<Rightarrow> b \<in> set fs \<and> field_hits b off \<and>
        (\<forall>f \<in> set fs. field_covers f off \<longrightarrow> off - fi_byte_offset b \<le> off - fi_byte_offset f) \<and>
        (\<forall>f \<in> set fs. fi_byte_offset f = off \<and> fi_byte_offset b = off \<longrightarrow> fi_byte_size f \<le> fi_byte_size b)"
proof -
  have "best_inv off {} (None, - 1)" by (simp add: best_inv_def)
  from best_field_fold [OF this, of fs] assms
  have "best_inv off (set fs) (fold (best_field_step off) fs (None, - 1))" by simp
  then show ?thesis
    by (cases "fold (best_field_step off) fs (None, - 1)") (auto simp: best_field_def best_inv_def split: option.splits)
qed

text \<open>
  C20: Resolving an offset of a named type: a field of the last type of that name that starts at the
  offset or contains it; no other field that contains the offset starts nearer to it, and of the
  fields that start at it the result is a largest.
\<close>

theorem resolve_field_nearest:
  assumes "load_binary srt file path empty_analyzer = Some (rc, an)"
    and "find (\<lambda>t. ti_name t = name) (rev (types an)) = Some t"
    and "find (\<lambda>u. ti_die_offset u = ti_die_offset t) (rev (types an)) = Some t"
    and "\<forall>f \<in> set (ti_fields t). field_fits f"
  shows "case resolve_field_at_offset an name off of
      None \<Rightarrow> \<forall>f \<in> set (ti_fields t). \<not> field_hits f off
    | Some b \<Rightarrow> b \<in> set (ti_fields t) \<and> field_hits b off \<and>
        (\<forall>f \<in> set (ti_fields t). field_covers f off \<longrightarrow> off - fi_byte_offset b \<le> off - fi_byte_offset f) \<and>
        (\<forall>f \<in> set (ti_fields t). fi_byte_offset f = off \<and> fi_byte_offset b = off \<longrightarrow> fi_byte_size f \<le> fi_byte_size b)"
proof -
  have ok: "types_ok an" by (rule load_binary_types [OF assms(1)])
  have "find_type_by_name an name = Some t" "find_type_by_offset an (ti_die_offset t) = Some t"
    using types_ok_lookup [OF ok] assms(2,3) by simp_all
  then have "resolve_field_at_offset an name off = best_field (ti_fields t) off"
    by (simp add: resolve_field_at_offset_def resolve_field_by_die_def)
  then show ?thesis using best_field_inv [OF assms(4), of off] by simp
qed

section \<open>Symbols\<close>

lemma symbol_less_sorter: "sorts_by symbol_less srt \<Longrightarrow> sorter sy_address symbol_less srt"
  by unfold_locales (auto simp: symbol_less_def)

interpretation symbols: sorter sy_address symbol_less
  "sort_key (\<lambda>s. (sy_address s, sy_type_name s \<noteq> []))"
proof
  fix a b :: symbol_info
  show "sy_address a < sy_address b \<Longrightarrow> symbol_less a b" by (simp add: symbol_less_def less_imp_neq)
next
  let ?key = "\<lambda>s. (sy_address s, sy_type_name s \<noteq> [])"
  have "sorted_wrt (\<lambda>a b. \<not> symbol_less b a) (sort_key ?key xs)" for xs
  proof -
    have "sorted_wrt (\<lambda>a b. ?key a \<le> ?key b) (sort_key ?key xs)"
      using sorted_sort_key [of ?key xs] unfolding sorted_map .
    then show ?thesis
      by (rule sorted_wrt_mono_rel [rotated]) (auto simp: symbol_less_def split: if_splits)
  qed
  then show "sorts_by symbol_less (sort_key ?key)"
    by (simp add: sorts_by_def)
qed

text \<open>
  The reference: the last symbol at the address; if there is none, the last symbol below it,
  provided that its range contains the address.
\<close>

definition symbol_spec :: "symbol_info list \<Rightarrow> u64 \<Rightarrow> symbol_info option" where
  "symbol_spec syms a =
     (case find (\<lambda>s. sy_address s = a) (rev syms) of
        Some s \<Rightarrow> Some s
      | None \<Rightarrow>
          (case find (\<lambda>s. sy_address s \<le> a) (rev syms) of
             None \<Rightarrow> None
           | Some s \<Rightarrow> if a < sy_address s + sy_size s then Some s else None))"

definition symbols_ok :: "analyzer \<Rightarrow> bool" where
  "symbols_ok an \<longleftrightarrow>
     sorted (map sy_address (symbols an)) \<and> index_ok sy_address (symbols an) (symbol_addr_index an)"

lemma find_rev_takeWhile:
  assumes "sorted (map key xs)"
  shows "find (\<lambda>x. key x \<le> v) (rev xs) =
    (let n = length (takeWhile (\<lambda>x. key x \<le> v) xs) in if n = 0 then None else Some (xs ! (n - 1)))"
  using assms
proof (induction xs rule: rev_induct)
  case Nil
  then show ?case by simp
next
  case (snoc x xs)
  have s: "sorted (map key xs)" "\<And>y. y \<in> set xs \<Longrightarrow> key y \<le> key x"
    using snoc.prems by (auto simp: sorted_append)
  show ?case
  proof (cases "key x \<le> v")
    case True
    then have "\<forall>y \<in> set (xs @ [x]). key y \<le> v" using s(2) by (auto intro: order_trans)
    then have "takeWhile (\<lambda>x. key x \<le> v) (xs @ [x]) = xs @ [x]" by (simp only: takeWhile_eq_all_conv)
    with True show ?thesis by simp
  next
    case False
    let ?n = "length (takeWhile (\<lambda>x. key x \<le> v) xs)"
    have "takeWhile (\<lambda>x. key x \<le> v) (xs @ [x]) = takeWhile (\<lambda>x. key x \<le> v) xs"
      using False by (rule takeWhile_tail)
    moreover have "?n - 1 < length xs" if "?n \<noteq> 0"
      using that length_takeWhile_le [of "\<lambda>x. key x \<le> v" xs] by linarith
    ultimately show ?thesis
      using False snoc.IH [OF s(1)] by (cases "?n = 0") (simp_all add: Let_def nth_append)
  qed
qed

lemma find_symbol_by_addr_spec:
  assumes "symbols_ok an"
  shows "find_symbol_by_addr an a = symbol_spec (symbols an) a"
proof -
  have srtd: "sorted (map sy_address (symbols an))"
    and ix: "map_option ((!) (symbols an)) (symbol_addr_index an a) = find (\<lambda>s. sy_address s = a) (rev (symbols an))"
    using assms index_ok_find by (auto simp: symbols_ok_def)
  have le: "sy_address s \<le> a" if "find (\<lambda>s. sy_address s \<le> a) (rev (symbols an)) = Some s" for s
    using that by (auto simp: find_Some_iff)
  show ?thesis
  proof (cases "symbol_addr_index an a")
    case (Some i)
    then have "find (\<lambda>s. sy_address s = a) (rev (symbols an)) = Some (symbols an ! i)" using ix by simp
    moreover from this have "symbols an \<noteq> []" by auto
    ultimately show ?thesis
      using Some by (simp add: find_symbol_by_addr_def symbol_spec_def)
  next
    case None
    then have n: "find (\<lambda>s. sy_address s = a) (rev (symbols an)) = None" using ix by simp
    have ub: "upper_bound (\<lambda>s. a < sy_address s) (symbols an) =
        length (takeWhile (\<lambda>s. sy_address s \<le> a) (symbols an))"
      by (rule upper_bound_takeWhile [OF srtd])
    let ?n = "length (takeWhile (\<lambda>s. sy_address s \<le> a) (symbols an))"
    have find: "find (\<lambda>s. sy_address s \<le> a) (rev (symbols an)) = (if ?n = 0 then None else Some (symbols an ! (?n - 1)))"
      using find_rev_takeWhile [OF srtd, of a] unfolding Let_def .
    show ?thesis
    proof (cases "?n = 0")
      case True
      have "find_symbol_by_addr an a = None"
        by (simp only: find_symbol_by_addr_def None ub True Let_def option.case simp_thms if_True if_cancel)
      moreover have "symbol_spec (symbols an) a = None"
        by (simp only: symbol_spec_def n find True option.case simp_thms if_True)
      ultimately show ?thesis by simp
    next
      case False
      then have ne: "symbols an = [] \<longleftrightarrow> False" by auto
      have "sy_address (symbols an ! (?n - 1)) \<le> a"
        by (rule le) (simp only: find False if_False)
      moreover have "find_symbol_by_addr an a =
          (if sy_address (symbols an ! (?n - 1)) \<le> a \<and>
              a < sy_address (symbols an ! (?n - 1)) + sy_size (symbols an ! (?n - 1))
           then Some (symbols an ! (?n - 1)) else None)"
        by (simp only: find_symbol_by_addr_def None ub False ne Let_def option.case if_False)
      moreover have "symbol_spec (symbols an) a =
          (if a < sy_address (symbols an ! (?n - 1)) + sy_size (symbols an ! (?n - 1))
           then Some (symbols an ! (?n - 1)) else None)"
        by (simp only: symbol_spec_def n find False option.case if_False)
      ultimately show ?thesis by presburger
    qed
  qed
qed

lemma load_tables_symbols:
  assumes "load_tables srt ef dw an0 = Some (rc, an)" and "sorts_by symbol_less srt"
  shows "symbols_ok an \<and> sorted_wrt (\<lambda>a b. \<not> symbol_less b a) (symbols an)"
proof -
  have "\<exists>xs. symbols an = srt xs"
    using assms(1) by (auto simp: load_tables_def Let_def split: option.splits)
  then obtain xs where s: "symbols an = srt xs" by blast
  have i: "symbol_addr_index an = index_addresses (symbols an) Map.empty"
    using assms(1) by (auto simp: load_tables_def Let_def split: option.splits)
  have "sorted (map sy_address (symbols an))"
    unfolding s by (rule sorter.srt_keys [OF symbol_less_sorter [OF assms(2)]])
  moreover have "index_ok sy_address (symbols an) (symbol_addr_index an)"
    unfolding i index_addresses_def by (rule index_ok_all)
  moreover have "sorted_wrt (\<lambda>a b. \<not> symbol_less b a) (symbols an)"
    using assms(2) by (simp add: s sorts_by_def)
  ultimately show ?thesis by (simp add: symbols_ok_def)
qed

lemma load_binary_symbols:
  assumes "load_binary srt file path empty_analyzer = Some (rc, an)" and "sorts_by symbol_less srt"
  shows "symbols_ok an \<and> sorted_wrt (\<lambda>a b. \<not> symbol_less b a) (symbols an)"
proof (cases "file path")
  case None
  then have "symbols an = []" "symbol_addr_index an = Map.empty"
    using assms(1) by (auto simp: load_binary_def empty_analyzer_def)
  then show ?thesis by (simp add: symbols_ok_def index_ok_empty)
next
  case (Some p)
  then show ?thesis
    using assms load_tables_symbols by (fastforce simp: load_binary_def split: prod.splits)
qed

text \<open>
  C21: After loading, the lookup by address computes the reference, however \<open>std::sort\<close> orders
  equivalent symbols; and a symbol with a type wins over those without at the same address.
\<close>

theorem symbol_lookup_by_address:
  assumes "load_binary srt file path empty_analyzer = Some (rc, an)" and "sorts_by symbol_less srt"
  shows "find_symbol_by_addr an a = symbol_spec (symbols an) a \<and>
    (\<forall>s. find_symbol_by_addr an a = Some s \<longrightarrow>
       s \<in> set (symbols an) \<and> (sy_address s = a \<or> sy_address s \<le> a \<and> a < sy_address s + sy_size s)) \<and>
    ((\<exists>s \<in> set (symbols an). sy_address s = a \<and> sy_type_name s \<noteq> []) \<longrightarrow>
       (\<exists>s. find_symbol_by_addr an a = Some s \<and> sy_address s = a \<and> sy_type_name s \<noteq> []))"
proof -
  have ok: "symbols_ok an" "sorted_wrt (\<lambda>a b. \<not> symbol_less b a) (symbols an)"
    using load_binary_symbols [OF assms] by simp_all
  note spec = find_symbol_by_addr_spec [OF ok(1), of a]
  have mem: "s \<in> set (symbols an) \<and> P s" if "find P (rev (symbols an)) = Some s" for P s
    using find_mem [OF that] by simp
  have sound: "s \<in> set (symbols an) \<and> (sy_address s = a \<or> sy_address s \<le> a \<and> a < sy_address s + sy_size s)"
    if "symbol_spec (symbols an) a = Some s" for s
    using that mem by (fastforce simp: symbol_spec_def split: option.splits if_splits)
  have typed: "\<exists>s. symbol_spec (symbols an) a = Some s \<and> sy_address s = a \<and> sy_type_name s \<noteq> []"
    if t: "t \<in> set (symbols an)" "sy_address t = a" "sy_type_name t \<noteq> []" for t
  proof -
    obtain xs ys where sp: "symbols an = xs @ t # ys" using t(1) by (meson split_list)
    show ?thesis
    proof (cases "find (\<lambda>s. sy_address s = a) (rev ys)")
      case None
      then have "find (\<lambda>s. sy_address s = a) (rev (symbols an)) = Some t"
        using t(2) by (simp add: sp find_append_eq)
      with t show ?thesis by (simp add: symbol_spec_def)
    next
      case (Some u)
      then have "find (\<lambda>s. sy_address s = a) (rev (symbols an)) = Some u"
        by (simp add: sp find_append_eq)
      moreover have u: "u \<in> set ys" "sy_address u = a" using find_mem [OF Some] by simp_all
      moreover have "\<not> symbol_less u t" using ok(2) u(1) by (auto simp: sp sorted_wrt_append)
      ultimately show ?thesis using t u by (simp add: symbol_spec_def symbol_less_def)
    qed
  qed
  show ?thesis
  proof (intro conjI allI impI)
    show "find_symbol_by_addr an a = symbol_spec (symbols an) a" by (rule spec)
    fix s assume "find_symbol_by_addr an a = Some s"
    then have s: "symbol_spec (symbols an) a = Some s" by (simp only: spec)
    show "s \<in> set (symbols an)" "sy_address s = a \<or> sy_address s \<le> a \<and> a < sy_address s + sy_size s"
      using sound [OF s] by simp_all
  next
    assume "\<exists>s \<in> set (symbols an). sy_address s = a \<and> sy_type_name s \<noteq> []"
    then obtain t where t: "t \<in> set (symbols an)" "sy_address t = a" "sy_type_name t \<noteq> []" by blast
    show "\<exists>s. find_symbol_by_addr an a = Some s \<and> sy_address s = a \<and> sy_type_name s \<noteq> []"
      using typed [OF t] by (simp only: spec)
  qed
qed

section \<open>Examples of files\<close>

definition plain_symbol :: "string \<Rightarrow> u64 \<Rightarrow> u64 \<Rightarrow> symbol_info" where
  "plain_symbol name a n =
     \<lparr>sy_name = name, sy_address = a, sy_size = n, sy_type_name = [], sy_type_die_offset = 0,
      sy_binding = BIND_GLOBAL, sy_sym_type = SYM_FUNC\<rparr>"

text \<open>A file without debug information and with two global functions in its symbol table.\<close>

definition two_symbols :: "string \<times> u64 \<times> u64 \<Rightarrow> string \<times> u64 \<times> u64 \<Rightarrow> elf" where
  "two_symbols p q =
     \<lparr>has_shstrndx = True,
      sections = [\<lparr>sh_readable = True, sh_type = SHT_SYMTAB, sh_size = 48, sh_entsize = 24, sh_has_data = True,
        sh_sym = (\<lambda>i. let (name, a, n) = (if i = 0 then p else q) in
          Some \<lparr>st_value = a, st_name = of_nat (Suc i), st_size = n, st_bind = STB_GLOBAL, st_type = STT_FUNC\<rparr>),
        sh_strptr = (\<lambda>k. Some (fst (if k = 1 then p else q)))\<rparr>]\<rparr>"

definition no_dwarf :: "unit libdw" where
  "no_dwarf =
     \<lparr>has_dwarf = False, units = [], formudata = (\<lambda>_. None), formaddr = (\<lambda>_. None), formstring = (\<lambda>_. None),
      formref_die = (\<lambda>_. None), getlocation = (\<lambda>_. None), aggregate_size = (\<lambda>_. None),
      offdie = (\<lambda>_. None), cfi_frame = None,
      haspc = (\<lambda>_ _. False), has_srclines = (\<lambda>_. False), getsrc_die = (\<lambda>_ _. None)\<rparr>"

definition one_file :: "elf \<Rightarrow> 'a libdw \<Rightarrow> string \<Rightarrow> (elf \<times> 'a libdw) option" where
  "one_file ef dw = (\<lambda>_. Some (ef, dw))"

lemma sort_two:
  assumes "sorts_by symbol_less srt" and "sy_address s < sy_address t"
  shows "srt [s, t] = [s, t]" and "srt [t, s] = [s, t]"
proof -
  have "srt xs = [s, t]" if "mset xs = {#s, t#}" for xs
  proof -
    have m: "mset (srt xs) = {#s, t#}" using assms(1) that by (simp add: sorts_by_def)
    then have "length (srt xs) = 2" by (metis size_mset size_add_mset size_empty numeral_2_eq_2)
    then obtain a b where ab: "srt xs = [a, b]" by (auto simp: length_Suc_conv numeral_2_eq_2)
    have "sorted (map sy_address (srt xs))"
      by (rule sorter.srt_keys [OF symbol_less_sorter [OF assms(1)]])
    with ab have "sy_address a \<le> sy_address b" by simp
    moreover have "a = s \<and> b = t \<or> a = t \<and> b = s" using m ab by (auto simp: add_eq_conv_ex)
    ultimately show ?thesis using ab assms(2) by auto
  qed
  then show "srt [s, t] = [s, t]" "srt [t, s] = [s, t]" by simp_all
qed

lemma load_two_symbols:
  assumes "sorts_by symbol_less srt" and "a2 < a1" and "a2 \<noteq> 0" and "n1 \<noteq> []" and "n2 \<noteq> []" and "n1 \<noteq> n2"
  shows "\<exists>an. load_binary srt (one_file (two_symbols (n1, a1, z1) (n2, a2, z2)) no_dwarf) path empty_analyzer = Some (0, an) \<and>
    symbols an = [plain_symbol n2 a2 z2, plain_symbol n1 a1 z1] \<and>
    symbol_name_index an n1 = Some 0 \<and> symbol_name_index an n2 = Some 1"
proof -
  let ?s1 = "plain_symbol n1 a1 z1" and ?s2 = "plain_symbol n2 a2 z2"
  let ?e = "empty_analyzer\<lparr>binary_path := path\<rparr>"
  have nz: "a1 \<noteq> 0" using assms(2) by auto
  have less: "sy_address ?s2 < sy_address ?s1" using assms(2) by (simp add: plain_symbol_def)
  note st = sort_two [OF assms(1) less]
  have two: "[0..<2] = [0, 1 :: nat]" by (simp add: upt_rec)
  have "parse_sections (sections (two_symbols (n1, a1, z1) (n2, a2, z2))) ?e =
      Some (add_symbol ?s2 (add_symbol ?s1 ?e))"
    using assms nz by (simp add: two_symbols_def parse_section_def two parse_symbol_def plain_symbol_def)
  moreover have "symbols (add_symbol ?s2 (add_symbol ?s1 ?e)) = [?s1, ?s2]"
    "symbol_name_index (add_symbol ?s2 (add_symbol ?s1 ?e)) = [n1 \<mapsto> 0, n2 \<mapsto> 1]"
    by (simp_all add: add_symbol_def empty_analyzer_def plain_symbol_def)
  ultimately show ?thesis
    using st assms(6)
    by (simp add: load_binary_def one_file_def load_tables_def parse_symbol_table_def two_symbols_def parse_dwarf_info_def
        parse_dwarf_frames_def no_dwarf_def Let_def)
qed

text \<open>
  The index by name keeps positions from before the sorts: in a file whose two symbols are not in
  the order of their addresses, each name finds the other symbol.
\<close>

theorem symbol_names_are_swapped:
  assumes "sorts_by symbol_less srt" and "a2 < a1" and "a2 \<noteq> 0" and "n1 \<noteq> []" and "n2 \<noteq> []" and "n1 \<noteq> n2"
  shows "\<exists>an. load_binary srt (one_file (two_symbols (n1, a1, z1) (n2, a2, z2)) no_dwarf) path empty_analyzer = Some (0, an) \<and>
    map_option sy_name (find_symbol_by_name an n1) = Some n2 \<and>
    map_option sy_name (find_symbol_by_name an n2) = Some n1"
  using load_two_symbols [OF assms, of z1 z2 path]
  by (auto simp: find_symbol_by_name_def plain_symbol_def)

lemma sample_symbol_sorts: "sorts_by symbol_less (sort_key (\<lambda>s. (sy_address s, sy_type_name s \<noteq> [])))"
  by (rule symbols.srt)

theorem symbol_names_are_swapped_witness:
  "\<exists>an. load_binary (sort_key (\<lambda>s. (sy_address s, sy_type_name s \<noteq> [])))
      (one_file (two_symbols (''main'', 0x2000, 16) (''init'', 0x1000, 16)) no_dwarf) ''demo'' empty_analyzer = Some (0, an) \<and>
    map_option sy_name (find_symbol_by_name an ''main'') = Some ''init''"
  using symbol_names_are_swapped [OF sample_symbol_sorts, where ?a2.0 = "0x1000" and ?a1.0 = "0x2000"
      and ?n1.0 = "''main''" and ?n2.0 = "''init''" and ?z1.0 = 16 and ?z2.0 = 16 and path = "''demo''"] by auto

text \<open>
  A symbol that starts inside another and ends before the address hides the one around it.
\<close>

theorem inner_symbol_hides_outer:
  assumes "sorts_by symbol_less srt" and "a2 < a1" and "a2 \<noteq> 0" and "n1 \<noteq> []" and "n2 \<noteq> []" and "n1 \<noteq> n2"
    and "a1 + z1 \<le> a" and "a1 < a" and "a < a2 + z2"
  shows "\<exists>an. load_binary srt (one_file (two_symbols (n1, a1, z1) (n2, a2, z2)) no_dwarf) path empty_analyzer = Some (0, an) \<and>
    (\<exists>s \<in> set (symbols an). sy_address s \<le> a \<and> a < sy_address s + sy_size s) \<and>
    find_symbol_by_addr an a = None"
proof -
  obtain an where l: "load_binary srt (one_file (two_symbols (n1, a1, z1) (n2, a2, z2)) no_dwarf) path empty_analyzer = Some (0, an)"
    and s: "symbols an = [plain_symbol n2 a2 z2, plain_symbol n1 a1 z1]"
    using load_two_symbols [OF assms(1-6), of z1 z2 path] by auto
  have "symbols_ok an" using load_binary_symbols [OF l assms(1)] by simp
  moreover have "a2 \<noteq> a" "a1 \<noteq> a" "a2 \<le> a" "a1 \<le> a" "\<not> a < a1 + z1" using assms by auto
  ultimately have "find_symbol_by_addr an a = None"
    by (simp add: find_symbol_by_addr_spec s symbol_spec_def plain_symbol_def)
  moreover have "\<exists>s \<in> set (symbols an). sy_address s \<le> a \<and> a < sy_address s + sy_size s"
    using assms \<open>a2 \<le> a\<close> by (simp add: s plain_symbol_def)
  ultimately show ?thesis using l by blast
qed

theorem inner_symbol_hides_outer_witness:
  "\<exists>an. load_binary (sort_key (\<lambda>s. (sy_address s, sy_type_name s \<noteq> [])))
      (one_file (two_symbols (''label'', 0x1040, 0) (''main'', 0x1000, 0x100)) no_dwarf) ''demo'' empty_analyzer = Some (0, an) \<and>
    (\<exists>s \<in> set (symbols an). sy_address s \<le> 0x1080 \<and> 0x1080 < sy_address s + sy_size s) \<and>
     find_symbol_by_addr an 0x1080 = None"
  using inner_symbol_hides_outer [OF sample_symbol_sorts, where ?a2.0 = "0x1000" and ?a1.0 = "0x1040"
      and ?n1.0 = "''label''" and ?n2.0 = "''main''" and ?z1.0 = 0 and a = "0x1080" and ?z2.0 = "0x100" and path = "''demo''"]
  by auto

text \<open>A unit with one structure of two four-byte members; an attribute is its value.\<close>

definition sample_member :: "string \<Rightarrow> u64 \<Rightarrow> u64 die" where
  "sample_member name off =
     Die DW_TAG_member 0 (Some name) ((\<lambda>_. None)(DW_AT_data_member_location := Some off, DW_AT_byte_size := Some 4)) []"

definition sample_dwarf :: "u64 libdw" where
  "sample_dwarf =
     \<lparr>has_dwarf = True,
      units = [Some (Die (DW_TAG_other 17) 11 None (\<lambda>_. None)
        [Die DW_TAG_structure_type 48 (Some ''pair'') ((\<lambda>_. None)(DW_AT_byte_size := Some 8))
           [sample_member ''a'' 0, sample_member ''b'' 4]])],
      formudata = Some, formaddr = (\<lambda>_. None), formstring = (\<lambda>_. None),
      formref_die = (\<lambda>_. None), getlocation = (\<lambda>_. None), aggregate_size = (\<lambda>_. None),
      offdie = (\<lambda>_. None), cfi_frame = None,
      haspc = (\<lambda>_ _. False), has_srclines = (\<lambda>_. False), getsrc_die = (\<lambda>_ _. None)\<rparr>"

definition pair_field :: "string \<Rightarrow> u64 \<Rightarrow> field_info" where
  "pair_field name off =
     zero_field\<lparr>fi_name := name, fi_full_qualified_name := ''pair::'' @ name, fi_byte_offset := off,
                fi_bit_offset := off * 8, fi_byte_size := 4\<rparr>"

definition pair_type :: type_info where
  "pair_type =
     \<lparr>ti_die_offset = 48, ti_name = ''pair'', ti_linkage_name = [], ti_byte_size = 8, ti_alignment = 0,
      ti_tag = TAG_STRUCT, ti_fields = [pair_field ''a'' 0, pair_field ''b'' 4], ti_source_file = [], ti_source_line = 0\<rparr>"

lemma load_sample:
  "\<exists>an. load_binary id (one_file \<lparr>has_shstrndx = True, sections = []\<rparr> sample_dwarf) path empty_analyzer = Some (0, an) \<and>
     types an = [pair_type]"
proof -
  have member: "process_member_die sample_dwarf (sample_member name off) t =
      t\<lparr>ti_fields := ti_fields t @ [zero_field\<lparr>fi_name := name, fi_full_qualified_name := ti_name t @ ''::'' @ name,
          fi_byte_offset := off, fi_bit_offset := off * 8, fi_byte_size := 4\<rparr>]\<rparr>" for name off t
    by (simp add: process_member_die_def sample_member_def attr_val_def sample_dwarf_def member_type_def zero_field_def)
  have one: "types (process_dies sample_dwarf
      [Die DW_TAG_structure_type 48 (Some ''pair'') ((\<lambda>_. None)(DW_AT_byte_size := Some 8))
         [sample_member ''a'' 0, sample_member ''b'' 4]] an) = types an @ [pair_type]" for an
    by (simp add: process_one_def process_type_die_def Let_def member attr_val_def add_type_def pair_type_def
        pair_field_def) (simp add: sample_member_def sample_dwarf_def process_one_def)
  show ?thesis
    using one by (auto simp: load_binary_def one_file_def load_tables_def parse_symbol_table_def parse_dwarf_info_def sample_dwarf_def
        parse_dwarf_frames_def Let_def empty_analyzer_def)
qed

theorem type_lookup_finds_last_witness:
  "\<exists>an. load_binary id (one_file \<lparr>has_shstrndx = True, sections = []\<rparr> sample_dwarf) ''demo'' empty_analyzer = Some (0, an) \<and>
     find_type_by_name an ''pair'' = Some pair_type"
proof -
  obtain an where l: "load_binary id (one_file \<lparr>has_shstrndx = True, sections = []\<rparr> sample_dwarf) ''demo'' empty_analyzer = Some (0, an)"
    and t: "types an = [pair_type]"
    using load_sample by blast
  have "find_type_by_name an ''pair'' = Some pair_type"
    using type_lookup_finds_last [OF l, of "''pair''" 0] by (simp add: t pair_type_def)
  with l show ?thesis by blast
qed

theorem resolve_field_nearest_witness:
  "\<exists>an b. load_binary id (one_file \<lparr>has_shstrndx = True, sections = []\<rparr> sample_dwarf) ''demo'' empty_analyzer = Some (0, an) \<and>
     resolve_field_at_offset an ''pair'' 5 = Some b \<and> fi_name b = ''b''"
proof -
  obtain an where l: "load_binary id (one_file \<lparr>has_shstrndx = True, sections = []\<rparr> sample_dwarf) ''demo'' empty_analyzer = Some (0, an)"
    and t: "types an = [pair_type]"
    using load_sample by blast
  have "\<forall>f \<in> set (ti_fields pair_type). field_fits f"
    by (simp add: pair_type_def pair_field_def zero_field_def field_fits_def)
  from resolve_field_nearest [OF l, of "''pair''" pair_type 5] this
  show ?thesis
    using l by (auto simp: t pair_type_def pair_field_def zero_field_def field_hits_def field_covers_def
        split: option.splits)
qed

theorem symbol_lookup_by_address_witness:
  "\<exists>an. load_binary (sort_key (\<lambda>s. (sy_address s, sy_type_name s \<noteq> [])))
      (one_file (two_symbols (''main'', 0x2000, 16) (''init'', 0x1000, 16)) no_dwarf) ''demo'' empty_analyzer = Some (0, an) \<and>
    map_option sy_name (find_symbol_by_addr an 0x1008) = Some ''init''"
proof -
  let ?srt = "sort_key (\<lambda>s. (sy_address s, sy_type_name s \<noteq> []))"
  obtain an where l: "load_binary ?srt (one_file (two_symbols (''main'', 0x2000, 16) (''init'', 0x1000, 16)) no_dwarf) ''demo'' empty_analyzer = Some (0, an)"
    and s: "symbols an = [plain_symbol ''init'' 0x1000 16, plain_symbol ''main'' 0x2000 16]"
    using load_two_symbols [OF sample_symbol_sorts, where ?a2.0 = "0x1000" and ?a1.0 = "0x2000"
      and ?n1.0 = "''main''" and ?n2.0 = "''init''" and ?z1.0 = 16 and ?z2.0 = 16 and path = "''demo''"] by auto
  have "find_symbol_by_addr an 0x1008 = symbol_spec (symbols an) 0x1008"
    using symbol_lookup_by_address [OF l sample_symbol_sorts, of "0x1008"] by simp
  with l show ?thesis by (intro exI [of _ an]) (simp add: s symbol_spec_def plain_symbol_def)
qed

section \<open>Pointer types at a program counter\<close>

interpretation strings: sorter "\<lambda>s :: string. s" "(<)" "sort"
  by unfold_locales (auto simp: sorts_by_def not_less)

text \<open>
  The candidate types at a program counter are, without repetition, the pointer targets of the
  first subprogram whose range contains it.
\<close>

theorem pointer_types_at_pc:
  assumes "sorts_by (<) srt"
  shows "distinct (find_pointer_target_types_at_pc srt an pc) \<and>
    set (find_pointer_target_types_at_pc srt an pc) =
      (case find (in_subprogram pc) (subprograms an) of None \<Rightarrow> {} | Some sp \<Rightarrow> set (pointer_targets sp))"
proof -
  have s: "sorter (\<lambda>s :: string. s) (<) srt"
    using assms by unfold_locales auto
  define raw where "raw = (case find (in_subprogram pc) (subprograms an) of None \<Rightarrow> [] | Some sp \<Rightarrow> pointer_targets sp)"
  have f: "find_pointer_target_types_at_pc srt an pc = unique (srt raw)"
    by (simp add: find_pointer_target_types_at_pc_def raw_def)
  have "distinct (unique (srt raw))"
    using sorter.srt_keys [OF s, of raw] by (intro sorted_unique_distinct) simp
  moreover have "set (unique (srt raw)) = set raw"
    using sorter.set_srt [OF s, of raw] by (simp add: unique_eq_remdups_adj)
  ultimately show ?thesis
    unfolding f by (simp add: raw_def split: option.split)
qed

definition sample_subprogram :: subprogram where
  "sample_subprogram =
     \<lparr>sp_name = ''f'', sp_linkage_name = [], sp_low_pc = 0x1000, sp_high_pc = 0x20, sp_high_is_offset = True,
      sp_die_offset = 0, sp_frame_base = [], sp_source_file = [], sp_source_line = 0,
      sp_locals = [\<lparr>lv_name = ''p'', lv_type_name = [], lv_type_die_offset = 0, lv_is_pointer = True,
                    lv_target_offset = 0, lv_target_name = ''node''\<rparr>,
                   \<lparr>lv_name = ''q'', lv_type_name = [], lv_type_die_offset = 0, lv_is_pointer = True,
                    lv_target_offset = 0, lv_target_name = ''node''\<rparr>]\<rparr>"

theorem pointer_types_at_pc_witness:
  "set (find_pointer_target_types_at_pc sort (empty_analyzer\<lparr>subprograms := [sample_subprogram]\<rparr>) 0x1010) = {''node''}"
  using pointer_types_at_pc [of sort "empty_analyzer\<lparr>subprograms := [sample_subprogram]\<rparr>" "0x1010"] strings.srt
  by (simp add: in_subprogram_def sp_end_def sample_subprogram_def pointer_targets_def)

end
