(* ===== verification/Type_Inference_Correct.thy ===== *)
theory Type_Inference_Correct
  imports Type_Inference Va_Translation Dwarf_Correct
begin

text \<open>
  The index of sizes against a scan of all types; what the inference says of a block without a stack;
  its counts of elements; that it ends and changes nothing but the cached offset and the cached files.
\<close>

section \<open>The index of sizes\<close>

definition sized :: "u64 \<Rightarrow> type_info \<Rightarrow> bool" where
  "sized sz t \<longleftrightarrow> ti_byte_size t = sz \<and> 0 < sz \<and> ti_fields t \<noteq> []"

lemma index_sizes:
  "fold (index_size ts) [0..<n] Map.empty s =
     (case filter (\<lambda>i. sized s (ts ! i)) [0..<n] of [] \<Rightarrow> None | i # idx \<Rightarrow> Some (i # idx))"
proof (induction n arbitrary: s)
  case 0
  then show ?case by simp
next
  case (Suc n)
  show ?case
    using Suc [of s] Suc [of "ti_byte_size (ts ! n)"]
    by (auto simp: index_size_def sized_def Let_def split: list.splits)
qed

lemma filter_nth: "map (\<lambda>i. f (xs ! i)) (filter (\<lambda>i. P (xs ! i)) [0..<length xs]) = map f (filter P xs)"
proof -
  have "filter P xs = filter P (map ((!) xs) [0..<length xs])" by (simp only: map_nth)
  also have "\<dots> = map ((!) xs) (filter (\<lambda>i. P (xs ! i)) [0..<length xs])" by (simp only: filter_map comp_def)
  finally show ?thesis by simp
qed

lemma size_candidates:
  "get_size_candidates (build_size_index rs) sz = map ti_name (filter (sized sz) (types (rs_analyzer rs)))"
proof -
  let ?ts = "types (rs_analyzer rs)"
  have "get_size_candidates (build_size_index rs) sz =
      map (\<lambda>i. ti_name (?ts ! i)) (filter (\<lambda>i. sized sz (?ts ! i)) [0..<length ?ts])"
    by (simp add: get_size_candidates_def build_size_index_def index_sizes Let_def split: list.splits)
  then show ?thesis by (simp only: filter_nth)
qed

text \<open>
  C19: The candidates for a size are all types with members that have the size, in the order in which they
  were read.
\<close>

theorem size_index_exact:
  "get_size_candidates (build_size_index rs) sz = map ti_name (filter (sized sz) (types (rs_analyzer rs)))"
  by (rule size_candidates)

section \<open>Arrays\<close>

text \<open>The types of which a block of the size can be an array.\<close>

definition element_type :: "u64 \<Rightarrow> type_info \<Rightarrow> bool" where
  "element_type sz t \<longleftrightarrow> ti_fields t \<noteq> [] \<and> 8 \<le> ti_byte_size t \<and> sz mod ti_byte_size t = 0 \<and>
     2 \<le> sz div ti_byte_size t \<and> sz div ti_byte_size t \<le> 100000"

lemma array_match_Cons:
  "array_match sz (t # ts) r =
     (if \<not> element_type sz t then array_match sz ts r
      else if in_type_name r = [] then
        array_match sz ts (r\<lparr>in_type_name := ti_name t, in_alloc_count := sz div ti_byte_size t,
          in_method := ''array_size_match'', in_confidence := 35\<rparr>)
      else r\<lparr>in_type_name := in_type_name r @ '' (ambiguous)'', in_confidence := 15\<rparr>)"
proof -
  have "element_type sz t \<longleftrightarrow>
      \<not> (ti_fields t = [] \<or> ti_byte_size t < 8 \<or> sz mod ti_byte_size t \<noteq> 0) \<and>
      \<not> (sz div ti_byte_size t < 2 \<or> sz div ti_byte_size t > 100000)"
    unfolding element_type_def not_less [symmetric] by blast
  then show ?thesis unfolding array_match.simps(2) Let_def by (simp only:) auto
qed

declare array_match.simps(2) [simp del]

lemma array_match_filter: "array_match sz ts r = array_match sz (filter (element_type sz) ts) r"
  by (induction ts arbitrary: r) (simp_all add: array_match_Cons)

lemma array_match_named:
  "\<forall>t \<in> set ts. element_type sz t \<Longrightarrow> in_type_name r \<noteq> [] \<Longrightarrow>
   array_match sz ts r =
     (if ts = [] then r else r\<lparr>in_type_name := in_type_name r @ '' (ambiguous)'', in_confidence := 15\<rparr>)"
  by (cases ts) (simp_all add: array_match_Cons)

text \<open>The types from the first named one on.\<close>

definition from_named :: "type_info list \<Rightarrow> type_info list" where
  "from_named = dropWhile (\<lambda>t. ti_name t = [])"

lemma from_named_simps [simp]:
  "from_named [] = []"
  "from_named (t # ts) = (if ti_name t = [] then from_named ts else t # ts)"
  by (simp_all add: from_named_def)

lemma from_named_name: "from_named ts = t # us \<Longrightarrow> ti_name t \<noteq> []"
  by (induction ts) (auto split: if_splits)

definition array_result :: "u64 \<Rightarrow> type_info \<Rightarrow> type_info list \<Rightarrow> inference \<Rightarrow> inference" where
  "array_result sz t us r =
     r\<lparr>in_type_name := (if us = [] then ti_name t else ti_name t @ '' (ambiguous)''),
       in_alloc_count := sz div ti_byte_size t, in_method := ''array_size_match'',
       in_confidence := (if us = [] then 35 else 15)\<rparr>"

lemma array_match_result:
  "\<forall>t \<in> set ts. element_type sz t \<Longrightarrow> in_type_name r = [] \<Longrightarrow>
   (case from_named ts of
      [] \<Rightarrow> in_type_name (array_match sz ts r) = []
    | t # us \<Rightarrow> array_match sz ts r = array_result sz t us r)"
proof (induction ts arbitrary: r)
  case Nil
  then show ?case by simp
next
  case (Cons t ts)
  let ?r = "r\<lparr>in_type_name := ti_name t, in_alloc_count := sz div ti_byte_size t,
      in_method := ''array_size_match'', in_confidence := 35\<rparr>"
  have m: "array_match sz (t # ts) r = array_match sz ts ?r"
    using Cons.prems by (simp add: array_match_Cons)
  have el: "\<forall>t \<in> set ts. element_type sz t" using Cons.prems by simp
  show ?case
  proof (cases "ti_name t = []")
    case True
    have "array_result sz u us ?r = array_result sz u us r" for u us by (simp add: array_result_def)
    then show ?thesis using Cons.IH [OF el, of ?r] True by (simp add: m cong: list.case_cong)
  next
    case False
    then show ?thesis by (simp add: m array_match_named [OF el] array_result_def)
  qed
qed

section \<open>A block without a stack\<close>

definition size_result :: "u64 \<Rightarrow> type_info list \<Rightarrow> inference \<Rightarrow> bool" where
  "size_result sz ts r =
     (case filter (sized sz) ts of
        t # us \<Rightarrow> in_type_name r = ti_name t \<and> in_alloc_count r = 1 \<and>
          in_method r = (if us = [] then ''size_match'' else ''size_ambiguous'') \<and>
          in_confidence r = (if us = [] then 60 else 20)
      | [] \<Rightarrow>
          (case from_named (filter (element_type sz) ts) of
             [] \<Rightarrow> in_type_name r = [] \<and> in_alloc_count r = 1 \<and> in_method r = ''unknown'' \<and> in_confidence r = 0
           | t # us \<Rightarrow> r = array_result sz t us no_inference))"

lemma infer_from_size_result:
  assumes c: "get_size_candidates rs sz = map ti_name (filter (sized sz) (types (rs_analyzer rs)))"
  shows "size_result sz (types (rs_analyzer rs)) (infer_from_size rs sz (no_inference\<lparr>in_alloc_count := 1\<rparr>))"
proof (cases "filter (sized sz) (types (rs_analyzer rs))")
  case (Cons t us)
  then show ?thesis by (cases us) (simp_all add: size_result_def infer_from_size_def c)
next
  case Nil
  let ?ts = "filter (element_type sz) (types (rs_analyzer rs))"
  have a: "try_array_size_match rs sz = array_match sz ?ts no_inference"
    unfolding try_array_size_match_def by (rule array_match_filter)
  have res: "case from_named ?ts of
      [] \<Rightarrow> in_type_name (try_array_size_match rs sz) = []
    | t # us \<Rightarrow> try_array_size_match rs sz = array_result sz t us no_inference"
    unfolding a by (rule array_match_result) (simp_all add: no_inference_def)
  have d: "infer_from_size rs sz r =
      (if in_type_name (try_array_size_match rs sz) \<noteq> [] then try_array_size_match rs sz
       else r\<lparr>in_method := ''unknown'', in_confidence := 0\<rparr>)" for r
    by (simp add: infer_from_size_def c Nil Let_def)
  show ?thesis
  proof (cases "from_named ?ts")
    case no: Nil
    with res show ?thesis by (simp add: size_result_def Nil d no_inference_def)
  next
    case (Cons t us)
    with res from_named_name [OF Cons] show ?thesis by (simp add: size_result_def Nil d array_result_def)
  qed
qed

lemma infer_by_size:
  assumes "rs = build_size_index rs0" and "sint stack_id \<le> 0"
  shows "\<exists>r. infer_type_combined_v2 h stack_id sz [] rs = Some (r, rs) \<and> size_result sz (types (rs_analyzer rs)) r"
proof -
  let ?ts = "types (rs_analyzer rs)" and ?r = "no_inference\<lparr>in_alloc_count := 1\<rparr>"
  have an: "rs_analyzer rs = rs_analyzer rs0" by (simp add: assms(1) build_size_index_def Let_def)
  have c: "get_size_candidates rs sz = map ti_name (filter (sized sz) ?ts)"
    unfolding an by (simp only: assms(1) size_candidates)
  from infer_from_size_result [OF c]
  have "size_result sz ?ts (infer_from_size rs sz ?r)" .
  moreover have "infer_type_combined_v2 h stack_id sz [] rs = Some (infer_from_size rs sz ?r, rs)"
    using assms(2) by (simp add: infer_type_combined_v2_def inference_pcs_def Let_def)
  ultimately show ?thesis by blast
qed

text \<open>
  C16: Without a stack the type is the only type with members that has the size, or the first of several;
  failing that, the block is an array of the first named type that divides it two to 100000 times;
  failing that, it is unknown. The confidence says which. Nothing changes. This is what the code
  does; \<open>docs/CALLSITE_TYPE_INFERENCE_SPEC.md\<close> differs: there 0 is a valid stack id, an array has at
  most 10000 elements of a type that need not have members, and the name of an ambiguous type
  carries the number of candidates.
\<close>

theorem inference_by_size:
  assumes "rs = build_size_index rs0" and "sint stack_id \<le> 0"
  shows "\<exists>r. infer_type_combined_v2 h stack_id sz [] rs = Some (r, rs) \<and> size_result sz (types (rs_analyzer rs)) r"
  using assms by (rule infer_by_size)

section \<open>Counts of elements\<close>

text \<open>
  The count is 1 or such that the elements fill the block, where the element is the type found under
  the reported name or, for a guessed array, a type with the reported name.
\<close>

definition element_of :: "analyzer \<Rightarrow> string \<Rightarrow> type_info \<Rightarrow> bool" where
  "element_of an name t \<longleftrightarrow>
     find_type_by_name an name = Some t \<or>
     t \<in> set (types an) \<and> (name = ti_name t \<or> name = ti_name t @ '' (ambiguous)'')"

definition counted :: "analyzer \<Rightarrow> u64 \<Rightarrow> inference \<Rightarrow> bool" where
  "counted an sz r \<longleftrightarrow>
     in_alloc_count r = 1 \<or>
     (\<exists>t. element_of an (in_type_name r) t \<and> 0 < ti_byte_size t \<and>
        unat (in_alloc_count r) * unat (ti_byte_size t) = unat sz)"

lemma exact_division: "(m :: u64) mod n = 0 \<Longrightarrow> unat (m div n) * unat n = unat m"
proof -
  assume "m mod n = 0"
  then have "unat m mod unat n = 0" by (metis unat_mod unat_0)
  then show ?thesis by (simp add: unat_div dvd_eq_mod_eq_0 [symmetric])
qed

lemma counted_one: "in_alloc_count r = 1 \<Longrightarrow> counted an sz r"
  by (simp add: counted_def)

lemma count_elements_counted: "in_alloc_count r = 1 \<Longrightarrow> counted (rs_analyzer rs) sz (count_elements rs sz r)"
proof (cases "find_type_by_name (rs_analyzer rs) (in_type_name r)")
  case (Some t)
  assume one: "in_alloc_count r = 1"
  let ?c = "count_elements rs sz r"
  have n: "in_type_name ?c = in_type_name r" using Some by (simp add: count_elements_def Let_def)
  show ?thesis
  proof (cases "0 < ti_byte_size t \<and> sz mod ti_byte_size t = 0")
    case True
    then have "in_alloc_count ?c = sz div ti_byte_size t" using Some by (simp add: count_elements_def Let_def)
    then have "unat (in_alloc_count ?c) * unat (ti_byte_size t) = unat sz"
      using exact_division [of sz "ti_byte_size t"] True by simp
    then show ?thesis using Some True by (auto simp: counted_def element_of_def n)
  next
    case False
    then have "?c = r" using Some by (simp only: count_elements_def option.case if_False)
    with one show ?thesis by (simp add: counted_def)
  qed
qed (simp add: count_elements_def counted_def)

lemma array_match_counted:
  assumes "in_type_name (try_array_size_match rs sz) \<noteq> []"
  shows "counted (rs_analyzer rs) sz (try_array_size_match rs sz)"
proof -
  let ?ts = "filter (element_type sz) (types (rs_analyzer rs))"
  have a: "try_array_size_match rs sz = array_match sz ?ts no_inference"
    unfolding try_array_size_match_def by (rule array_match_filter)
  have res: "case from_named ?ts of
      [] \<Rightarrow> in_type_name (try_array_size_match rs sz) = []
    | t # us \<Rightarrow> try_array_size_match rs sz = array_result sz t us no_inference"
    unfolding a by (rule array_match_result) (simp_all add: no_inference_def)
  then obtain t us where t: "from_named ?ts = t # us"
    and r: "try_array_size_match rs sz = array_result sz t us no_inference"
    using assms by (cases "from_named ?ts") simp_all
  have "t \<in> set ?ts" using t set_dropWhileD [of t] unfolding from_named_def by (metis list.set_intros(1))
  then have m: "t \<in> set (types (rs_analyzer rs))" "8 \<le> ti_byte_size t" "sz mod ti_byte_size t = 0"
    by (simp_all add: element_type_def)
  have "element_of (rs_analyzer rs) (in_type_name (array_result sz t us no_inference)) t"
    using m(1) by (simp add: element_of_def array_result_def)
  moreover have "0 < ti_byte_size t" using m(2) by (rule order_less_le_trans [rotated]) simp
  moreover have "unat (in_alloc_count (array_result sz t us no_inference)) * unat (ti_byte_size t) = unat sz"
    using exact_division [OF m(3)] by (simp add: array_result_def)
  ultimately show ?thesis unfolding counted_def r by blast
qed

lemma infer_from_size_counted:
  "in_alloc_count r = 1 \<Longrightarrow> counted (rs_analyzer rs) sz (infer_from_size rs sz r)"
  using array_match_counted [of rs sz] by (auto simp: infer_from_size_def Let_def intro: counted_one)

lemma callsite_result_counted: "callsite_result rs sz ts = Some r \<Longrightarrow> counted (rs_analyzer rs) sz r"
  by (auto simp: callsite_result_def Let_def split: if_splits intro: count_elements_counted counted_one)

lemma function_result_one: "in_alloc_count (function_result rs sz names) = 1"
  by (simp add: function_result_def Let_def)

text \<open>The inference changes only the cached offset and what the source analyzer has cached.\<close>

definition same_tables :: "resolver \<Rightarrow> resolver \<Rightarrow> bool" where
  "same_tables rs rs' \<longleftrightarrow> rs' = rs\<lparr>rs_source := rs_source rs', rs_aslr_offset := rs_aslr_offset rs'\<rparr>"

lemma same_tables_refl [simp]: "same_tables rs rs"
  by (simp add: same_tables_def)

lemma same_tables_trans: "same_tables rs rs' \<Longrightarrow> same_tables rs' rs'' \<Longrightarrow> same_tables rs rs''"
  unfolding same_tables_def by (cases rs, cases rs', cases rs'') simp

lemma same_tables_fields:
  "same_tables rs rs' \<Longrightarrow> rs_analyzer rs' = rs_analyzer rs \<and> rs_ranges rs' = rs_ranges rs \<and>
     rs_allocs rs' = rs_allocs rs \<and> rs_size_index rs' = rs_size_index rs"
  unfolding same_tables_def by (cases rs, cases rs') simp

lemma source_text_same: "infer_type_from_source_text h pc rs = (r, rs') \<Longrightarrow> same_tables rs rs' \<and> in_alloc_count r = 1"
  by (auto simp: infer_type_from_source_text_def same_tables_def Let_def split: prod.splits)

lemma aslr_same: "same_tables rs (snd (compute_aslr_offset pcs (rs\<lparr>rs_aslr_offset := 0\<rparr>)))"
  by (simp add: compute_aslr_offset_def same_tables_def Let_def)

lemma infer_from_callers_counted:
  "infer_from_callers h sz pcs rs = Some (found, rs') \<Longrightarrow>
   same_tables rs rs' \<and> (\<forall>r. found = Some r \<longrightarrow> counted (rs_analyzer rs) sz r)"
proof (induction h sz pcs rs rule: infer_from_callers.induct)
  case (1 h sz rs)
  then show ?case by simp
next
  case (2 h sz pc pcs rs)
  let ?caller = "if 0 < pc then pc - 1 else pc"
  show ?case
  proof (cases "is_in_target_binary rs ?caller")
    case False
    then show ?thesis using "2.IH"(1) [OF refl] "2.prems" by (simp add: Let_def)
  next
    case True
    obtain off where off: "va_to_file_offset rs ?caller = Some off"
      using "2.prems" True by (auto simp: Let_def split: option.splits)
    obtain src rs1 where src: "infer_type_from_source_text h off rs = (src, rs1)" by fastforce
    have s: "same_tables rs rs1" "in_alloc_count src = 1" using source_text_same [OF src] by simp_all
    have an: "rs_analyzer rs1 = rs_analyzer rs" using same_tables_fields [OF s(1)] by simp
    let ?good = "in_type_name src \<noteq> [] \<and> 50 \<le> in_confidence src"
    let ?at = "callsite_result rs1 sz (find_pointer_target_types_at_pc sort (rs_analyzer rs1) off)"
    have step: "infer_from_callers h sz (pc # pcs) rs =
        (if ?good then Some (Some (count_elements rs1 sz src), rs1)
         else case ?at of Some r \<Rightarrow> Some (Some r, rs1) | None \<Rightarrow> infer_from_callers h sz pcs rs1)"
      unfolding infer_from_callers.simps Let_def using True by (simp only: off src option.case prod.case not_True_eq_False if_False)
    consider (found) ?good | (site) r where "\<not> ?good" "?at = Some r" | (next_pc) "\<not> ?good" "?at = None"
      by (cases ?at) auto
    then show ?thesis
    proof cases
      case found
      then have "found = Some (count_elements rs1 sz src)" "rs' = rs1" using "2.prems" unfolding step by auto
      then show ?thesis using s count_elements_counted [OF s(2), of rs1 sz] an by simp
    next
      case site
      then have "found = Some r" "rs' = rs1" using "2.prems" unfolding step by auto
      then show ?thesis using s callsite_result_counted [OF site(2)] an by simp
    next
      case next_pc
      then have "infer_from_callers h sz pcs rs1 = Some (found, rs')"
        using "2.prems" unfolding step by (simp only: if_False option.case)
      with "2.IH"(2) [OF refl _ off src [symmetric] refl next_pc] True
      have "same_tables rs1 rs' \<and> (\<forall>r. found = Some r \<longrightarrow> counted (rs_analyzer rs1) sz r)" by blast
      with s(1) an show ?thesis using same_tables_trans by auto
    qed
  qed
qed

lemma infer_type_same:
  assumes "infer_type_combined_v2 h stack_id sz inline_pcs rs = Some (r, rs')"
  shows "same_tables rs rs' \<and> counted (rs_analyzer rs) sz r"
proof -
  let ?pcs = "inference_pcs h rs stack_id inline_pcs"
  let ?r = "no_inference\<lparr>in_alloc_count := 1\<rparr>"
  define rs1 where "rs1 = snd (compute_aslr_offset ?pcs (rs\<lparr>rs_aslr_offset := 0\<rparr>))"
  have s1: "same_tables rs rs1" unfolding rs1_def by (rule aslr_same)
  show ?thesis
  proof (cases "?pcs = []")
    case True
    then have "(r, rs') = (infer_from_size rs sz ?r, rs)"
      using assms by (auto simp: infer_type_combined_v2_def Let_def)
    then show ?thesis using infer_from_size_counted [of ?r rs sz] by simp
  next
    case False
    then have e: "infer_type_combined_v2 h stack_id sz inline_pcs rs =
        (case infer_from_callers h sz (tl ?pcs) rs1 of
           None \<Rightarrow> None
         | Some (Some r, rs2) \<Rightarrow> Some (r, rs2)
         | Some (None, rs2) \<Rightarrow>
             (case resolve_function_names_from_pcs rs2 ?pcs of
                None \<Rightarrow> None
              | Some names \<Rightarrow>
                  let r = function_result rs2 sz names
                  in if in_type_name r \<noteq> [] \<and> \<not> has_infix ''ambiguous'' (in_type_name r)
                     then Some (count_elements rs2 sz r, rs2)
                     else Some (infer_from_size rs2 sz r, rs2)))"
      unfolding infer_type_combined_v2_def Let_def rs1_def by (simp only: if_False)
    obtain found rs2 where f: "infer_from_callers h sz (tl ?pcs) rs1 = Some (found, rs2)"
      using assms unfolding e by (auto split: option.splits)
    note c = infer_from_callers_counted [OF f]
    have s2: "same_tables rs rs2" using same_tables_trans [OF s1] c by blast
    have an: "rs_analyzer rs1 = rs_analyzer rs" "rs_analyzer rs2 = rs_analyzer rs"
      using same_tables_fields [OF s1] same_tables_fields [OF s2] by simp_all
    show ?thesis
    proof (cases found)
      case (Some q)
      then have "(r, rs') = (q, rs2)" using assms unfolding e f by simp
      then show ?thesis using s2 c Some an by simp
    next
      case None
      then obtain names where "resolve_function_names_from_pcs rs2 ?pcs = Some names"
        using assms unfolding e f by (auto split: option.splits)
      then have "rs' = rs2 \<and> (r = count_elements rs2 sz (function_result rs2 sz names) \<or>
          r = infer_from_size rs2 sz (function_result rs2 sz names))"
        using assms None unfolding e f by (auto simp: Let_def split: if_splits)
      then show ?thesis
        using s2 an function_result_one [of rs2 sz names]
          count_elements_counted [of "function_result rs2 sz names" rs2 sz]
          infer_from_size_counted [of "function_result rs2 sz names" rs2 sz] by auto
    qed
  qed
qed

text \<open>
  C18: Whatever the inference reports, the reported count of elements is 1 or the elements of the reported
  type fill the block exactly.
\<close>

theorem inference_counts_elements:
  assumes "infer_type_combined_v2 h stack_id sz inline_pcs rs = Some (r, rs')"
  shows "in_alloc_count r = 1 \<or>
    (\<exists>t. element_of (rs_analyzer rs) (in_type_name r) t \<and> 0 < ti_byte_size t \<and>
       unat (in_alloc_count r) * unat (ti_byte_size t) = unat sz)"
  using infer_type_same [OF assms] by (simp add: counted_def)

section \<open>The inference ends\<close>

lemma translation_ends: "\<forall>r \<in> set (rs_ranges rs). bounded_range r \<Longrightarrow> \<exists>c. va_to_file_offset rs va = Some c"
  using va_to_file_offset_ends by blast

lemma callers_end:
  "\<forall>r \<in> set (rs_ranges rs). bounded_range r \<Longrightarrow> \<exists>x. infer_from_callers h sz pcs rs = Some x"
proof (induction h sz pcs rs rule: infer_from_callers.induct)
  case (1 h sz rs)
  then show ?case by simp
next
  case (2 h sz pc pcs rs)
  let ?caller = "if 0 < pc then pc - 1 else pc"
  obtain off where off: "va_to_file_offset rs ?caller = Some off"
    using translation_ends [OF "2.prems", of ?caller] by blast
  obtain src rs1 where src: "infer_type_from_source_text h off rs = (src, rs1)" by fastforce
  have "rs_ranges rs1 = rs_ranges rs" using source_text_same [OF src] same_tables_fields by blast
  then have "\<exists>x. infer_from_callers h sz pcs rs1 = Some x"
    if "is_in_target_binary rs ?caller" "\<not> (in_type_name src \<noteq> [] \<and> 50 \<le> in_confidence src)"
      "callsite_result rs1 sz (find_pointer_target_types_at_pc sort (rs_analyzer rs1) off) = None"
    using "2.IH"(2) [OF refl _ off src [symmetric] refl that(2,3)] that(1) "2.prems" by simp
  moreover have "\<exists>x. infer_from_callers h sz pcs rs = Some x" if "\<not> is_in_target_binary rs ?caller"
    using "2.IH"(1) [OF refl that "2.prems"] .
  ultimately show ?case
    unfolding infer_from_callers.simps Let_def off src option.case prod.case
    by (auto split: option.splits)
qed

lemma names_end:
  "\<forall>r \<in> set (rs_ranges rs). bounded_range r \<Longrightarrow> \<exists>names. resolve_function_names_from_pcs rs pcs = Some names"
proof (induction pcs)
  case (Cons pc pcs)
  then show ?case using translation_ends [OF Cons.prems, of pc] by (auto simp: Let_def)
qed simp

lemma infer_type_ends:
  assumes "\<forall>r \<in> set (rs_ranges rs). bounded_range r"
  shows "\<exists>r rs'. infer_type_combined_v2 h stack_id sz inline_pcs rs = Some (r, rs')"
proof -
  let ?pcs = "inference_pcs h rs stack_id inline_pcs"
  define rs1 where "rs1 = snd (compute_aslr_offset ?pcs (rs\<lparr>rs_aslr_offset := 0\<rparr>))"
  have b1: "\<forall>r \<in> set (rs_ranges rs1). bounded_range r"
    using assms same_tables_fields [OF aslr_same] by (simp add: rs1_def)
  then obtain found rs2 where f: "infer_from_callers h sz (tl ?pcs) rs1 = Some (found, rs2)"
    using callers_end by (metis surj_pair)
  have "rs_ranges rs2 = rs_ranges rs1" using infer_from_callers_counted [OF f] same_tables_fields by blast
  with b1 obtain names where "resolve_function_names_from_pcs rs2 ?pcs = Some names"
    using names_end by metis
  then show ?thesis
    unfolding infer_type_combined_v2_def Let_def rs1_def [symmetric] using f
    by (auto split: option.splits)
qed

section \<open>A caller with one pointer type\<close>

lemma caller_in_binary:
  assumes one: "rs_ranges rs = [r]" and c: "range_has r c" "unat c < unat (br_start r) + 0x1000"
    and base: "0x1000000 \<le> unat base" "unat c + unat base < unat LIBRARY_START"
  shows "is_in_target_binary rs (c + base)"
proof -
  have lib: "unat LIBRARY_START < 0x1000000000000" by (simp add: LIBRARY_START_def)
  then have "unat c + unat base < 2 ^ 64" using base(2) by simp
  then have va: "unat (c + base) = unat c + unat base" by (simp add: unat_plus_if')
  have start: "unat (br_start r) \<le> unat c" using c(1) by (simp add: range_has_def word_le_nat_alt)
  then have d: "unat (c + base - br_start r) = unat c + unat base - unat (br_start r)"
    using unat_sub [of "br_start r" "c + base"] by (simp add: word_le_nat_alt va)
  have "unat c + unat base - unat (br_start r) < 0x1000000000000" using base(2) lib by linarith
  moreover have "0x1000000 \<le> unat c + unat base - unat (br_start r)" using start base(1) by linarith
  ultimately have lim: "0x1000000 \<le> unat (c + base - br_start r)" "unat (c + base - br_start r) < 0x1000000000000"
    unfolding d by simp_all
  then have "sint (c + base - br_start r) = int (unat (c + base - br_start r))" by (intro sint_small) simp
  then have "0x1000000 \<le> sint (c + base - br_start r) \<and> sint (c + base - br_start r) < 0x1000000000000"
    using lim by presburger
  moreover have "\<not> c + base < 0x100000" "\<not> LIBRARY_START \<le> c + base"
    using base by (simp_all add: word_less_nat_alt word_le_nat_alt va)
  ultimately show ?thesis by (simp add: is_in_target_binary_def one)
qed

lemma silent_text:
  assumes "te_type_name (fst (extract_type_from_source (rh_text h) pc (rs_source rs))) = []"
  shows "\<exists>sa. infer_type_from_source_text h pc rs = (no_inference\<lparr>in_alloc_count := 1\<rparr>, rs\<lparr>rs_source := sa\<rparr>)"
  using assms by (auto simp: infer_type_from_source_text_def split: prod.splits)

text \<open>
  When the source text gives no type: no location (\<open>addr2line\<close> fails or answers with question marks),
  or a file that cannot be read.
\<close>

lemma no_location_no_type:
  "get_source_location th sa pc = None \<Longrightarrow> te_type_name (fst (extract_type_from_source th pc sa)) = []"
  by (simp add: extract_type_from_source_def no_extraction_def)

lemma unknown_location:
  "execute_addr2line th sa pc \<in> {[], ''??:0'', ''??:?''} \<Longrightarrow> get_source_location th sa pc = None"
  by (auto simp: get_source_location_def Let_def)

lemma unreadable_no_type:
  assumes "get_source_location th sa pc = Some (file, line)" "sa_cache sa file = None" "file_content th file = None"
  shows "te_type_name (fst (extract_type_from_source th pc sa)) = []"
  using assms
  by (simp add: extract_type_from_source_def get_source_line_def read_source_file_def no_extraction_def Let_def
      split: option.split prod.split)

text \<open>Frames outside the binary are passed over.\<close>

lemma infer_from_callers_skip:
  "\<forall>q \<in> set before. \<not> is_in_target_binary rs (if 0 < q then q - 1 else q) \<Longrightarrow>
   infer_from_callers h sz (before @ pcs) rs = infer_from_callers h sz pcs rs"
  by (induction before) (simp_all add: Let_def)

lemma is_in_target_binary_ranges:
  "rs_ranges rs' = rs_ranges rs \<Longrightarrow> is_in_target_binary rs' = is_in_target_binary rs"
  by (rule ext) (simp add: is_in_target_binary_def)

lemma aslr_source: "rs_source (snd (compute_aslr_offset pcs rs)) = rs_source rs"
  by (simp add: compute_aslr_offset_def Let_def)

text \<open>The number of objects of a type in a block.\<close>

definition object_count :: "analyzer \<Rightarrow> string \<Rightarrow> u64 \<Rightarrow> u64" where
  "object_count an ty sz =
     (case find_type_by_name an ty of
        None \<Rightarrow> 1
      | Some t \<Rightarrow> if 0 < ti_byte_size t \<and> sz mod ti_byte_size t = 0 then sz div ti_byte_size t else 1)"

lemma count_elements_fields:
  "in_alloc_count r = 1 \<Longrightarrow>
   in_type_name (count_elements rs sz r) = in_type_name r \<and> in_method (count_elements rs sz r) = in_method r \<and>
   in_confidence (count_elements rs sz r) = in_confidence r \<and>
   in_alloc_count (count_elements rs sz r) = object_count (rs_analyzer rs) (in_type_name r) sz"
  by (simp add: count_elements_def object_count_def Let_def split: option.split)

text \<open>
  C17: A block that is allocated in the first page of a binary is given the type of the pointers of the
  function that allocates it, if they have one, whenever the source text gives no type: the return
  address of the call, less one, belongs to the function. Frames of libraries may stand before it
  in the stack.
\<close>

theorem callsite_gives_pointer_type:
  assumes one: "rs_ranges rs = [r]" "bounded_range r"
    and c: "range_has r c" "unat c < unat (br_start r) + 0x1000"
    and base: "base AND PAGE_MASK = 0" "0x1000000 \<le> unat base" "unat c + unat base < unat LIBRARY_START"
    and fn: "find (in_subprogram c) (subprograms (rs_analyzer rs)) = Some sp" "set (pointer_targets sp) = {ty}"
    and silent: "te_type_name (fst (extract_type_from_source (rh_text h) c (rs_source rs))) = []"
    and before: "\<forall>q \<in> set before. \<not> is_in_target_binary rs (if 0 < q then q - 1 else q)"
  shows "\<exists>t rs'. infer_type_combined_v2 h stack_id sz (p # before @ (c + base + 1) # rest) rs = Some (t, rs') \<and>
    in_type_name t = ty \<and> in_method t = ''callsite_pc'' \<and> in_confidence t = 95 \<and>
    in_alloc_count t = object_count (rs_analyzer rs) ty sz"
proof -
  let ?pcs = "p # before @ (c + base + 1) # rest"
  define rs1 where "rs1 = snd (compute_aslr_offset ?pcs (rs\<lparr>rs_aslr_offset := 0\<rparr>))"
  have same: "rs_analyzer rs1 = rs_analyzer rs" "rs_ranges rs1 = [r]"
    using same_tables_fields [OF aslr_same [where rs = rs and pcs = ?pcs]] one(1) by (simp_all add: rs1_def)
  have "rs_source rs1 = rs_source rs" by (simp add: rs1_def aslr_source)
  then obtain sa where silent_src: "infer_type_from_source_text h c rs1 =
      (no_inference\<lparr>in_alloc_count := 1\<rparr>, rs1\<lparr>rs_source := sa\<rparr>)"
    using silent_text [of h c rs1] silent by auto
  have skip: "infer_from_callers h sz (tl ?pcs) rs1 = infer_from_callers h sz ((c + base + 1) # rest) rs1"
    using before is_in_target_binary_ranges [of rs1 rs] same(2) one(1) by (simp add: infer_from_callers_skip)
  have "unat c + unat base + 1 < 2 ^ 64" using base(3) by (simp add: LIBRARY_START_def)
  then have pos: "0 < c + base + 1"
    by (simp add: word_less_nat_alt unat_plus_if')
  have bin: "is_in_target_binary rs1 (c + base)" by (rule caller_in_binary [OF same(2) c base(2,3)])
  have va: "va_to_file_offset rs1 (c + base) = Some c"
    using translation_first_page [OF same(2) one(2) c(1) base] c(2) by simp
  have "sorted (unique (sort (pointer_targets sp)))" "distinct (unique (sort (pointer_targets sp)))"
    by (simp_all add: sorted_unique sorted_unique_distinct)
  moreover have "set (unique (sort (pointer_targets sp))) = {ty}" using fn(2) by simp
  ultimately have ts: "unique (sort (pointer_targets sp)) = [ty]"
    by (metis sorted_distinct_set_unique distinct_singleton list.simps(15) list.set(1) sorted1)
  have "find_pointer_target_types_at_pc sort (rs_analyzer rs1) c = [ty]"
    by (simp add: find_pointer_target_types_at_pc_def same(1) fn(1) ts)
  then have "infer_from_callers h sz (tl ?pcs) rs1 =
      Some (Some (count_elements (rs1\<lparr>rs_source := sa\<rparr>) sz (no_inference\<lparr>in_type_name := ty, in_alloc_count := 1,
        in_method := ''callsite_pc'', in_confidence := 95\<rparr>)), rs1\<lparr>rs_source := sa\<rparr>)"
      (is "_ = Some (Some ?t, ?rs2)")
    unfolding skip using pos bin va silent_src by (simp add: callsite_result_def no_inference_def Let_def)
  then have "infer_type_combined_v2 h stack_id sz ?pcs rs = Some (?t, ?rs2)"
    by (simp add: infer_type_combined_v2_def inference_pcs_def rs1_def Let_def)
  then show ?thesis
    using count_elements_fields [of "no_inference\<lparr>in_type_name := ty, in_alloc_count := 1,
        in_method := ''callsite_pc'', in_confidence := 95\<rparr>" ?rs2 sz]
    by (auto simp: same(1))
qed

section \<open>Examples\<close>

text \<open>Two structures of 16 and of 24 bytes with one member each.\<close>

definition sample_field :: field_info where
  "sample_field =
     \<lparr>fi_name = ''x'', fi_bit_offset = 0, fi_bit_size = 0, fi_byte_offset = 0, fi_byte_size = 8,
      fi_is_bitfield = False, fi_type_name = ''long'', fi_is_pointer = False, fi_is_array = False,
      fi_array_element_count = 0, fi_full_qualified_name = []\<rparr>"

definition sample_type :: "string \<Rightarrow> u64 \<Rightarrow> type_info" where
  "sample_type name n =
     \<lparr>ti_die_offset = n, ti_name = name, ti_linkage_name = [], ti_byte_size = n, ti_alignment = 0,
      ti_tag = TAG_STRUCT, ti_fields = [sample_field], ti_source_file = [], ti_source_line = 0\<rparr>"

definition sample_resolver :: resolver where
  "sample_resolver = build_size_index (new_resolver\<lparr>rs_analyzer :=
     add_type (sample_type ''Q'' 24) (add_type (sample_type ''P'' 16) empty_analyzer)\<rparr>)"

definition no_text :: text_host where
  "no_text = \<lparr>popen = (\<lambda>_. None), file_content = (\<lambda>_. None)\<rparr>"

definition no_host :: "unit resolver_host" where
  "no_host = \<lparr>rh_dw = no_dwarf, rh_text = no_text, rh_stack = (\<lambda>_. None)\<rparr>"

lemma sample_types: "types (rs_analyzer sample_resolver) = [sample_type ''P'' 16, sample_type ''Q'' 24]"
  by (simp add: sample_resolver_def build_size_index_def new_resolver_def add_type_def empty_analyzer_def Let_def)

text \<open>48 bytes: three times \<open>P\<close> or twice \<open>Q\<close>.\<close>

theorem inference_by_size_witness:
  "\<exists>r. infer_type_combined_v2 no_host 0 48 [] sample_resolver = Some (r, sample_resolver) \<and>
     in_type_name r = ''P (ambiguous)'' \<and> in_alloc_count r = 3 \<and> in_confidence r = 15"
proof -
  obtain r where r: "infer_type_combined_v2 no_host 0 48 [] sample_resolver = Some (r, sample_resolver)"
    "size_result 48 (types (rs_analyzer sample_resolver)) r"
    using inference_by_size [OF sample_resolver_def, of 0 no_host 48] by auto
  then show ?thesis
    by (simp add: sample_types size_result_def sized_def element_type_def sample_type_def array_result_def)
qed

theorem inference_counts_elements_witness:
  "\<exists>r rs'. infer_type_combined_v2 no_host 0 48 [] sample_resolver = Some (r, rs') \<and>
     (in_alloc_count r = 1 \<or>
      (\<exists>t. element_of (rs_analyzer sample_resolver) (in_type_name r) t \<and> 0 < ti_byte_size t \<and>
         unat (in_alloc_count r) * unat (ti_byte_size t) = 48))"
proof -
  have "rs_ranges sample_resolver = []"
    by (simp add: sample_resolver_def build_size_index_def new_resolver_def Let_def)
  then obtain r rs' where r: "infer_type_combined_v2 no_host 0 48 [] sample_resolver = Some (r, rs')"
    using infer_type_ends [of sample_resolver no_host 0 48 "[]"] by auto
  with inference_counts_elements [OF r] show ?thesis by auto
qed

text \<open>A function with a pointer to \<open>P\<close> that allocates 48 bytes, in a binary that is loaded far above its addresses.\<close>

definition pointer_function :: subprogram where
  "pointer_function =
     \<lparr>sp_name = ''f'', sp_linkage_name = [], sp_low_pc = 0x1000, sp_high_pc = 0x100, sp_high_is_offset = True,
      sp_die_offset = 0, sp_frame_base = [], sp_source_file = [], sp_source_line = 0,
      sp_locals = [\<lparr>lv_name = ''p'', lv_type_name = [], lv_type_die_offset = 0, lv_is_pointer = True,
        lv_target_offset = 16, lv_target_name = ''P''\<rparr>]\<rparr>"

definition pointer_resolver :: resolver where
  "pointer_resolver =
     new_resolver\<lparr>rs_analyzer := add_subprogram pointer_function (add_type (sample_type ''P'' 16) empty_analyzer),
       rs_ranges := [\<lparr>br_start = 0x1000, br_end = 0x5000, br_path = []\<rparr>]\<rparr>"

theorem callsite_gives_pointer_type_witness:
  "\<exists>t rs'. infer_type_combined_v2 no_host 7 48 [0x7ffff7a00000, 0x7ffff7b00000, 0x555555555011] pointer_resolver = Some (t, rs') \<and>
     in_type_name t = ''P'' \<and> in_method t = ''callsite_pc'' \<and> in_confidence t = 95 \<and> in_alloc_count t = 3"
proof -
  let ?r = "\<lparr>br_start = 0x1000, br_end = 0x5000, br_path = []\<rparr>"
  have r: "rs_ranges pointer_resolver = [?r]" "subprograms (rs_analyzer pointer_resolver) = [pointer_function]"
    "find_type_by_name (rs_analyzer pointer_resolver) ''P'' = Some (sample_type ''P'' 16)"
    by (simp_all add: pointer_resolver_def add_subprogram_def add_type_def empty_analyzer_def find_type_by_name_def
        pointer_function_def sample_type_def Let_def)
  have fn: "find (in_subprogram 0x1010) (subprograms (rs_analyzer pointer_resolver)) = Some pointer_function"
    "set (pointer_targets pointer_function) = {''P''}"
    unfolding r(2) by (simp_all add: in_subprogram_def pointer_function_def sp_end_def pointer_targets_def)
  have quiet: "te_type_name (fst (extract_type_from_source (rh_text no_host) 0x1010 (rs_source pointer_resolver))) = []"
    by (intro no_location_no_type unknown_location) (simp add: execute_addr2line_def no_host_def no_text_def)
  have n: "object_count (rs_analyzer pointer_resolver) ''P'' 48 = 3"
    by (simp add: object_count_def r(3) sample_type_def)
  have "\<exists>t rs'. infer_type_combined_v2 no_host 7 48 (0x7ffff7a00000 # [0x7ffff7b00000] @ (0x1010 + 0x555555554000 + 1) # []) pointer_resolver
      = Some (t, rs') \<and> in_type_name t = ''P'' \<and> in_method t = ''callsite_pc'' \<and> in_confidence t = 95 \<and>
      in_alloc_count t = object_count (rs_analyzer pointer_resolver) ''P'' 48"
    by (rule callsite_gives_pointer_type [OF r(1) _ _ _ _ _ _ fn quiet])
      (simp_all add: bounded_range_def range_has_def PAGE_MASK_def LIBRARY_START_def is_in_target_binary_def)
  then show ?thesis unfolding n by simp
qed

end
