(* ===== verification/Resolver_Correct.thy ===== *)
theory Resolver_Correct
  imports Resolver
begin

text \<open>
  The range of a binary contains everything the binary defines; the vote on the load offset has a
  winner; the translation of a run-time address ends, is sound, and is right for the first page of the
  binary only.
\<close>

section \<open>The range of the binary\<close>

text \<open>A pair of bounds that has grown from another.\<close>

definition grown :: "u64 \<times> u64 \<Rightarrow> u64 \<times> u64 \<Rightarrow> bool" where
  "grown mm mm' \<longleftrightarrow> fst mm' \<le> fst mm \<and> snd mm \<le> snd mm'"

lemma grown_refl [simp]: "grown mm mm"
  by (simp add: grown_def)

lemma grown_trans: "grown a b \<Longrightarrow> grown b c \<Longrightarrow> grown a c"
  by (auto simp: grown_def)

lemma grown_symbol: "grown mm (extend_by_symbol s mm)"
  by (auto simp: extend_by_symbol_def grown_def)

lemma grown_subprogram: "grown mm (extend_by_subprogram sp mm)"
  by (auto simp: extend_by_subprogram_def grown_def)

lemma grown_fold:
  assumes "\<And>x mm. grown mm (f x mm)"
  shows "grown mm (fold f xs mm)"
proof (induction xs arbitrary: mm)
  case Nil
  then show ?case by simp
next
  case (Cons x xs)
  show ?case using grown_trans [OF assms Cons.IH] by simp
qed

lemma fold_extends:
  assumes "\<And>x mm. grown mm (f x mm)" and "x \<in> set xs"
    and "\<And>mm. lo x < hi x \<Longrightarrow> ok x \<Longrightarrow> fst (f x mm) \<le> lo x \<and> hi x \<le> snd (f x mm)"
    and "ok x" and "lo x < hi x"
  shows "fst (fold f xs mm) \<le> lo x \<and> hi x \<le> snd (fold f xs mm)"
  using assms(2)
proof (induction xs arbitrary: mm)
  case Nil
  then show ?case by simp
next
  case (Cons y ys)
  show ?case
  proof (cases "x = y")
    case True
    have "grown (f x mm) (fold f ys (f x mm))" by (rule grown_fold [OF assms(1)])
    then show ?thesis using assms(3) [OF assms(5,4), of mm] True by (auto simp: grown_def)
  next
    case False
    with Cons show ?thesis by simp
  qed
qed

text \<open>
  C33: There is at most one range, and it contains every symbol with an address and every subprogram with
  code, unless they run over the end of the address space.
\<close>

theorem binary_range_covers:
  assumes "rs' = detect_binary_ranges rs"
  shows "length (rs_ranges rs') \<le> 1 \<and>
    (\<forall>s \<in> set (symbols (rs_analyzer rs)). sy_address s \<noteq> 0 \<and> sy_address s < symbol_end s \<longrightarrow>
       (\<exists>r. rs_ranges rs' = [r] \<and> br_start r \<le> sy_address s \<and> symbol_end s \<le> br_end r)) \<and>
    (\<forall>sp \<in> set (subprograms (rs_analyzer rs)).
       sp_low_pc sp \<noteq> 0 \<and> sp_high_pc sp \<noteq> 0 \<and> sp_low_pc sp < sp_end sp \<longrightarrow>
       (\<exists>r. rs_ranges rs' = [r] \<and> br_start r \<le> sp_low_pc sp \<and> sp_end sp \<le> br_end r))"
proof -
  let ?sps = "subprograms (rs_analyzer rs)" and ?sys = "symbols (rs_analyzer rs)"
  define mm where "mm = fold extend_by_symbol ?sys (fold extend_by_subprogram ?sps (- 1, 0))"
  have r: "rs_ranges rs' = (if fst mm \<noteq> - 1 \<and> fst mm < snd mm
      then [\<lparr>br_start = fst mm, br_end = snd mm, br_path = rs_binary_path rs\<rparr>] else [])"
    by (simp add: assms detect_binary_ranges_def mm_def split_beta Let_def)
  have hit: "\<exists>r. rs_ranges rs' = [r] \<and> br_start r \<le> a \<and> b \<le> br_end r"
    if "fst mm \<le> a \<and> b \<le> snd mm" "a < b" for a b
  proof -
    have "a \<noteq> - 1" using that(2) word_n1_ge [of b] by auto
    then have "fst mm \<noteq> - 1" using that word_n1_ge [of a] by (metis order_antisym)
    moreover have "fst mm < snd mm" using that by (meson order_le_less_trans order_less_le_trans)
    ultimately show ?thesis using that(1) by (simp add: r)
  qed
  have "fst mm \<le> sy_address s \<and> symbol_end s \<le> snd mm"
    if "s \<in> set ?sys" "sy_address s \<noteq> 0" "sy_address s < symbol_end s" for s
    unfolding mm_def using that
    by (intro fold_extends [where ok = "\<lambda>s. sy_address s \<noteq> 0" and lo = sy_address and hi = symbol_end] grown_symbol)
      (auto simp: extend_by_symbol_def)
  moreover have "fst mm \<le> sp_low_pc sp \<and> sp_end sp \<le> snd mm"
    if "sp \<in> set ?sps" "sp_low_pc sp \<noteq> 0" "sp_high_pc sp \<noteq> 0" "sp_low_pc sp < sp_end sp" for sp
  proof -
    have "fst (fold extend_by_subprogram ?sps (- 1, 0)) \<le> sp_low_pc sp \<and>
        sp_end sp \<le> snd (fold extend_by_subprogram ?sps (- 1, 0))"
      using that
      by (intro fold_extends [where ok = "\<lambda>s. sp_low_pc s \<noteq> 0 \<and> sp_high_pc s \<noteq> 0" and lo = sp_low_pc and hi = sp_end]
          grown_subprogram) (auto simp: extend_by_subprogram_def)
    moreover have "grown (fold extend_by_subprogram ?sps (- 1, 0)) mm"
      unfolding mm_def by (rule grown_fold [OF grown_symbol])
    ultimately show ?thesis by (auto simp: grown_def)
  qed
  ultimately show ?thesis using hit by (simp add: r)
qed

section \<open>Votes\<close>

lemma bump_spec:
  "sorted_wrt (\<lambda>p q. fst p < fst q) xs \<Longrightarrow>
   sorted_wrt (\<lambda>p q. fst p < fst q) (bump k xs) \<and>
   map_of (bump k xs) = (map_of xs)(k \<mapsto> Suc (case map_of xs k of None \<Rightarrow> 0 | Some n \<Rightarrow> n)) \<and>
   fst ` set (bump k xs) = insert k (fst ` set xs)"
proof (induction k xs rule: bump.induct)
  case (1 k)
  then show ?case by auto
next
  case (2 k l n xs)
  have below: "map_of xs j = None" if "j \<le> l" for j
    using "2.prems" that by (force simp: map_of_eq_None_iff)
  show ?case
  proof (cases "k < l")
    case True
    with "2.prems" below show ?thesis by (auto simp: fun_eq_iff)
  next
    case False
    show ?thesis
    proof (cases "k = l")
      case True
      with "2.prems" show ?thesis by (auto simp: fun_eq_iff)
    next
      case ne: False
      have "sorted_wrt (\<lambda>p q. fst p < fst q) xs" using "2.prems" by simp
      note IH = "2.IH" [OF False ne this]
      note IH [THEN conjunct1]
      moreover note IH [THEN conjunct2, THEN conjunct1]
      moreover note IH [THEN conjunct2, THEN conjunct2]
      moreover have "\<forall>q \<in> set (bump k xs). l < fst q"
      proof -
        have "\<forall>j \<in> fst ` set (bump k xs). l < j" using calculation(3) False ne "2.prems" by auto
        then show ?thesis by auto
      qed
      ultimately show ?thesis using False ne by (auto simp: fun_eq_iff)
    qed
  qed
qed

text \<open>The counts of a list of votes, in order.\<close>

definition tally :: "int list \<Rightarrow> (int \<times> nat) list" where
  "tally votes = fold bump votes []"

lemma count_list_append: "count_list (xs @ ys) k = count_list xs k + count_list ys k"
  by (induction xs) auto

lemma tally_spec:
  "sorted_wrt (\<lambda>p q. fst p < fst q) (tally votes) \<and>
   map_of (tally votes) k = (if k \<in> set votes then Some (count_list votes k) else None)"
proof (induction votes arbitrary: k rule: rev_induct)
  case Nil
  then show ?case by (simp add: tally_def)
next
  case (snoc x xs)
  have "tally (xs @ [x]) = bump x (tally xs)" by (simp add: tally_def)
  then show ?case
    using snoc [of k] snoc [of x] bump_spec [of "tally xs" x]
    by (auto simp: count_list_append count_list_0_iff split: if_splits)
qed

lemma best_count_spec:
  assumes "sorted_wrt (\<lambda>p q. fst p < fst q) xs" and "\<forall>p \<in> set xs. 0 < snd p" and "xs \<noteq> []"
  shows "\<exists>n. (best_count xs, n) \<in> set xs \<and>
    (\<forall>(k, m) \<in> set xs. m \<le> n \<and> (m = n \<longrightarrow> best_count xs \<le> k))"
proof -
  let ?f = "\<lambda>(k, n) (best, count :: nat). if count < n then (k, n) else (best, count)"
  let ?best = "\<lambda>xs b n. (b, n) \<in> set xs \<and> (\<forall>(k, m) \<in> set xs. m \<le> n \<and> (m = n \<longrightarrow> b \<le> k))"
  have "case fold ?f xs (0, 0) of (b, n) \<Rightarrow> if xs = [] then (b, n) = (0, 0) else ?best xs b n"
    using assms(1,2)
  proof (induction xs rule: rev_induct)
    case Nil
    then show ?case by simp
  next
    case (snoc p xs)
    obtain k m where p: "p = (k, m)" by fastforce
    obtain b n where bn: "fold ?f xs (0, 0) = (b, n)" by fastforce
    have IH: "if xs = [] then (b, n) = (0, 0) else ?best xs b n"
      using snoc bn by (auto simp: sorted_wrt_append)
    have "\<forall>q \<in> set xs. fst q < k" using snoc.prems(1) by (simp add: sorted_wrt_append p)
    then have lt: "q \<in> set xs \<Longrightarrow> fst q < k" for q by simp
    have m: "0 < m" using snoc.prems(2) by (simp add: p)
    show ?case
    proof (cases "n < m")
      case True
      have "j \<le> m \<and> (j = m \<longrightarrow> k \<le> i)" if "(i, j) \<in> set xs" for i j
        using IH True that by (cases "xs = []") auto
      then show ?thesis using True by (auto simp: p bn)
    next
      case False
      with m IH have "xs \<noteq> []" by auto
      moreover from this IH lt have "b < k" by force
      ultimately show ?thesis using IH False by (auto simp: p bn)
    qed
  qed
  then show ?thesis using assms(3) by (auto simp: best_count_def split: prod.splits)
qed

text \<open>The votes of all program counters of a stack.\<close>

definition stack_votes :: "u64 list \<Rightarrow> resolver \<Rightarrow> int list" where
  "stack_votes pcs rs = concat (map (pc_votes (subprograms (rs_analyzer rs))) pcs)"

lemma winner:
  assumes "votes \<noteq> []"
  shows "best_count (tally votes) \<in> set votes \<and>
    (\<forall>k. count_list votes k \<le> count_list votes (best_count (tally votes)) \<and>
       (k \<in> set votes \<and> count_list votes k = count_list votes (best_count (tally votes)) \<longrightarrow> best_count (tally votes) \<le> k))"
proof -
  let ?t = "tally votes" and ?b = "best_count (tally votes)"
  have srt: "sorted_wrt (\<lambda>p q. fst p < fst q) ?t" using tally_spec by blast
  then have "sorted_wrt (<) (map fst ?t)" by (simp add: sorted_wrt_map)
  then have dis: "distinct (map fst ?t)" by (simp add: strict_sorted_iff)
  have mem: "(k, n) \<in> set ?t \<longleftrightarrow> k \<in> set votes \<and> n = count_list votes k" for k n
  proof -
    have "map_of ?t k = (if k \<in> set votes then Some (count_list votes k) else None)"
      using tally_spec by blast
    moreover have "map_of ?t k = Some n \<longleftrightarrow> (k, n) \<in> set ?t" by (rule map_of_eq_Some_iff [OF dis])
    ultimately show ?thesis by (cases "k \<in> set votes") (simp_all, blast)
  qed
  have pos: "\<forall>p \<in> set ?t. 0 < snd p"
    using mem by (auto simp: count_list_0_iff intro!: Nat.gr0I)
  have "(hd votes, count_list votes (hd votes)) \<in> set ?t" using assms by (simp add: mem)
  then have "?t \<noteq> []" by auto
  then obtain n where n: "(?b, n) \<in> set ?t" "\<forall>(k, m) \<in> set ?t. m \<le> n \<and> (m = n \<longrightarrow> ?b \<le> k)"
    using best_count_spec [OF srt pos] by blast
  have "count_list votes k \<le> n" for k
    using n(2) mem [of k] by (cases "k \<in> set votes") (auto simp: count_notin)
  with n mem show ?thesis by auto
qed

lemma stack_votes_plausible: "d \<in> set (stack_votes pcs rs) \<Longrightarrow> 0x1000 dvd d \<and> 0x1000000 \<le> d \<and> d \<le> 0x1000000000000"
proof -
  assume "d \<in> set (stack_votes pcs rs)"
  then obtain e where "d = page_floor e" "plausible_offset e"
    by (auto simp: stack_votes_def pc_votes_def pc_vote_def map_filter_def Let_def split: if_splits)
  moreover have "page_floor e \<le> e" by (simp add: page_floor_def)
  moreover have "0x1000000 \<le> page_floor e" if "0x1000000 \<le> e" using that by (simp add: page_floor_def)
  ultimately show ?thesis by (auto simp: plausible_offset_def page_floor_def)
qed

text \<open>
  C32: Without a cached offset the result is the offset with the most votes, the least of those that tie, or
  0 when there is no vote; it is a multiple of the page size, and the next call returns it again
  whatever the stack.
\<close>

theorem aslr_offset_wins_vote:
  assumes "rs_aslr_offset rs = 0" and "compute_aslr_offset pcs rs = (d, rs')"
  shows "(if stack_votes pcs rs = [] then d = 0 \<and> rs' = rs
      else d \<in> set (stack_votes pcs rs) \<and>
        (\<forall>k. count_list (stack_votes pcs rs) k \<le> count_list (stack_votes pcs rs) d \<and>
          (k \<in> set (stack_votes pcs rs) \<and> count_list (stack_votes pcs rs) k = count_list (stack_votes pcs rs) d \<longrightarrow> d \<le> k)) \<and>
        0x1000 dvd d \<and> 0x1000000 \<le> d \<and> (\<forall>qs. compute_aslr_offset qs rs' = (d, rs')))"
proof -
  have c: "compute_aslr_offset pcs rs =
      (if tally (stack_votes pcs rs) \<noteq> []
       then (best_count (tally (stack_votes pcs rs)), rs\<lparr>rs_aslr_offset := best_count (tally (stack_votes pcs rs))\<rparr>)
       else (0, rs))"
    using assms(1) by (simp add: compute_aslr_offset_def tally_def stack_votes_def Let_def)
  show ?thesis
  proof (cases "stack_votes pcs rs = []")
    case True
    then have "tally (stack_votes pcs rs) = []" by (simp add: tally_def)
    then show ?thesis using c assms(2) True by simp
  next
    case False
    have "tally (stack_votes pcs rs) \<noteq> []"
      using False tally_spec [of "stack_votes pcs rs" "hd (stack_votes pcs rs)"] by (auto split: if_splits)
    then have d: "d = best_count (tally (stack_votes pcs rs))" "rs' = rs\<lparr>rs_aslr_offset := d\<rparr>"
      using c assms(2) by auto
    note w = winner [OF False, folded d(1)]
    then have "0x1000 dvd d \<and> 0x1000000 \<le> d" using stack_votes_plausible by blast
    moreover from this have "compute_aslr_offset qs rs' = (d, rs')" for qs
      by (simp add: compute_aslr_offset_def d(2))
    ultimately show ?thesis using False w by simp
  qed
qed

section \<open>Examples\<close>

text \<open>A binary with one function and one object, and a stack with two addresses in the function.\<close>

definition one_function :: subprogram where
  "one_function =
     \<lparr>sp_name = ''f'', sp_linkage_name = [], sp_low_pc = 0x1000, sp_high_pc = 0x100, sp_high_is_offset = True,
      sp_die_offset = 0, sp_frame_base = [], sp_source_file = [], sp_source_line = 0, sp_locals = []\<rparr>"

definition one_object :: symbol_info where
  "one_object =
     \<lparr>sy_name = ''table'', sy_address = 0x4000, sy_size = 0x1000, sy_type_name = [], sy_type_die_offset = 0,
      sy_binding = BIND_GLOBAL, sy_sym_type = SYM_OBJECT\<rparr>"

definition function_resolver :: resolver where
  "function_resolver =
     new_resolver\<lparr>rs_analyzer := add_symbol one_object (add_subprogram one_function empty_analyzer)\<rparr>"

lemma function_resolver_simps:
  "subprograms (rs_analyzer function_resolver) = [one_function]"
  "symbols (rs_analyzer function_resolver) = [one_object]" "rs_aslr_offset function_resolver = 0"
  by (simp_all add: function_resolver_def new_resolver_def add_subprogram_def add_symbol_def empty_analyzer_def
      one_function_def Let_def)

theorem binary_range_covers_witness:
  "\<exists>r. rs_ranges (detect_binary_ranges function_resolver) = [r] \<and> br_start r \<le> 0x1000 \<and> 0x5000 \<le> br_end r"
  using binary_range_covers [OF refl, of function_resolver]
  by (auto simp: function_resolver_simps one_object_def one_function_def symbol_end_def sp_end_def)

theorem aslr_offset_wins_vote_witness:
  "\<exists>rs'. compute_aslr_offset [0x555555555010, 0x555555555020] function_resolver = (0x555555554000, rs') \<and>
     compute_aslr_offset [] rs' = (0x555555554000, rs')"
proof -
  have votes: "stack_votes [0x555555555010, 0x555555555020] function_resolver = [0x555555554000, 0x555555554000]"
    by (simp add: stack_votes_def pc_votes_def pc_vote_def function_resolver_simps one_function_def sp_end_def
        LIBRARY_START_def plausible_offset_def page_floor_def map_filter_def Let_def sint_uint)
  obtain d rs' where c: "compute_aslr_offset [0x555555555010, 0x555555555020] function_resolver = (d, rs')"
    by fastforce
  show ?thesis
    using aslr_offset_wins_vote [OF function_resolver_simps(3) c] c unfolding votes by auto
qed

end
