(* ===== verification/Alloc_Table_Correct.thy ===== *)
theory Alloc_Table_Correct
  imports Alloc_Table
begin

text \<open>
  Correctness of the allocation table: the chains of the hash index hold exactly the records of
  their bucket, newest first; every operation keeps that; the walk of a chain ends and finds the
  newest live record of its address; inserting pushes onto, and releasing pops from, the stack of
  live records of one address.
\<close>

section \<open>Chains\<close>

lemma chain_update: "i \<notin> set is \<Longrightarrow> chain (nx[i := v]) s is = chain nx s is"
  by (induction "is" arbitrary: s) auto

lemma chain_append: "chain nx s is \<Longrightarrow> chain (nx @ ys) s is"
  by (induction "is" arbitrary: s) (auto simp: nth_append)

lemma walk_chain_find:
  assumes "chain (hash_next t) s is" and "\<forall>i \<in> set is. i < length (records t)"
  shows "walk_chain t a s =
     Some (find (\<lambda>i. ar_live (records t ! i) \<noteq> 0 \<and> ar_addr (records t ! i) = a) is)"
  using assms
proof (induction "is" arbitrary: s)
  case Nil
  then show ?case by (simp add: walk_chain.simps)
next
  case (Cons i "is")
  then show ?case by (subst walk_chain.simps) auto
qed

lemma find_filter: "(\<And>x. P x \<Longrightarrow> Q x) \<Longrightarrow> find P (filter Q xs) = find P xs"
  by (induction xs) auto

lemma bucket_lt: "hash_size t \<noteq> 0 \<Longrightarrow> bucket_of t a < unat (hash_size t)"
  by (simp add: bucket_of_def and_mask_less)

section \<open>Initialisation and growth\<close>

lemma length_resize [simp]: "length (resize n junk xs) = n"
  by (simp add: resize_def)

lemma nth_resize: "i < n \<Longrightarrow> i < length xs \<Longrightarrow> resize n junk xs ! i = xs ! i"
  by (simp add: resize_def nth_append)

lemma take_resize: "k \<le> n \<Longrightarrow> k \<le> length xs \<Longrightarrow> take k (resize n junk xs) = take k xs"
  by (simp add: resize_def)

lemma fill_from_resize:
  "length xs \<le> n \<Longrightarrow>
   fill_from (length xs) n (resize n junk xs) = xs @ replicate (n - length xs) (-1)"
proof -
  assume le: "length xs \<le> n"
  have "fold (\<lambda>j ys. ys[j := -1]) [length xs..<m] (xs @ zs) =
          xs @ replicate (m - length xs) (-1) @ drop (m - length xs) zs"
    if "length xs \<le> m" "m \<le> length xs + length zs" for m zs
    using that
  proof (induction m rule: dec_induct)
    case base
    then show ?case by simp
  next
    case (step m)
    then have "drop (m - length xs) zs = zs ! (m - length xs) # drop (Suc m - length xs) zs"
      by (subst Cons_nth_drop_Suc [symmetric]) (auto simp: Suc_diff_le)
    with step show ?case
      by (simp add: list_update_append Suc_diff_le replicate_append_same [symmetric])
  qed
  from this [OF le, of "map junk [length xs..<n]"] le show ?thesis
    by (simp add: fill_from_def resize_def)
qed

lemma size_mult_small: "a * b < 2 ^ 64 \<Longrightarrow> size_mult a b = a * b"
  by (simp add: size_mult_def)

lemma init_inv:
  assumes "alloc_table_init hp cap = Inr t" and "cap < 2 ^ 40"
  shows "table_inv t \<and> count t = 0"
proof -
  define c where "c = (if cap \<noteq> 0 then cap else 4096)"
  have c: "0 < c" "c < 2 ^ 40" using assms(2) by (simp_all add: c_def)
  then have "size_mult c SIZEOF_INT = c * 4"
    by (simp add: size_mult_small SIZEOF_INT_def)
  then have t: "t = \<lparr>records = replicate c zero_record, count = 0, capacity = c,
      hash_buckets = replicate ALLOC_HASH_SIZE (-1), hash_next = replicate c (-1),
      hash_size = of_nat ALLOC_HASH_SIZE\<rparr>"
    using assms(1) by (auto simp: alloc_table_init_def Let_def c_def SIZEOF_INT_def split: if_splits)
  have "unat (of_nat ALLOC_HASH_SIZE :: s32) = ALLOC_HASH_SIZE"
    by (simp add: ALLOC_HASH_SIZE_def)
  moreover have "(of_nat ALLOC_HASH_SIZE :: s32) \<noteq> 0"
    by (simp add: ALLOC_HASH_SIZE_def)
  ultimately show ?thesis
    using c by (simp add: t table_inv_def bucket_indices_def)
qed

lemma bucket_indices_records:
  assumes "take (count t) rs = take (count t) (records t)" and "count t \<le> length rs"
    and "count t \<le> length (records t)" and "hash_size t' = hash_size t" and "count t' = count t"
    and "records t' = rs"
  shows "bucket_indices t' b = bucket_indices t b"
proof -
  have "rs ! i = records t ! i" if "i < count t" for i
    using that assms(1) by (metis nth_take)
  then show ?thesis
    unfolding bucket_indices_def using assms(4-6)
    by (intro filter_cong) (auto simp: bucket_of_def)
qed

text \<open>What growing keeps, whether or not the allocator delivers.\<close>

lemma grow_inv:
  assumes inv: "table_inv t" and cap: "capacity t \<le> 2 ^ 31"
    and g: "alloc_table_grow hp t = (err, t')"
  shows "table_inv t' \<and> count t' = count t \<and> take (count t) (records t') = take (count t) (records t) \<and>
         hash_size t' = hash_size t \<and> (err = None \<longrightarrow> capacity t' = 2 * capacity t)"
proof -
  have m: "size_mult (capacity t) 2 = capacity t * 2"
    "size_mult (capacity t * 2) SIZEOF_RECORD div SIZEOF_RECORD = capacity t * 2"
    "size_mult (capacity t * 2) SIZEOF_INT div SIZEOF_INT = capacity t * 2"
    using cap by (simp_all add: size_mult_small SIZEOF_RECORD_def SIZEOF_INT_def)
  from inv have l: "count t \<le> capacity t" "capacity t \<le> length (records t)" "length (hash_next t) = capacity t"
    by (simp_all add: table_inv_def)
  define rs where "rs = resize (capacity t * 2) (junk_record hp) (records t)"
  have rs: "take (count t) rs = take (count t) (records t)" "length rs = capacity t * 2"
    using l by (simp_all add: rs_def take_resize)
  have fill: "fill_from (capacity t) (capacity t * 2) (resize (capacity t * 2) (junk_int hp) (hash_next t)) =
      hash_next t @ replicate (capacity t) (-1)"
    using fill_from_resize [of "hash_next t" "capacity t * 2"] l by simp
  have g': "(err, t') =
      (if \<not> realloc_ok hp (size_mult (capacity t * 2) SIZEOF_RECORD) then (Some ENOMEM, t)
       else if \<not> realloc_ok hp (size_mult (capacity t * 2) SIZEOF_INT) then (Some ENOMEM, t\<lparr>records := rs\<rparr>)
       else (None, t\<lparr>records := rs, hash_next := hash_next t @ replicate (capacity t) (-1),
                     capacity := capacity t * 2\<rparr>))"
    using g unfolding alloc_table_grow_def Let_def m by (simp add: m rs_def fill split: if_splits)
  have bi: "bucket_indices (t\<lparr>records := rs\<rparr>) = bucket_indices t"
    "bucket_indices (t\<lparr>records := rs, hash_next := nx, capacity := k\<rparr>) = bucket_indices t" for nx k
    using rs l by (auto intro!: bucket_indices_records)
  show ?thesis
    using g' inv rs l by (auto simp: table_inv_def bi chain_append split: if_splits)
qed

section \<open>Insertion\<close>

lemma int_of_size_small: "i < 2 ^ 31 \<Longrightarrow> int_of_size i = int i"
proof -
  assume "i < 2 ^ 31"
  then have "sint (of_nat i :: s32) = int i"
    by (simp add: signed_of_nat signed_take_bit_int_eq_self)
  then show ?thesis by (simp add: int_of_size_def)
qed

text \<open>The table after a record was stored at index \<open>count t\<close> of a table with room.\<close>

definition pushed :: "alloc_record \<Rightarrow> alloc_table \<Rightarrow> alloc_table" where
  "pushed rec t =
     (let b = bucket_of t (ar_addr rec) in
      t\<lparr>records := (records t)[count t := rec],
        hash_next := (hash_next t)[count t := hash_buckets t ! b],
        hash_buckets := (hash_buckets t)[b := int (count t)],
        count := Suc (count t)\<rparr>)"

lemma pushed_simps:
  "records (pushed rec t) = (records t)[count t := rec]" "count (pushed rec t) = Suc (count t)"
  "hash_size (pushed rec t) = hash_size t" "capacity (pushed rec t) = capacity t"
  "length (hash_buckets (pushed rec t)) = length (hash_buckets t)"
  "length (hash_next (pushed rec t)) = length (hash_next t)"
  by (simp_all add: pushed_def Let_def)

lemma bucket_indices_pushed:
  assumes "count t < length (records t)"
  shows "bucket_indices (pushed rec t) b =
     (if bucket_of t (ar_addr rec) = b then [count t] else []) @ bucket_indices t b"
proof -
  have "filter (\<lambda>i. bucket_of (pushed rec t) (ar_addr (records (pushed rec t) ! i)) = b) (rev [0..<count t]) =
        bucket_indices t b"
    unfolding bucket_indices_def
    by (intro filter_cong) (auto simp: pushed_simps bucket_of_def)
  then show ?thesis
    using assms by (simp add: bucket_indices_def pushed_simps bucket_of_def)
qed

lemma pushed_inv:
  assumes inv: "table_inv t" and room: "count t < capacity t" "count t < 2 ^ 31"
  shows "table_inv (pushed rec t)"
proof -
  let ?b0 = "bucket_of t (ar_addr rec)"
  from inv have s: "?b0 < length (hash_buckets t)" "count t < length (records t)" "count t < length (hash_next t)"
    using room by (auto simp: table_inv_def bucket_lt)
  have notin: "count t \<notin> set (bucket_indices t b)" for b
    by (simp add: bucket_indices_def)
  have "chain (hash_next (pushed rec t)) (hash_buckets (pushed rec t) ! b) (bucket_indices (pushed rec t) b)"
    if b: "b < length (hash_buckets t)" for b
  proof (cases "b = ?b0")
    case True
    with inv s notin show ?thesis
      by (simp add: bucket_indices_pushed) (simp add: pushed_def Let_def chain_update table_inv_def)
  next
    case False
    with inv s notin b show ?thesis
      by (simp add: bucket_indices_pushed) (simp add: pushed_def Let_def chain_update table_inv_def)
  qed
  with inv room show ?thesis by (auto simp: table_inv_def pushed_simps)
qed

lemma insert_pushed:
  assumes inv: "table_inv t" and room: "count t < capacity t" "count t < 2 ^ 31"
  shows "alloc_table_insert_hash (count t)
           (t\<lparr>records := (records t)[count t := rec], hash_next := (hash_next t)[count t := -1]\<rparr>)
         = Some ((pushed rec t)\<lparr>count := count t\<rparr>)"
proof -
  let ?t = "t\<lparr>records := (records t)[count t := rec], hash_next := (hash_next t)[count t := -1]\<rparr>"
  have b: "bucket_of ?t a = bucket_of t a" for a by (simp add: bucket_of_def)
  from inv have s: "bucket_of t (ar_addr rec) < length (hash_buckets t)"
    "count t < length (records t)" "count t < length (hash_next t)"
    using room by (auto simp: table_inv_def bucket_lt)
  then show ?thesis
    using room by (simp add: alloc_table_insert_hash_def b Let_def pushed_def int_of_size_small)
qed

text \<open>
  Adding a record to a well-formed table: either it is pushed, after growing if need be, or the
  allocator failed and the stored records are as before.
\<close>

lemma add_alloc_record_cases:
  assumes inv: "table_inv t" and room: "count t < 2 ^ 31"
  obtains
    (pushed) u where "add_alloc_record hp rec t = Some (None, pushed rec u)" "table_inv u"
      "count u < capacity u" "count u = count t" "hash_size u = hash_size t"
      "take (count t) (records u) = take (count t) (records t)"
  | (failed) u where "add_alloc_record hp rec t = Some (Some ENOMEM, u)" "table_inv u"
      "count u = count t" "take (count t) (records u) = take (count t) (records t)"
      "count t = capacity t"
proof -
  have push: "do { v \<leftarrow> alloc_table_insert_hash (count u)
        (u\<lparr>records := (records u)[count u := rec], hash_next := (hash_next u)[count u := -1]\<rparr>);
        Some (None, v\<lparr>count := Suc (count v)\<rparr>) } = Some (None :: errno option, pushed rec u)"
    if "table_inv u" "count u < capacity u" "count u = count t" for u
    using insert_pushed [OF that(1,2), of rec] that(3) room by (simp add: pushed_def Let_def)
  have bounds: "count u < length (records u)" "count u < length (hash_next u)"
    if "table_inv u" "count u < capacity u" for u
    using that by (auto simp: table_inv_def)
  show thesis
  proof (cases "capacity t \<le> count t")
    case False
    then have "add_alloc_record hp rec t = Some (None, pushed rec t)"
      using push [of t] bounds [of t] inv by (simp add: add_alloc_record_def)
    with False inv show thesis by (intro that(1) [of t]) auto
  next
    case True
    obtain err u where g: "alloc_table_grow hp t = (err, u)" by fastforce
    have cap: "count t = capacity t" "0 < capacity t"
      using True inv by (auto simp: table_inv_def)
    have u: "table_inv u" "count u = count t" "take (count t) (records u) = take (count t) (records t)"
      "hash_size u = hash_size t" "err = None \<Longrightarrow> capacity u = 2 * capacity t"
      using grow_inv [OF inv _ g] cap room by auto
    show thesis
    proof (cases err)
      case None
      then have "count u < capacity u" using u(2,5) cap by simp
      then have "add_alloc_record hp rec t = Some (None, pushed rec u)"
        using push [of u] bounds [of u] u True g None by (simp add: add_alloc_record_def)
      with u \<open>count u < capacity u\<close> show thesis by (intro that(1) [of u]) auto
    next
      case (Some e)
      then have "add_alloc_record hp rec t = Some (Some ENOMEM, u)"
        using True g by (simp add: add_alloc_record_def)
      with u cap show thesis by (intro that(2) [of u]) auto
    qed
  qed
qed

text \<open>A heap that grants every request never makes an insertion fail.\<close>

lemma add_alloc_record_granted:
  assumes "add_alloc_record hp rec t = Some (Some e, u)"
  shows "\<exists>n. \<not> realloc_ok hp n"
  using assms
  by (auto simp: add_alloc_record_def alloc_table_grow_def Let_def bind_eq_Some_conv
      split: if_splits prod.splits)

section \<open>Lookup\<close>

lemma find_live_alloc_newest:
  assumes "table_inv t"
  shows "find_live_alloc t a = Some (newest_live t a)"
proof -
  let ?b = "bucket_of t a" and ?P = "\<lambda>i. ar_live (records t ! i) \<noteq> 0 \<and> ar_addr (records t ! i) = a"
  have b: "?b < length (hash_buckets t)"
    using assms by (simp add: table_inv_def bucket_lt)
  have "walk_chain t a (hash_buckets t ! ?b) = Some (find ?P (bucket_indices t ?b))"
    using assms b by (intro walk_chain_find) (auto simp: table_inv_def bucket_indices_def)
  also have "find ?P (bucket_indices t ?b) = newest_live t a"
    unfolding bucket_indices_def newest_live_def by (rule find_filter) simp
  finally show ?thesis using b by (simp add: find_live_alloc_def)
qed

section \<open>The stack of live records of an address\<close>

lemma live_stack_indices:
  assumes "count t \<le> length (records t)"
  shows "live_stack t a =
    map ((!) (records t))
      (filter (\<lambda>i. ar_live (records t ! i) \<noteq> 0 \<and> ar_addr (records t ! i) = a) (rev [0..<count t]))"
proof -
  have "take (count t) (records t) = map ((!) (records t)) [0..<count t]"
    using assms by (intro nth_equalityI) auto
  then show ?thesis
    by (simp add: live_stack_def rev_map filter_map comp_def)
qed

lemma find_filter_hd: "find P xs = (case filter P xs of [] \<Rightarrow> None | x # _ \<Rightarrow> Some x)"
  by (induction xs) auto

lemma newest_live_stack:
  assumes "count t \<le> length (records t)"
  shows "(case newest_live t a of None \<Rightarrow> live_stack t a = []
          | Some i \<Rightarrow> i < count t \<and> ar_live (records t ! i) \<noteq> 0 \<and> ar_addr (records t ! i) = a \<and>
                     live_stack t a = records t ! i # tl (live_stack t a))"
proof -
  let ?P = "\<lambda>i. ar_live (records t ! i) \<noteq> 0 \<and> ar_addr (records t ! i) = a"
  show ?thesis
  proof (cases "filter ?P (rev [0..<count t])")
    case Nil
    then show ?thesis
      by (simp add: newest_live_def live_stack_indices [OF assms] find_filter_hd)
  next
    case (Cons i rest)
    then have "i \<in> set (filter ?P (rev [0..<count t]))" by (simp del: set_filter)
    then have "i < count t \<and> ?P i" by simp
    with Cons show ?thesis
      by (simp add: newest_live_def live_stack_indices [OF assms] find_filter_hd)
  qed
qed

lemma live_stack_pushed:
  assumes "count t < length (records t)"
  shows "live_stack (pushed rec t) a =
     (if ar_live rec \<noteq> 0 \<and> ar_addr rec = a then rec # live_stack t a else live_stack t a)"
  using assms by (simp add: live_stack_def pushed_simps take_Suc_conv_app_nth)

lemma live_stack_cong:
  "count u = count t \<Longrightarrow> take (count t) (records u) = take (count t) (records t) \<Longrightarrow>
   live_stack u = live_stack t"
  by (simp add: live_stack_def fun_eq_iff)

section \<open>Release\<close>

lemma released_inv:
  assumes "table_inv t"
  shows "table_inv (released i ts t)"
proof -
  have "bucket_indices (released i ts t) b = bucket_indices t b" for b
  proof -
    have "ar_addr (records (released i ts t) ! j) = ar_addr (records t ! j)" for j
      by (cases "i < length (records t)")
        (auto simp: released_def nth_list_update list_update_beyond)
    then show ?thesis
      by (simp add: bucket_indices_def bucket_of_def) (simp add: released_def)
  qed
  with assms show ?thesis by (auto simp: table_inv_def released_def)
qed

lemma filter_tl_distinct:
  "distinct xs \<Longrightarrow> filter P xs = i # rest \<Longrightarrow> filter (\<lambda>x. P x \<and> x \<noteq> i) xs = rest"
proof -
  assume d: "distinct xs" and f: "filter P xs = i # rest"
  have "filter (\<lambda>x. P x \<and> x \<noteq> i) xs = filter (\<lambda>x. x \<noteq> i) (filter P xs)"
    by (simp add: conj_commute)
  moreover have "i \<notin> set rest"
    using distinct_filter [OF d, of P] f by simp
  ultimately show ?thesis
    using f by (auto simp: filter_id_conv)
qed

lemma live_stack_released:
  assumes "count t \<le> length (records t)" and n: "newest_live t a = Some i"
  shows "live_stack (released i ts t) = (live_stack t)(a := tl (live_stack t a))"
proof
  fix b
  let ?P = "\<lambda>b i. ar_live (records t ! i) \<noteq> 0 \<and> ar_addr (records t ! i) = b"
  let ?is = "rev [0..<count t]"
  have i: "i < count t" "ar_addr (records t ! i) = a"
    using newest_live_stack [OF assms(1), of a] n by auto
  obtain rest where r: "filter (?P a) ?is = i # rest"
    using n by (auto simp: newest_live_def find_filter_hd split: list.splits)
  have rel: "live_stack (released i ts t) b =
      map ((!) (records (released i ts t))) (filter (\<lambda>j. ?P b j \<and> j \<noteq> i) ?is)"
  proof -
    have "count (released i ts t) \<le> length (records (released i ts t))"
      using assms by (simp add: released_def)
    moreover have "(ar_live (records (released i ts t) ! j) \<noteq> 0 \<and> ar_addr (records (released i ts t) ! j) = b) =
        (?P b j \<and> j \<noteq> i)" if "j < count t" for j
      using that assms i by (auto simp: released_def nth_list_update)
    then have "filter (\<lambda>j. ar_live (records (released i ts t) ! j) \<noteq> 0 \<and>
          ar_addr (records (released i ts t) ! j) = b) ?is = filter (\<lambda>j. ?P b j \<and> j \<noteq> i) ?is"
      by (intro filter_cong) auto
    moreover have "count (released i ts t) = count t" by (simp add: released_def)
    ultimately show ?thesis
      using live_stack_indices [of "released i ts t" b] assms(1) by (simp add: released_def)
  qed
  have same: "map ((!) (records (released i ts t))) (filter (\<lambda>j. ?P b j \<and> j \<noteq> i) ?is) =
      map ((!) (records t)) (filter (\<lambda>j. ?P b j \<and> j \<noteq> i) ?is)"
    by (auto simp: released_def)
  show "live_stack (released i ts t) b = ((live_stack t)(a := tl (live_stack t a))) b"
  proof (cases "b = a")
    case True
    have "filter (\<lambda>j. ?P a j \<and> j \<noteq> i) ?is = rest"
      using r by (intro filter_tl_distinct) simp_all
    then have "live_stack (released i ts t) a = map ((!) (records t)) rest"
      using rel same True by (simp only:)
    with True r show ?thesis
      by (simp add: live_stack_indices [OF assms(1)])
  next
    case False
    then have "filter (\<lambda>j. ?P b j \<and> j \<noteq> i) ?is = filter (?P b) ?is"
      using i by (intro filter_cong) auto
    then have "live_stack (released i ts t) b = map ((!) (records t)) (filter (?P b) ?is)"
      using rel same by (simp only:)
    with False show ?thesis
      by (simp add: live_stack_indices [OF assms(1)])
  qed
qed

section \<open>Tables the collector can build\<close>

inductive table_reachable :: "alloc_table \<Rightarrow> bool" where
  init: "alloc_table_init hp cap = Inr t \<Longrightarrow> cap < 2 ^ 40 \<Longrightarrow> table_reachable t"
| add: "table_reachable t \<Longrightarrow> count t < 2 ^ 31 \<Longrightarrow> add_alloc_record hp rec t = Some (err, t') \<Longrightarrow>
    table_reachable t'"
| release: "table_reachable t \<Longrightarrow> table_reachable (released i ts t)"

lemma table_reachable_inv: "table_reachable t \<Longrightarrow> table_inv t"
proof (induction rule: table_reachable.induct)
  case (init hp cap t)
  then show ?case using init_inv by blast
next
  case (add t hp rec err t')
  then show ?case
    by (cases rule: add_alloc_record_cases [where hp = hp and rec = rec, OF add.IH add.hyps(2)])
      (auto intro: pushed_inv)
next
  case (release t i ts)
  then show ?case by (simp add: released_inv)
qed

text \<open>
  C9: On every table that can be built the walk of the hash chain ends inside the arrays, and it
  finds what a search through all records from the newest to the oldest finds.
\<close>

theorem hash_lookup_is_linear_search:
  assumes "table_reachable t"
  shows "find_live_alloc t a = Some (newest_live t a)"
  by (rule find_live_alloc_newest [OF table_reachable_inv [OF assms]])

definition good_heap :: heap where
  "good_heap = \<lparr>calloc_ok = (\<lambda>_ _. True), malloc_ok = (\<lambda>_. True), realloc_ok = (\<lambda>_. True),
                 junk_record = (\<lambda>_. zero_record), junk_int = (\<lambda>_. 77)\<rparr>"

text \<open>The table for four records that this heap gives.\<close>

definition fresh_table :: alloc_table where
  "fresh_table = (case alloc_table_init good_heap 4 of Inr t \<Rightarrow> t | Inl _ \<Rightarrow> undefined)"

lemma fresh_table: "alloc_table_init good_heap 4 = Inr fresh_table"
  by (simp add: fresh_table_def alloc_table_init_def good_heap_def Let_def)

lemma fresh_table_inv: "table_inv fresh_table" "count fresh_table = 0" "live_stack fresh_table a = []"
  using init_inv [OF fresh_table] by (simp_all add: live_stack_def)

theorem hash_lookup_is_linear_search_witness:
  "find_live_alloc fresh_table 64 = Some None"
proof -
  have "table_reachable fresh_table" by (rule table_reachable.init [OF fresh_table]) simp
  then show ?thesis
    using hash_lookup_is_linear_search [of fresh_table 64] fresh_table_inv by (simp add: newest_live_def)
qed

text \<open>
  C10: Insertion: it is defined on every well-formed table with fewer than \<open>2 ^ 31\<close> records; a live
  record that was stored is found under its address, and the other addresses are found as
  before; when memory was refused nothing changes for any address.
\<close>

theorem add_then_find:
  assumes inv: "table_inv t" and room: "count t < 2 ^ 31" and live: "ar_live rec \<noteq> 0"
  shows "\<exists>err t'. add_alloc_record hp rec t = Some (err, t') \<and> table_inv t' \<and>
    (err = None \<longrightarrow> find_live_alloc t' (ar_addr rec) = Some (Some (count t)) \<and>
       records t' ! count t = rec \<and>
       (\<forall>a. a \<noteq> ar_addr rec \<longrightarrow> find_live_alloc t' a = find_live_alloc t a)) \<and>
    (err \<noteq> None \<longrightarrow> (\<forall>a. find_live_alloc t' a = find_live_alloc t a))"
proof -
  have same: "newest_live u a = newest_live t a"
    if "count u = count t" "take (count t) (records u) = take (count t) (records t)"
    for u a
  proof -
    have "records u ! i = records t ! i" if "i < count t" for i
      using \<open>take (count t) (records u) = take (count t) (records t)\<close> that by (metis nth_take)
    then show ?thesis
      unfolding newest_live_def \<open>count u = count t\<close> find_Some_iff
      by (intro find_cong) auto
  qed
  show ?thesis
  proof (cases rule: add_alloc_record_cases [where hp = hp and rec = rec, OF inv room])
    case (1 u)
    then have l: "count t < length (records u)" by (auto simp: table_inv_def)
    have inv': "table_inv (pushed rec u)" using 1 room by (intro pushed_inv) auto
    have old: "find P (rev [0..<count t]) = find Q (rev [0..<count t])"
      if "\<And>i. i < count t \<Longrightarrow> P i = Q i" for P Q :: "nat \<Rightarrow> bool"
      using that by (intro find_cong) auto
    have new: "newest_live (pushed rec u) a = (if a = ar_addr rec then Some (count t) else newest_live u a)" for a
      using l 1(4) live by (simp add: newest_live_def pushed_simps) (auto intro!: old)
    show ?thesis
      using 1 inv inv' new same [of u] l
      by (intro exI [of _ None] exI [of _ "pushed rec u"])
        (simp add: find_live_alloc_newest pushed_simps)
  next
    case (2 u)
    then show ?thesis
      using inv same [of u] by (intro exI [of _ "Some ENOMEM"] exI [of _ u]) (simp add: find_live_alloc_newest)
  qed
qed

theorem add_then_find_witness:
  "\<exists>err t'. add_alloc_record good_heap (zero_record\<lparr>ar_addr := 64, ar_live := 1\<rparr>) fresh_table = Some (err, t') \<and>
     table_inv t'"
  using add_then_find [of fresh_table "zero_record\<lparr>ar_addr := 64, ar_live := 1\<rparr>" good_heap] fresh_table_inv
  by auto

end
