(* ===== verification/Collector.thy ===== *)
theory Collector
  imports Alloc_Table_Correct
begin

text \<open>
  The event handler of the collector and the queries on its table, \<open>src/collector/collector.c\<close>.
  An event is what \<open>ring_buffer__poll\<close> hands to \<open>handle_event\<close>: a record of the kernel's layout,
  read through the collector's declaration of it. A read beyond the words the kernel sent has no
  result. The counters that are \<open>static\<close> in \<open>handle_event\<close> are fields of the state.
\<close>

section \<open>State\<close>

definition MAX_ATTACH_POINTS :: nat where
  "MAX_ATTACH_POINTS = 24"

record collector_ctx =
  ringbuf_fd :: int
  stack_map_fd :: int
  active_map_fd :: int
  completed_map_fd :: int
  table :: alloc_table
  ringbuf :: bool
  running :: int
  target_pid :: u32
  binary_path :: string
  links :: "nat list"
  link_count :: nat
  log_count :: nat
  calloc_log_count :: nat
  realloc_log_count :: nat

text \<open>\<open>calloc(1, sizeof(*ctx))\<close>.\<close>

definition zero_ctx :: collector_ctx where
  "zero_ctx =
     \<lparr>ringbuf_fd = 0, stack_map_fd = 0, active_map_fd = 0, completed_map_fd = 0,
      table = \<lparr>records = [], count = 0, capacity = 0, hash_buckets = [], hash_next = [], hash_size = 0\<rparr>,
      ringbuf = False, running = 0, target_pid = 0, binary_path = [],
      links = replicate MAX_ATTACH_POINTS 0, link_count = 0,
      log_count = 0, calloc_log_count = 0, realloc_log_count = 0\<rparr>"

primrec errno_code :: "errno \<Rightarrow> int" where
  "errno_code ENOMEM = 12"
| "errno_code EINVAL = 22"
| "errno_code ENOENT = 2"

section \<open>The event handler\<close>

definition read_word :: "mem_event \<Rightarrow> nat \<Rightarrow> u64 option" where
  "read_word e i = (if i < length (ev_words e) then Some (ev_words e ! i) else None)"

text \<open>\<open>memcpy(rec.stack_pcs, evt->member.pcs, evt->stack_depth * sizeof(uint64_t))\<close>, with its guard.\<close>

definition copy_pcs :: "nat \<Rightarrow> mem_event \<Rightarrow> u64 list option" where
  "copy_pcs base e =
     (let depth = unat (ev_stack_depth e)
      in if 0 < depth \<and> depth \<le> COLLECTOR_MAX_STACK_DEPTH then
           if base + depth \<le> length (ev_words e)
           then Some (overwrite (ar_stack_pcs zero_record) (take depth (drop base (ev_words e))))
           else None
         else Some (ar_stack_pcs zero_record))"

text \<open>The record that the three allocation events build; \<open>base\<close> is where the member has its counters.\<close>

definition record_of_event :: "nat \<Rightarrow> mem_event \<Rightarrow> alloc_record option" where
  "record_of_event base e =
     do {
       addr \<leftarrow> read_word e 0;
       sz \<leftarrow> read_word e 1;
       pcs \<leftarrow> copy_pcs base e;
       Some (zero_record
         \<lparr>ar_addr := addr, ar_size := sz, ar_timestamp_alloc := ev_timestamp e,
          ar_pid := ev_pid e, ar_tid := ev_tid e, ar_live := 1, ar_stack_id := ev_stack_id e,
          ar_stack_depth := ev_stack_depth e, ar_stack_pcs := pcs, ar_hash_next := -1\<rparr>)
     }"

text \<open>The words a debug message prints: all of them have to be there.\<close>

definition log_words :: "nat list \<Rightarrow> mem_event \<Rightarrow> unit option" where
  "log_words is e = (if list_all (\<lambda>i. i < length (ev_words e)) is then Some () else None)"

text \<open>\<open>add_alloc_record(&cctx->table, &rec)\<close>, whose result the handler ignores.\<close>

definition store_record :: "heap \<Rightarrow> alloc_record \<Rightarrow> collector_ctx \<Rightarrow> collector_ctx option" where
  "store_record hp rec ctx =
     do {
       (err, t) \<leftarrow> add_alloc_record hp rec (table ctx);
       Some (ctx\<lparr>table := t\<rparr>)
     }"

definition handle_malloc_return :: "heap \<Rightarrow> mem_event \<Rightarrow> collector_ctx \<Rightarrow> collector_ctx option" where
  "handle_malloc_return hp e ctx =
     do {
       ctx \<leftarrow> (if log_count ctx < 20 then
                 do {
                   _ \<leftarrow> log_words [0, 1] e;
                   _ \<leftarrow> (if 0 < ev_stack_depth e
                         then log_words [MALLOC_RET_PCS, MALLOC_RET_PCS + 1, MALLOC_RET_PCS + 2] e
                         else Some ());
                   Some (ctx\<lparr>log_count := log_count ctx + 1\<rparr>)
                 }
               else Some ctx);
       rec \<leftarrow> record_of_event MALLOC_RET_PCS e;
       store_record hp rec ctx
     }"

definition handle_calloc_return :: "heap \<Rightarrow> mem_event \<Rightarrow> collector_ctx \<Rightarrow> collector_ctx option" where
  "handle_calloc_return hp e ctx =
     do {
       ctx \<leftarrow> (if calloc_log_count ctx < 10 then
                 do {
                   _ \<leftarrow> log_words [0, 1] e;
                   Some (ctx\<lparr>calloc_log_count := calloc_log_count ctx + 1\<rparr>)
                 }
               else Some ctx);
       rec \<leftarrow> record_of_event CALLOC_RET_PCS e;
       store_record hp rec ctx
     }"

definition handle_realloc_return :: "heap \<Rightarrow> mem_event \<Rightarrow> collector_ctx \<Rightarrow> collector_ctx option" where
  "handle_realloc_return hp e ctx =
     do {
       ctx \<leftarrow> (if realloc_log_count ctx < 10 then
                 do {
                   _ \<leftarrow> log_words [0, 1] e;
                   Some (ctx\<lparr>realloc_log_count := realloc_log_count ctx + 1\<rparr>)
                 }
               else Some ctx);
       rec \<leftarrow> record_of_event REALLOC_RET_PCS e;
       store_record hp rec ctx
     }"

definition handle_free :: "mem_event \<Rightarrow> collector_ctx \<Rightarrow> collector_ctx option" where
  "handle_free e ctx =
     do {
       addr \<leftarrow> read_word e 0;
       r \<leftarrow> find_live_alloc (table ctx) addr;
       (case r of
          None \<Rightarrow> Some ctx
        | Some i \<Rightarrow> Some (ctx\<lparr>table := released i (ev_timestamp e) (table ctx)\<rparr>))
     }"

definition handle_event :: "heap \<Rightarrow> mem_event \<Rightarrow> collector_ctx \<Rightarrow> collector_ctx option" where
  "handle_event hp e ctx =
     (if target_pid ctx \<noteq> 0 \<and> ev_pid e \<noteq> target_pid ctx then Some ctx
      else if ev_type e = event_code EVENT_MALLOC_RETURN then handle_malloc_return hp e ctx
      else if ev_type e = event_code EVENT_CALLOC_RETURN then handle_calloc_return hp e ctx
      else if ev_type e = event_code EVENT_REALLOC_RETURN then handle_realloc_return hp e ctx
      else if ev_type e = event_code EVENT_FREE then handle_free e ctx
      else Some ctx)"

section \<open>Polling, and queries\<close>

text \<open>
  \<open>ring_buffer__poll\<close> calls the handler on every record that is ready. The heap may answer
  differently at each call. \<open>rc\<close> is the number of records it reports, or a negative error.
\<close>

primrec handle_events :: "(heap \<times> mem_event) list \<Rightarrow> collector_ctx \<Rightarrow> collector_ctx option" where
  "handle_events [] ctx = Some ctx"
| "handle_events (x # xs) ctx = do { ctx \<leftarrow> handle_event (fst x) (snd x) ctx; handle_events xs ctx }"

definition collector_poll ::
  "(heap \<times> mem_event) list \<Rightarrow> int \<Rightarrow> collector_ctx option \<Rightarrow> (int \<times> collector_ctx option) option" where
  "collector_poll ready rc c =
     (case c of
        None \<Rightarrow> Some (- errno_code EINVAL, None)
      | Some ctx \<Rightarrow>
          if \<not> ringbuf ctx then Some (- errno_code EINVAL, Some ctx)
          else do { ctx \<leftarrow> handle_events ready ctx; Some (rc, Some ctx) })"

definition collector_stop :: "collector_ctx option \<Rightarrow> int \<times> collector_ctx option" where
  "collector_stop c =
     (case c of
        None \<Rightarrow> (- errno_code EINVAL, None)
      | Some ctx \<Rightarrow> (0, Some (ctx\<lparr>running := 0\<rparr>)))"

definition collector_find_alloc :: "collector_ctx option \<Rightarrow> u64 \<Rightarrow> nat option option" where
  "collector_find_alloc c addr =
     (case c of None \<Rightarrow> Some None | Some ctx \<Rightarrow> find_live_alloc (table ctx) addr)"

text \<open>The two numbers that \<open>collector_dump_allocs\<close> prints below its list of records.\<close>

definition collector_dump_allocs :: "collector_ctx \<Rightarrow> nat \<times> int" where
  "collector_dump_allocs ctx =
     (let t = table ctx
      in (count t, fold (\<lambda>r live. live + ar_live r) (take (count t) (records t)) 0))"

text \<open>
  \<open>collector_resolve_stack\<close>: the buffer has 64 words that are not initialised; the kernel's map,
  declared with the depth of the BPF header, fills at most 32 of them. \<open>lookup\<close> is
  \<open>bpf_map_lookup_elem\<close> and \<open>junk\<close> what the buffer held. The result is the frames stored, or
  an error.
\<close>

function resolve_loop :: "u64 list \<Rightarrow> int \<Rightarrow> nat \<Rightarrow> u64 list" where
  "resolve_loop values max_depth i =
     (if int i < max_depth \<and> i < COLLECTOR_MAX_STACK_DEPTH then
        if values ! i = 0 then [] else values ! i # resolve_loop values max_depth (Suc i)
      else [])"
  by auto

termination
  by (relation "measure (\<lambda>(values, max_depth, i). COLLECTOR_MAX_STACK_DEPTH - i)") auto

declare resolve_loop.simps [simp del]

definition collector_resolve_stack ::
  "(u32 \<Rightarrow> u64 list option) \<Rightarrow> u64 list \<Rightarrow> collector_ctx option \<Rightarrow> s64 \<Rightarrow> int \<Rightarrow> errno + u64 list" where
  "collector_resolve_stack lookup junk c stack_id max_depth =
     (if c = None \<or> sint stack_id < 0 then Inl EINVAL
      else case lookup (ucast stack_id) of
        None \<Rightarrow> Inl ENOENT
      | Some v \<Rightarrow> Inr (resolve_loop (overwrite junk v) max_depth 0))"

end
