(* ===== verification/Bpf_Probes.thy ===== *)
theory Bpf_Probes
  imports Event_Abi
begin

text \<open>
  The kernel side, \<open>src/bpf/memscope.bpf.c\<close>: one handler per probe, over a state that holds the
  BPF maps and what was sent to the ring buffer. The kernel is not under verification: the results
  of its helpers (process id, clock, stack walks, whether a map or the ring buffer accepts an
  entry, whether the scratch element is found) are the fields of an environment that each handler
  call takes as an argument. Tracing output (\<open>bpf_printk\<close>) is left out, and so is the handlers'
  return value, which is always 0.
\<close>

section \<open>State and environment\<close>

record alloc_info =
  ai_size :: u64
  ai_stack_id :: s64
  ai_timestamp :: u64
  ai_pid :: u32
  ai_tid :: u32

record stack_pcs_value =
  sp_depth :: u32
  sp_pcs :: "u64 list"

record pending_info =
  pi_size :: u64
  pi_stack_id :: s32

record bpf_state =
  active_allocs :: "u64 \<rightharpoonup> alloc_info"
  completed_allocs :: "u64 \<rightharpoonup> alloc_info"
  pending_mallocs :: "u32 \<rightharpoonup> pending_info"
  pending_callocs :: "u32 \<rightharpoonup> pending_info"
  pending_reallocs :: "u32 \<rightharpoonup> pending_info"
  pending_stacks_malloc :: "u32 \<rightharpoonup> stack_pcs_value"
  pending_stacks_calloc :: "u32 \<rightharpoonup> stack_pcs_value"
  pending_stacks_realloc :: "u32 \<rightharpoonup> stack_pcs_value"
  tmp_stack_buf :: stack_pcs_value
  tmp_evt_buf :: mem_event
  ring :: "mem_event list"

datatype bpf_map =
    ACTIVE_ALLOCS
  | COMPLETED_ALLOCS
  | PENDING_MALLOCS
  | PENDING_CALLOCS
  | PENDING_REALLOCS
  | PENDING_STACKS_MALLOC
  | PENDING_STACKS_CALLOC
  | PENDING_STACKS_REALLOC

record bpf_env =
  current_pid_tgid :: u64
  ktime_get_ns :: u64
  get_stackid_ret :: "u64 \<Rightarrow> s64"
  get_stack_ret :: s64
  get_stack_data :: "u64 list"
  map_accepts :: "bpf_map \<Rightarrow> bool"
  tmp_stack_present :: bool
  tmp_evt_present :: bool
  ringbuf_accepts :: bool

text \<open>\<open>(__u32)pid_tgid\<close> and \<open>pid_tgid >> 32\<close>.\<close>

definition env_tid :: "bpf_env \<Rightarrow> u32" where
  "env_tid env = ucast (current_pid_tgid env)"

definition env_pid :: "bpf_env \<Rightarrow> u32" where
  "env_pid env = ucast (drop_bit 32 (current_pid_tgid env))"

definition BPF_F_USER_STACK :: u64 where
  "BPF_F_USER_STACK = push_bit 8 1"

definition BPF_F_FAST_STACK_CMP :: u64 where
  "BPF_F_FAST_STACK_CMP = push_bit 9 1"

definition BPF_F_REUSE_STACKID :: u64 where
  "BPF_F_REUSE_STACKID = push_bit 10 1"

text \<open>
  \<open>bpf_map_update_elem(..., BPF_ANY)\<close> with its result ignored: the entry is stored when the kernel
  accepts it and the map is unchanged when it does not (the map is full).
\<close>

definition bpf_update :: "bool \<Rightarrow> ('k \<rightharpoonup> 'v) \<Rightarrow> 'k \<Rightarrow> 'v \<Rightarrow> ('k \<rightharpoonup> 'v)" where
  "bpf_update accepted m k v = (if accepted then m(k \<mapsto> v) else m)"

definition bpf_delete :: "('k \<rightharpoonup> 'v) \<Rightarrow> 'k \<Rightarrow> ('k \<rightharpoonup> 'v)" where
  "bpf_delete m k = m(k := None)"

section \<open>Helpers\<close>

definition emit_event :: "bpf_env \<Rightarrow> bpf_state \<Rightarrow> bpf_state" where
  "emit_event env st =
     (if ringbuf_accepts env then st\<lparr>ring := ring st @ [tmp_evt_buf st]\<rparr> else st)"

definition get_stack_id :: "bpf_env \<Rightarrow> s64" where
  "get_stack_id env = get_stackid_ret env (BPF_F_USER_STACK OR BPF_F_FAST_STACK_CMP)"

text \<open>
  The stack id of the entry probes, truncated to \<open>__s32\<close>, with one retry without flags.
\<close>

definition entry_stack_id :: "bpf_env \<Rightarrow> s32" where
  "entry_stack_id env =
     (let sid = ucast (get_stackid_ret env
                  (BPF_F_USER_STACK OR BPF_F_FAST_STACK_CMP OR BPF_F_REUSE_STACKID)) :: s32
      in if sint sid < 0 then ucast (get_stackid_ret env 0) else sid)"

text \<open>
  The entry probes' use of the scratch stack buffer: clear it, let \<open>bpf_get_stack\<close> write into it,
  and turn the returned byte count into a depth.
\<close>

definition capture_stack :: "bpf_env \<Rightarrow> stack_pcs_value" where
  "capture_stack env =
     (let pcs = overwrite (replicate BPF_MAX_STACK_DEPTH 0) (get_stack_data env);
          stack_len = ucast (get_stack_ret env) :: s32
      in if 0 < sint stack_len
         then \<lparr>sp_depth = ucast ((scast stack_len :: u64) div 8), sp_pcs = pcs\<rparr>
         else \<lparr>sp_depth = 0, sp_pcs = pcs\<rparr>)"

text \<open>
  The return probes' copy of the pending stack into the event, at word \<open>base\<close> of the union.
\<close>

definition attach_stack :: "nat \<Rightarrow> stack_pcs_value option \<Rightarrow> mem_event \<Rightarrow> mem_event" where
  "attach_stack base stack_val e =
     (case stack_val of
        None \<Rightarrow> e\<lparr>ev_stack_depth := 0\<rparr>
      | Some sv \<Rightarrow>
          if 0 < sp_depth sv then
            let depth = (if of_nat BPF_MAX_STACK_DEPTH < sp_depth sv
                         then of_nat BPF_MAX_STACK_DEPTH else sp_depth sv)
            in e\<lparr>ev_stack_depth := depth,
                 ev_words := copy_words base (min (unat depth) BPF_MAX_STACK_DEPTH)
                               (sp_pcs sv) (ev_words e)\<rparr>
          else e\<lparr>ev_stack_depth := 0\<rparr>)"

text \<open>
  The common prefix of every event: a cleared scratch record with its type, process, thread and
  time stamp.
\<close>

definition header :: "event_type \<Rightarrow> bpf_env \<Rightarrow> mem_event" where
  "header ty env =
     zero_event\<lparr>ev_type := event_code ty, ev_pid := env_pid env, ev_tid := env_tid env,
                ev_timestamp := ktime_get_ns env\<rparr>"

definition make_alloc_info :: "pending_info \<Rightarrow> bpf_env \<Rightarrow> alloc_info" where
  "make_alloc_info p env =
     \<lparr>ai_size = pi_size p, ai_stack_id = scast (pi_stack_id p),
      ai_timestamp = ktime_get_ns env, ai_pid = env_pid env, ai_tid = env_tid env\<rparr>"

text \<open>
  A handler that sends an event is split at its call of \<open>emit_event\<close>: the first part returns the
  state and whether the call is reached. \<open>finish\<close> makes the call, which reads the shared scratch
  record.
\<close>

definition finish :: "bpf_env \<Rightarrow> bpf_state \<times> bool \<Rightarrow> bpf_state" where
  "finish env r = (if snd r then emit_event env (fst r) else fst r)"

section \<open>Probes on malloc\<close>

definition uprobe_malloc_entry :: "bpf_env \<Rightarrow> u64 \<Rightarrow> bpf_state \<Rightarrow> bpf_state" where
  "uprobe_malloc_entry env sz st =
     (let tid = env_tid env;
          pending = \<lparr>pi_size = sz, pi_stack_id = entry_stack_id env\<rparr>;
          st = st\<lparr>pending_mallocs :=
                   bpf_update (map_accepts env PENDING_MALLOCS) (pending_mallocs st) tid pending\<rparr>
      in if \<not> tmp_stack_present env then st
         else let sv = capture_stack env
              in st\<lparr>tmp_stack_buf := sv,
                    pending_stacks_malloc :=
                      bpf_update (map_accepts env PENDING_STACKS_MALLOC)
                        (pending_stacks_malloc st) tid sv\<rparr>)"

definition uprobe_malloc_return_prepare :: "bpf_env \<Rightarrow> u64 \<Rightarrow> bpf_state \<Rightarrow> bpf_state \<times> bool" where
  "uprobe_malloc_return_prepare env ret st =
     (let tid = env_tid env; addr = ret
      in if addr = 0 then (st, False)
         else case pending_mallocs st tid of
           None \<Rightarrow> (st, False)
         | Some pending \<Rightarrow>
             let st = st\<lparr>pending_mallocs := bpf_delete (pending_mallocs st) tid\<rparr>;
                 info = make_alloc_info pending env;
                 st = st\<lparr>active_allocs :=
                          bpf_update (map_accepts env ACTIVE_ALLOCS) (active_allocs st) addr info\<rparr>
             in if \<not> tmp_evt_present env then (st, False)
                else
                  let evt = (header EVENT_MALLOC_RETURN env)\<lparr>ev_stack_id := ai_stack_id info\<rparr>;
                      evt = put_word 1 (pi_size pending) (put_word 0 addr evt);
                      evt = attach_stack MALLOC_RET_PCS (pending_stacks_malloc st tid) evt
                  in (st\<lparr>tmp_evt_buf := evt,
                         pending_stacks_malloc := bpf_delete (pending_stacks_malloc st) tid\<rparr>,
                      True))"

definition uprobe_malloc_return :: "bpf_env \<Rightarrow> u64 \<Rightarrow> bpf_state \<Rightarrow> bpf_state" where
  "uprobe_malloc_return env ret st = finish env (uprobe_malloc_return_prepare env ret st)"

section \<open>Probe on free\<close>

definition uprobe_free_prepare :: "bpf_env \<Rightarrow> u64 \<Rightarrow> bpf_state \<Rightarrow> bpf_state \<times> bool" where
  "uprobe_free_prepare env ptr st =
     (let addr = ptr
      in if addr = 0 then (st, False)
         else
           let st = (case active_allocs st addr of
                       None \<Rightarrow> st
                     | Some info \<Rightarrow>
                         st\<lparr>completed_allocs :=
                              bpf_update (map_accepts env COMPLETED_ALLOCS)
                                (completed_allocs st) addr info,
                            active_allocs := bpf_delete (active_allocs st) addr\<rparr>)
           in if \<not> tmp_evt_present env then (st, False)
              else (st\<lparr>tmp_evt_buf :=
                        (put_word 0 addr (header EVENT_FREE env))\<lparr>ev_stack_id := get_stack_id env\<rparr>\<rparr>,
                    True))"

definition uprobe_free :: "bpf_env \<Rightarrow> u64 \<Rightarrow> bpf_state \<Rightarrow> bpf_state" where
  "uprobe_free env ptr st = finish env (uprobe_free_prepare env ptr st)"

section \<open>Probes on calloc\<close>

definition uprobe_calloc_entry :: "bpf_env \<Rightarrow> u64 \<Rightarrow> u64 \<Rightarrow> bpf_state \<Rightarrow> bpf_state" where
  "uprobe_calloc_entry env nmemb sz st =
     (let tid = env_tid env;
          pending = \<lparr>pi_size = nmemb * sz, pi_stack_id = entry_stack_id env\<rparr>;
          st = st\<lparr>pending_callocs :=
                   bpf_update (map_accepts env PENDING_CALLOCS) (pending_callocs st) tid pending\<rparr>
      in if \<not> tmp_stack_present env then st
         else let sv = capture_stack env
              in st\<lparr>tmp_stack_buf := sv,
                    pending_stacks_calloc :=
                      bpf_update (map_accepts env PENDING_STACKS_CALLOC)
                        (pending_stacks_calloc st) tid sv\<rparr>)"

definition uprobe_calloc_return_prepare :: "bpf_env \<Rightarrow> u64 \<Rightarrow> bpf_state \<Rightarrow> bpf_state \<times> bool" where
  "uprobe_calloc_return_prepare env ret st =
     (let tid = env_tid env; addr = ret
      in if addr = 0 then (st, False)
         else case pending_callocs st tid of
           None \<Rightarrow> (st, False)
         | Some pending \<Rightarrow>
             let st = st\<lparr>pending_callocs := bpf_delete (pending_callocs st) tid\<rparr>;
                 info = make_alloc_info pending env;
                 st = st\<lparr>active_allocs :=
                          bpf_update (map_accepts env ACTIVE_ALLOCS) (active_allocs st) addr info\<rparr>
             in if \<not> tmp_evt_present env then (st, False)
                else
                  let evt = (header EVENT_CALLOC_RETURN env)\<lparr>ev_stack_id := ai_stack_id info\<rparr>;
                      evt = put_word 1 (pi_size pending) (put_word 0 addr evt);
                      evt = attach_stack CALLOC_RET_PCS (pending_stacks_calloc st tid) evt
                  in (st\<lparr>tmp_evt_buf := evt,
                         pending_stacks_calloc := bpf_delete (pending_stacks_calloc st) tid\<rparr>,
                      True))"

definition uprobe_calloc_return :: "bpf_env \<Rightarrow> u64 \<Rightarrow> bpf_state \<Rightarrow> bpf_state" where
  "uprobe_calloc_return env ret st = finish env (uprobe_calloc_return_prepare env ret st)"

section \<open>Probes on realloc\<close>

definition uprobe_realloc_entry_prepare :: "bpf_env \<Rightarrow> u64 \<Rightarrow> u64 \<Rightarrow> bpf_state \<Rightarrow> bpf_state \<times> bool" where
  "uprobe_realloc_entry_prepare env ptr sz st =
     (let tid = env_tid env;
          pending = \<lparr>pi_size = sz, pi_stack_id = entry_stack_id env\<rparr>;
          st = st\<lparr>pending_reallocs :=
                   bpf_update (map_accepts env PENDING_REALLOCS) (pending_reallocs st) tid pending\<rparr>
      in if \<not> tmp_stack_present env then (st, False)
         else
           let sv = capture_stack env;
               st = st\<lparr>tmp_stack_buf := sv,
                       pending_stacks_realloc :=
                         bpf_update (map_accepts env PENDING_STACKS_REALLOC)
                           (pending_stacks_realloc st) tid sv\<rparr>
           in if \<not> tmp_evt_present env then (st, False)
              else (st\<lparr>tmp_evt_buf := put_word 1 sz (put_word 0 ptr (header EVENT_REALLOC_ENTRY env))\<rparr>,
                    True))"

definition uprobe_realloc_entry :: "bpf_env \<Rightarrow> u64 \<Rightarrow> u64 \<Rightarrow> bpf_state \<Rightarrow> bpf_state" where
  "uprobe_realloc_entry env ptr sz st = finish env (uprobe_realloc_entry_prepare env ptr sz st)"

definition uprobe_realloc_return_prepare :: "bpf_env \<Rightarrow> u64 \<Rightarrow> bpf_state \<Rightarrow> bpf_state \<times> bool" where
  "uprobe_realloc_return_prepare env ret st =
     (let tid = env_tid env; addr = ret
      in if addr = 0 then (st, False)
         else case pending_reallocs st tid of
           None \<Rightarrow> (st, False)
         | Some pending \<Rightarrow>
             let st = st\<lparr>pending_reallocs := bpf_delete (pending_reallocs st) tid\<rparr>;
                 info = make_alloc_info pending env;
                 st = st\<lparr>active_allocs :=
                          bpf_update (map_accepts env ACTIVE_ALLOCS) (active_allocs st) addr info\<rparr>
             in if \<not> tmp_evt_present env then (st, False)
                else
                  let evt = (header EVENT_REALLOC_RETURN env)\<lparr>ev_stack_id := ai_stack_id info\<rparr>;
                      evt = put_word 2 0 (put_word 1 (pi_size pending) (put_word 0 addr evt));
                      evt = attach_stack REALLOC_RET_PCS (pending_stacks_realloc st tid) evt
                  in (st\<lparr>tmp_evt_buf := evt,
                         pending_stacks_realloc := bpf_delete (pending_stacks_realloc st) tid\<rparr>,
                      True))"

definition uprobe_realloc_return :: "bpf_env \<Rightarrow> u64 \<Rightarrow> bpf_state \<Rightarrow> bpf_state" where
  "uprobe_realloc_return env ret st = finish env (uprobe_realloc_return_prepare env ret st)"

section \<open>Probes on mmap and munmap, and the stack sampler\<close>

definition uprobe_mmap_entry_prepare ::
  "bpf_env \<Rightarrow> u64 \<Rightarrow> u64 \<Rightarrow> s32 \<Rightarrow> s32 \<Rightarrow> bpf_state \<Rightarrow> bpf_state \<times> bool" where
  "uprobe_mmap_entry_prepare env addr sz prot flags st =
     (if \<not> tmp_evt_present env then (st, False)
      else (st\<lparr>tmp_evt_buf :=
                put_prot_flags prot flags (put_word 1 sz (put_word 0 addr (header EVENT_MMAP env)))\<rparr>,
            True))"

definition uprobe_mmap_entry ::
  "bpf_env \<Rightarrow> u64 \<Rightarrow> u64 \<Rightarrow> s32 \<Rightarrow> s32 \<Rightarrow> bpf_state \<Rightarrow> bpf_state" where
  "uprobe_mmap_entry env addr sz prot flags st =
     finish env (uprobe_mmap_entry_prepare env addr sz prot flags st)"

definition uprobe_munmap_entry_prepare ::
  "bpf_env \<Rightarrow> u64 \<Rightarrow> u64 \<Rightarrow> bpf_state \<Rightarrow> bpf_state \<times> bool" where
  "uprobe_munmap_entry_prepare env addr sz st =
     (if \<not> tmp_evt_present env then (st, False)
      else (st\<lparr>tmp_evt_buf := put_word 1 sz (put_word 0 addr (header EVENT_MUNMAP env))\<rparr>, True))"

definition uprobe_munmap_entry :: "bpf_env \<Rightarrow> u64 \<Rightarrow> u64 \<Rightarrow> bpf_state \<Rightarrow> bpf_state" where
  "uprobe_munmap_entry env addr sz st = finish env (uprobe_munmap_entry_prepare env addr sz st)"

definition on_stack_sample_prepare :: "bpf_env \<Rightarrow> bpf_state \<Rightarrow> bpf_state \<times> bool" where
  "on_stack_sample_prepare env st =
     (if \<not> tmp_evt_present env then (st, False)
      else (st\<lparr>tmp_evt_buf := (header EVENT_STACK_SAMPLE env)\<lparr>ev_stack_id := get_stack_id env\<rparr>\<rparr>,
            True))"

definition on_stack_sample :: "bpf_env \<Rightarrow> bpf_state \<Rightarrow> bpf_state" where
  "on_stack_sample env st = finish env (on_stack_sample_prepare env st)"

section \<open>The whole program: one probe hit after another\<close>

datatype probe =
    MallocEntry u64
  | MallocReturn u64
  | Free u64
  | CallocEntry u64 u64
  | CallocReturn u64
  | ReallocEntry u64 u64
  | ReallocReturn u64
  | MmapEntry u64 u64 s32 s32
  | MunmapEntry u64 u64
  | StackSample

primrec probe_prepare :: "bpf_env \<Rightarrow> probe \<Rightarrow> bpf_state \<Rightarrow> bpf_state \<times> bool" where
  "probe_prepare env (MallocEntry sz) st = (uprobe_malloc_entry env sz st, False)"
| "probe_prepare env (MallocReturn ret) st = uprobe_malloc_return_prepare env ret st"
| "probe_prepare env (Free ptr) st = uprobe_free_prepare env ptr st"
| "probe_prepare env (CallocEntry nmemb sz) st = (uprobe_calloc_entry env nmemb sz st, False)"
| "probe_prepare env (CallocReturn ret) st = uprobe_calloc_return_prepare env ret st"
| "probe_prepare env (ReallocEntry ptr sz) st = uprobe_realloc_entry_prepare env ptr sz st"
| "probe_prepare env (ReallocReturn ret) st = uprobe_realloc_return_prepare env ret st"
| "probe_prepare env (MmapEntry addr sz prot flags) st =
     uprobe_mmap_entry_prepare env addr sz prot flags st"
| "probe_prepare env (MunmapEntry addr sz) st = uprobe_munmap_entry_prepare env addr sz st"
| "probe_prepare env StackSample st = on_stack_sample_prepare env st"

primrec probe_step :: "bpf_env \<Rightarrow> probe \<Rightarrow> bpf_state \<Rightarrow> bpf_state" where
  "probe_step env (MallocEntry sz) st = uprobe_malloc_entry env sz st"
| "probe_step env (MallocReturn ret) st = uprobe_malloc_return env ret st"
| "probe_step env (Free ptr) st = uprobe_free env ptr st"
| "probe_step env (CallocEntry nmemb sz) st = uprobe_calloc_entry env nmemb sz st"
| "probe_step env (CallocReturn ret) st = uprobe_calloc_return env ret st"
| "probe_step env (ReallocEntry ptr sz) st = uprobe_realloc_entry env ptr sz st"
| "probe_step env (ReallocReturn ret) st = uprobe_realloc_return env ret st"
| "probe_step env (MmapEntry addr sz prot flags) st = uprobe_mmap_entry env addr sz prot flags st"
| "probe_step env (MunmapEntry addr sz) st = uprobe_munmap_entry env addr sz st"
| "probe_step env StackSample st = on_stack_sample env st"

text \<open>The state after loading: every map is empty and the array elements are zero.\<close>

definition initial_bpf_state :: bpf_state where
  "initial_bpf_state =
     \<lparr>active_allocs = Map.empty, completed_allocs = Map.empty, pending_mallocs = Map.empty,
      pending_callocs = Map.empty, pending_reallocs = Map.empty,
      pending_stacks_malloc = Map.empty, pending_stacks_calloc = Map.empty,
      pending_stacks_realloc = Map.empty,
      tmp_stack_buf = \<lparr>sp_depth = 0, sp_pcs = replicate BPF_MAX_STACK_DEPTH 0\<rparr>,
      tmp_evt_buf = zero_event, ring = []\<rparr>"

lemma initial_bpf_state_simps [simp]:
  "active_allocs initial_bpf_state = Map.empty" "ring initial_bpf_state = []"
  "tmp_evt_buf initial_bpf_state = zero_event"
  by (simp_all add: initial_bpf_state_def)

definition probe_run :: "(bpf_env \<times> probe) list \<Rightarrow> bpf_state \<Rightarrow> bpf_state" where
  "probe_run hits st = fold (\<lambda>(env, p). probe_step env p) hits st"

inductive bpf_reachable :: "bpf_state \<Rightarrow> bool" where
  start: "bpf_reachable initial_bpf_state"
| hit: "bpf_reachable st \<Longrightarrow> bpf_reachable (probe_step env p st)"

lemmas [bpf_defs] =
  bpf_update_def bpf_delete_def emit_event_def finish_def header_def make_alloc_info_def
  uprobe_malloc_entry_def uprobe_malloc_return_prepare_def uprobe_malloc_return_def
  uprobe_free_prepare_def uprobe_free_def
  uprobe_calloc_entry_def uprobe_calloc_return_prepare_def uprobe_calloc_return_def
  uprobe_realloc_entry_prepare_def uprobe_realloc_entry_def
  uprobe_realloc_return_prepare_def uprobe_realloc_return_def
  uprobe_mmap_entry_prepare_def uprobe_mmap_entry_def
  uprobe_munmap_entry_prepare_def uprobe_munmap_entry_def
  on_stack_sample_prepare_def on_stack_sample_def

end
