(* ===== verification/Bpf_Correct.thy ===== *)
theory Bpf_Correct
  imports Bpf_Probes
begin

text \<open>
  What the kernel side promises: the shape of every event in the ring buffer, the pairing of an
  entry probe with the return probe of the same thread whatever runs in between, the effect of
  a call that fails, and the bookkeeping of active allocations as a tracker.
\<close>

section \<open>Shape of what is sent\<close>

definition event_shape :: "mem_event \<Rightarrow> bool" where
  "event_shape e \<longleftrightarrow>
     length (ev_words e) = BPF_UNION_WORDS \<and> unat (ev_stack_depth e) \<le> BPF_MAX_STACK_DEPTH"

text \<open>
  An event in the ring has the kernel's layout, one of the types the handlers send, and a
  non-zero address if it is an allocation or a release.
\<close>

definition sent_event :: "mem_event \<Rightarrow> bool" where
  "sent_event e \<longleftrightarrow>
     event_shape e \<and>
     ev_type e \<in> {event_code EVENT_MALLOC_RETURN, event_code EVENT_FREE, event_code EVENT_MMAP,
                  event_code EVENT_MUNMAP, event_code EVENT_STACK_SAMPLE,
                  event_code EVENT_CALLOC_RETURN, event_code EVENT_REALLOC_ENTRY,
                  event_code EVENT_REALLOC_RETURN} \<and>
     (ev_type e \<in> {event_code EVENT_MALLOC_RETURN, event_code EVENT_FREE,
                   event_code EVENT_CALLOC_RETURN, event_code EVENT_REALLOC_RETURN} \<longrightarrow>
      ev_words e ! 0 \<noteq> 0)"

lemma length_header [simp]: "length (ev_words (header ty env)) = BPF_UNION_WORDS"
  by (simp add: header_def)

lemma header_simps [simp]:
  "ev_type (header ty env) = event_code ty" "ev_pid (header ty env) = env_pid env"
  "ev_tid (header ty env) = env_tid env" "ev_timestamp (header ty env) = ktime_get_ns env"
  "ev_stack_depth (header ty env) = 0" "ev_reserved (header ty env) = 0"
  "ev_words (header ty env) = replicate BPF_UNION_WORDS 0"
  by (simp_all add: header_def)

lemma attach_stack_simps [simp]:
  "ev_type (attach_stack b sv e) = ev_type e" "ev_pid (attach_stack b sv e) = ev_pid e"
  "ev_tid (attach_stack b sv e) = ev_tid e" "ev_timestamp (attach_stack b sv e) = ev_timestamp e"
  "ev_stack_id (attach_stack b sv e) = ev_stack_id e"
  "length (ev_words (attach_stack b sv e)) = length (ev_words e)"
  by (simp_all add: attach_stack_def Let_def split: option.split)

lemma attach_stack_depth: "unat (ev_stack_depth (attach_stack b sv e)) \<le> BPF_MAX_STACK_DEPTH"
proof -
  have "unat d \<le> 32" if "\<not> (32 :: u32) < d" for d
    using that by (simp add: word_less_nat_alt)
  then show ?thesis
    by (auto simp: attach_stack_def BPF_MAX_STACK_DEPTH_def Let_def split: option.split)
qed

lemma attach_stack_below: "j < b \<Longrightarrow> ev_words (attach_stack b sv e) ! j = ev_words e ! j"
proof -
  assume "j < b"
  then have "copy_words b n src ws ! j = ws ! j" for n and src ws :: "u64 list"
    by (induction n) auto
  then show ?thesis
    by (simp add: attach_stack_def Let_def split: option.split)
qed

lemmas sent_simps =
  sent_event_def event_shape_def attach_stack_depth [unfolded layout_defs] attach_stack_below layout_defs nth_list_update
  put_prot_flags_def Let_def

lemma probe_prepare_sends:
  "probe_prepare env p st = (st', True) \<Longrightarrow> sent_event (tmp_evt_buf st')"
  by (cases p) (auto simp: bpf_defs sent_simps split: if_splits option.splits)

lemma probe_prepare_ring: "ring (fst (probe_prepare env p st)) = ring st"
  by (cases p) (auto simp: bpf_defs Let_def split: option.splits)

lemma probe_step_prepare: "probe_step env p st = finish env (probe_prepare env p st)"
  by (cases p) (simp_all add: bpf_defs)

lemma probe_step_ring:
  "ring (probe_step env p st) = ring st \<or>
   (\<exists>e. sent_event e \<and> ring (probe_step env p st) = ring st @ [e])"
proof -
  obtain st' b where r: "probe_prepare env p st = (st', b)" by fastforce
  have "ring st' = ring st" using probe_prepare_ring [of env p st] r by simp
  then show ?thesis
    using probe_prepare_sends [of env p st st'] r
    by (cases b) (auto simp: probe_step_prepare finish_def emit_event_def)
qed

lemma reachable_ring: "bpf_reachable st \<Longrightarrow> e \<in> set (ring st) \<Longrightarrow> sent_event e"
proof (induction arbitrary: e rule: bpf_reachable.induct)
  case start
  then show ?case by (simp add: initial_bpf_state_def)
next
  case (hit st env p)
  then show ?case using probe_step_ring [of env p st] by auto
qed

section \<open>Pairing of entry and return probes\<close>

lemma capture_stack_depth:
  "unat (sp_depth (capture_stack env)) = nat (sint (ucast (get_stack_ret env) :: s32)) div 8"
proof -
  define l where "l = (ucast (get_stack_ret env) :: s32)"
  show ?thesis
  proof (cases "0 < sint l")
    case True
    have "sint l < 2 ^ 31" using sint_lt [of l] by simp
    with True have "nat (sint l) div 8 < 2 ^ 32" by auto
    with True show ?thesis
      by (simp add: capture_stack_def l_def [symmetric] Let_def unsigned_ucast_eq take_bit_nat_eq_self unat_div unat_scast_nonneg)
  next
    case False
    then show ?thesis by (simp add: capture_stack_def l_def [symmetric] Let_def)
  qed
qed


datatype family = Malloc_family | Calloc_family | Realloc_family

primrec pending_of :: "family \<Rightarrow> bpf_state \<Rightarrow> u32 \<rightharpoonup> pending_info" where
  "pending_of Malloc_family st = pending_mallocs st"
| "pending_of Calloc_family st = pending_callocs st"
| "pending_of Realloc_family st = pending_reallocs st"

primrec stacks_of :: "family \<Rightarrow> bpf_state \<Rightarrow> u32 \<rightharpoonup> stack_pcs_value" where
  "stacks_of Malloc_family st = pending_stacks_malloc st"
| "stacks_of Calloc_family st = pending_stacks_calloc st"
| "stacks_of Realloc_family st = pending_stacks_realloc st"

primrec pending_maps :: "family \<Rightarrow> bpf_map set" where
  "pending_maps Malloc_family = {PENDING_MALLOCS, PENDING_STACKS_MALLOC}"
| "pending_maps Calloc_family = {PENDING_CALLOCS, PENDING_STACKS_CALLOC}"
| "pending_maps Realloc_family = {PENDING_REALLOCS, PENDING_STACKS_REALLOC}"

text \<open>The entry probe of a family for a request of \<open>n\<close> bytes, and the family's return probe.\<close>

primrec request :: "probe \<Rightarrow> (family \<times> u64) option" where
  "request (MallocEntry n) = Some (Malloc_family, n)"
| "request (CallocEntry k n) = Some (Calloc_family, k * n)"
| "request (ReallocEntry p n) = Some (Realloc_family, n)"
| "request (MallocReturn r) = None"
| "request (CallocReturn r) = None"
| "request (ReallocReturn r) = None"
| "request (Free p) = None"
| "request (MmapEntry a n pr fl) = None"
| "request (MunmapEntry a n) = None"
| "request StackSample = None"

primrec return_probe :: "family \<Rightarrow> u64 \<Rightarrow> probe" where
  "return_probe Malloc_family r = MallocReturn r"
| "return_probe Calloc_family r = CallocReturn r"
| "return_probe Realloc_family r = ReallocReturn r"

primrec return_type :: "family \<Rightarrow> event_type" where
  "return_type Malloc_family = EVENT_MALLOC_RETURN"
| "return_type Calloc_family = EVENT_CALLOC_RETURN"
| "return_type Realloc_family = EVENT_REALLOC_RETURN"

primrec return_pcs :: "family \<Rightarrow> nat" where
  "return_pcs Malloc_family = MALLOC_RET_PCS"
| "return_pcs Calloc_family = CALLOC_RET_PCS"
| "return_pcs Realloc_family = REALLOC_RET_PCS"

text \<open>A hit that belongs to family \<open>f\<close>, whether entry or return.\<close>

definition of_family :: "family \<Rightarrow> probe \<Rightarrow> bool" where
  "of_family f p \<longleftrightarrow> map_option fst (request p) = Some f \<or> (\<exists>r. p = return_probe f r)"

text \<open>Hits that leave the pending entry of thread \<open>t\<close> in family \<open>f\<close> alone.\<close>

definition foreign :: "family \<Rightarrow> u32 \<Rightarrow> bpf_env \<times> probe \<Rightarrow> bool" where
  "foreign f t h \<longleftrightarrow> \<not> of_family f (snd h) \<or> env_tid (fst h) \<noteq> t"

lemma emit_event_frame [simp]:
  "active_allocs (emit_event env st) = active_allocs st"
  "completed_allocs (emit_event env st) = completed_allocs st"
  "pending_of f (emit_event env st) = pending_of f st"
  "stacks_of f (emit_event env st) = stacks_of f st"
  by (cases f; simp add: emit_event_def)+

lemma prepare_foreign:
  "foreign f t (env, p) \<Longrightarrow>
   pending_of f (fst (probe_prepare env p st)) t = pending_of f st t \<and>
   stacks_of f (fst (probe_prepare env p st)) t = stacks_of f st t"
  by (cases f; cases p)
    (auto simp: foreign_def of_family_def bpf_defs Let_def split: option.split)

lemma step_foreign:
  "foreign f t (env, p) \<Longrightarrow>
   pending_of f (probe_step env p st) t = pending_of f st t \<and>
   stacks_of f (probe_step env p st) t = stacks_of f st t"
  using prepare_foreign [of f t env p st] by (simp add: probe_step_prepare finish_def)

lemma run_foreign:
  "\<forall>h \<in> set hits. foreign f t h \<Longrightarrow>
   pending_of f (probe_run hits st) t = pending_of f st t \<and>
   stacks_of f (probe_run hits st) t = stacks_of f st t"
proof (induction hits arbitrary: st)
  case Nil
  then show ?case by (simp add: probe_run_def)
next
  case (Cons h hits)
  obtain env p where h: "h = (env, p)" by fastforce
  with Cons.prems have "foreign f t (env, p)" by simp
  from step_foreign [OF this, of st] Cons.IH [of "probe_step env p st"] Cons.prems h
  show ?case by (simp add: probe_run_def)
qed

lemma entry_pending:
  assumes "request p = Some (f, n)" and "\<forall>m \<in> pending_maps f. map_accepts env m"
    and "tmp_stack_present env"
  shows "pending_of f (probe_step env p st) (env_tid env) =
           Some \<lparr>pi_size = n, pi_stack_id = entry_stack_id env\<rparr> \<and>
         stacks_of f (probe_step env p st) (env_tid env) = Some (capture_stack env)"
  using assms by (cases p) (auto simp: bpf_defs Let_def)

lemma return_completes:
  assumes "pending_of f st (env_tid env) = Some pd" and "ret \<noteq> 0"
    and "map_accepts env ACTIVE_ALLOCS" and "tmp_evt_present env" and "ringbuf_accepts env"
  shows "active_allocs (probe_step env (return_probe f ret) st) =
           (active_allocs st)(ret \<mapsto> make_alloc_info pd env) \<and>
         pending_of f (probe_step env (return_probe f ret) st) =
           (pending_of f st)(env_tid env := None) \<and>
         stacks_of f (probe_step env (return_probe f ret) st) =
           (stacks_of f st)(env_tid env := None) \<and>
         ring (probe_step env (return_probe f ret) st) = ring st @
           [attach_stack (return_pcs f) (stacks_of f st (env_tid env))
              (put_word 1 (pi_size pd) (put_word 0 ret
                ((header (return_type f) env)\<lparr>ev_stack_id := scast (pi_stack_id pd)\<rparr>)))]"
  using assms by (cases f) (simp_all add: bpf_defs Let_def put_word_def list_update_overwrite layout_defs numeral_eq_Suc)

text \<open>How many program counters the event of a return probe carries.\<close>

definition captured_depth :: "bpf_env \<Rightarrow> nat" where
  "captured_depth env =
     min (nat (sint (ucast (get_stack_ret env) :: s32)) div 8) BPF_MAX_STACK_DEPTH"

lemma attach_stack_captured:
  assumes "BPF_MAX_STACK_DEPTH + b \<le> length (ev_words e)"
  shows "unat (ev_stack_depth (attach_stack b (Some (capture_stack env)) e)) = captured_depth env"
    and "take (captured_depth env) (drop b (ev_words (attach_stack b (Some (capture_stack env)) e))) =
         take (captured_depth env) (sp_pcs (capture_stack env))"
proof -
  let ?sv = "capture_stack env" and ?d = "sp_depth (capture_stack env)"
  define d where "d = (if (32 :: u32) < ?d then 32 else ?d)"
  have c: "captured_depth env = unat d"
    by (simp add: captured_depth_def d_def capture_stack_depth [symmetric] layout_defs word_less_nat_alt min_def)
  have l: "length (sp_pcs ?sv) = 32"
    by (simp add: capture_stack_def Let_def layout_defs)
  have d32: "unat d \<le> 32"
    by (auto simp: d_def word_less_nat_alt)
  have a: "attach_stack b (Some ?sv) e =
      (if 0 < ?d then e\<lparr>ev_stack_depth := d, ev_words := copy_words b (unat d) (sp_pcs ?sv) (ev_words e)\<rparr>
       else e\<lparr>ev_stack_depth := 0\<rparr>)"
    by (auto simp: attach_stack_def d_def layout_defs Let_def word_less_nat_alt min_def)
  have z: "d = 0" if "\<not> 0 < ?d"
    using that by (simp add: d_def word_gt_0)
  show "unat (ev_stack_depth (attach_stack b (Some ?sv) e)) = captured_depth env"
    using z by (simp add: a c)
  show "take (captured_depth env) (drop b (ev_words (attach_stack b (Some ?sv) e))) =
        take (captured_depth env) (sp_pcs ?sv)"
    using z d32 l assms by (auto simp: a c layout_defs copy_words_slice)
qed

text \<open>
  C4: The entry and return probe of one thread, with any hits in between that are not of the same
  family on the same thread, record the allocation and send exactly its event.
\<close>

theorem paired_allocation:
  assumes entry: "request p = Some (f, n)" "\<forall>m \<in> pending_maps f. map_accepts e1 m" "tmp_stack_present e1"
    and between: "\<forall>h \<in> set hits. foreign f (env_tid e1) h"
    and return: "env_tid e2 = env_tid e1" "ret \<noteq> 0"
      "map_accepts e2 ACTIVE_ALLOCS" "tmp_evt_present e2" "ringbuf_accepts e2"
    and st': "st' = probe_run hits (probe_step e1 p st)"
  shows "\<exists>evt. ring (probe_step e2 (return_probe f ret) st') = ring st' @ [evt] \<and>
      ev_type evt = event_code (return_type f) \<and> ev_pid evt = env_pid e2 \<and> ev_tid evt = env_tid e1 \<and>
      ev_timestamp evt = ktime_get_ns e2 \<and> ev_stack_id evt = scast (entry_stack_id e1) \<and>
      ev_words evt ! 0 = ret \<and> ev_words evt ! 1 = n \<and>
      unat (ev_stack_depth evt) = captured_depth e1 \<and>
      take (captured_depth e1) (drop (return_pcs f) (ev_words evt)) =
        take (captured_depth e1) (overwrite (replicate BPF_MAX_STACK_DEPTH 0) (get_stack_data e1)) \<and>
      active_allocs (probe_step e2 (return_probe f ret) st') =
        (active_allocs st')(ret \<mapsto> \<lparr>ai_size = n, ai_stack_id = scast (entry_stack_id e1),
           ai_timestamp = ktime_get_ns e2, ai_pid = env_pid e2, ai_tid = env_tid e1\<rparr>) \<and>
      pending_of f (probe_step e2 (return_probe f ret) st') (env_tid e1) = None"
proof -
  define pd where "pd = \<lparr>pi_size = n, pi_stack_id = entry_stack_id e1\<rparr>"
  define evt0 where "evt0 = put_word 1 n (put_word 0 ret
      ((header (return_type f) e2)\<lparr>ev_stack_id := scast (entry_stack_id e1)\<rparr>))"
  have pend: "pending_of f st' (env_tid e2) = Some pd"
    and stk: "stacks_of f st' (env_tid e2) = Some (capture_stack e1)"
    using entry_pending [OF entry] run_foreign [OF between] st' return(1) by (simp_all add: pd_def)
  have len: "BPF_MAX_STACK_DEPTH + return_pcs f \<le> length (ev_words evt0)"
    by (cases f) (simp_all add: evt0_def layout_defs)
  have low: "0 < return_pcs f" "1 < return_pcs f"
    by (cases f; simp add: layout_defs)+
  have pcs: "sp_pcs (capture_stack e1) = overwrite (replicate BPF_MAX_STACK_DEPTH 0) (get_stack_data e1)"
    by (simp add: capture_stack_def Let_def)
  have words: "ev_words evt0 ! 0 = ret" "ev_words evt0 ! 1 = n"
    by (simp_all add: evt0_def BPF_UNION_WORDS_def REALLOC_RET_PCS_def)
  define evt where "evt = attach_stack (return_pcs f) (Some (capture_stack e1)) evt0"
  have head: "ev_type evt = event_code (return_type f)" "ev_pid evt = env_pid e2"
    "ev_tid evt = env_tid e1" "ev_timestamp evt = ktime_get_ns e2"
    "ev_stack_id evt = scast (entry_stack_id e1)"
    by (simp_all add: evt_def evt0_def return(1))
  have body: "ev_words evt ! 0 = ret" "ev_words evt ! 1 = n"
    "unat (ev_stack_depth evt) = captured_depth e1"
    "take (captured_depth e1) (drop (return_pcs f) (ev_words evt)) =
     take (captured_depth e1) (sp_pcs (capture_stack e1))"
    using attach_stack_captured [OF len, of e1] words low by (simp_all add: evt_def attach_stack_below)
  have "ring (probe_step e2 (return_probe f ret) st') = ring st' @ [evt]"
    using return_completes [OF pend return(2-5)] stk by (simp add: evt_def evt0_def pd_def)
  moreover have "active_allocs (probe_step e2 (return_probe f ret) st') =
      (active_allocs st')(ret \<mapsto> make_alloc_info pd e2)"
    "pending_of f (probe_step e2 (return_probe f ret) st') (env_tid e1) = None"
    using return_completes [OF pend return(2-5)] return(1) by simp_all
  ultimately show ?thesis
    using head body pcs return(1) by (auto simp: make_alloc_info_def pd_def)
qed

text \<open>An environment in which every helper succeeds, for concrete runs.\<close>

definition sample_env :: "u64 \<Rightarrow> u64 \<Rightarrow> bpf_env" where
  "sample_env pid_tgid now =
     \<lparr>current_pid_tgid = pid_tgid, ktime_get_ns = now, get_stackid_ret = (\<lambda>_. 7),
      get_stack_ret = 16, get_stack_data = [0x401000, 0x402000], map_accepts = (\<lambda>_. True),
      tmp_stack_present = True, tmp_evt_present = True, ringbuf_accepts = True\<rparr>"

theorem paired_allocation_witness:
  "\<exists>evt. ev_type evt = 2 \<and> ev_words evt ! 0 = 0x7000 \<and> ev_words evt ! 1 = 40 \<and>
     unat (ev_stack_depth evt) = 2 \<and>
     evt \<in> set (ring (probe_run [(sample_env 0x500000006 20, MallocEntry 8),
       (sample_env 0x500000005 30, Free 0x9000), (sample_env 0x500000005 40, MallocReturn 0x7000)]
       (uprobe_malloc_entry (sample_env 0x500000005 10) 40 initial_bpf_state)))"
proof -
  let ?e1 = "sample_env 0x500000005 10" and ?e2 = "sample_env 0x500000005 40"
  let ?hits = "[(sample_env 0x500000006 20, MallocEntry 8), (sample_env 0x500000005 30, Free 0x9000)]"
  have a: "captured_depth ?e1 = 2"
    by (simp add: captured_depth_def sample_env_def layout_defs)
  have b: "\<forall>h \<in> set ?hits. foreign Malloc_family (env_tid ?e1) h"
    by (auto simp: foreign_def of_family_def sample_env_def env_tid_def)
  show ?thesis
    using paired_allocation [where p = "MallocEntry 40" and f = Malloc_family and n = "40"
        and ?e1.0 = ?e1 and hits = ?hits and ?e2.0 = ?e2 and ret = "0x7000" and st = initial_bpf_state, OF _ _ _ b _ _ _ _ _ refl] a
    by (fastforce simp: sample_env_def env_tid_def probe_run_def)
qed

section \<open>Release\<close>

text \<open>
  C26: The free probe on every branch: \<open>free(NULL)\<close> is ignored; the release of an active address moves
  its record to \<open>completed_allocs\<close>; an event is sent whether or not the address was known.
\<close>

theorem free_probe:
  "uprobe_free env 0 st = st \<and>
   (ptr \<noteq> 0 \<longrightarrow>
      active_allocs (uprobe_free env ptr st) = (active_allocs st)(ptr := None) \<and>
      (map_accepts env COMPLETED_ALLOCS \<longrightarrow>
         completed_allocs (uprobe_free env ptr st) =
           (case active_allocs st ptr of None \<Rightarrow> completed_allocs st
            | Some info \<Rightarrow> (completed_allocs st)(ptr \<mapsto> info))) \<and>
      (tmp_evt_present env \<and> ringbuf_accepts env \<longrightarrow>
         (\<exists>evt. ring (uprobe_free env ptr st) = ring st @ [evt] \<and>
            ev_type evt = event_code EVENT_FREE \<and> ev_words evt ! 0 = ptr \<and>
            ev_pid evt = env_pid env \<and> ev_tid evt = env_tid env \<and>
            ev_timestamp evt = ktime_get_ns env \<and> ev_stack_id evt = get_stack_id env)))"
  by (auto simp: bpf_defs Let_def fun_upd_idem_iff BPF_UNION_WORDS_def REALLOC_RET_PCS_def
      split: option.split)

definition sample_info :: alloc_info where
  "sample_info = \<lparr>ai_size = 8, ai_stack_id = 0, ai_timestamp = 1, ai_pid = 0, ai_tid = 1\<rparr>"

theorem free_probe_witness:
  "active_allocs (uprobe_free (sample_env 1 2) 64 (initial_bpf_state\<lparr>active_allocs := [64 \<mapsto> sample_info]\<rparr>)) 64 = None \<and>
   completed_allocs (uprobe_free (sample_env 1 2) 64 (initial_bpf_state\<lparr>active_allocs := [64 \<mapsto> sample_info]\<rparr>)) = [64 \<mapsto> sample_info] \<and>
   (\<exists>evt. ring (uprobe_free (sample_env 1 2) 64 (initial_bpf_state\<lparr>active_allocs := [64 \<mapsto> sample_info]\<rparr>)) = [evt])"
  using free_probe [of "sample_env 1 2" "initial_bpf_state\<lparr>active_allocs := [64 \<mapsto> sample_info]\<rparr>" 64]
  by (auto simp: sample_env_def initial_bpf_state_def)

section \<open>Failed calls\<close>

lemma null_return: "probe_step env (return_probe f 0) st = st"
  by (cases f) (simp_all add: bpf_defs)

lemma entry_overrides_entry:
  assumes "request p = Some (f, n)" and "\<forall>m \<in> pending_maps f. map_accepts e2 m"
    and "tmp_stack_present e2" and "env_tid e2 = env_tid e1"
  shows "pending_of f (probe_step e2 p (probe_step e1 q st)) = pending_of f (probe_step e2 p st) \<and>
         stacks_of f (probe_step e2 p (probe_step e1 q st)) = stacks_of f (probe_step e2 p st)"
proof -
  have other: "t \<noteq> env_tid e1 \<Longrightarrow>
      pending_of f (probe_step e2 p (probe_step e1 q st)) t = pending_of f (probe_step e2 p st) t \<and>
      stacks_of f (probe_step e2 p (probe_step e1 q st)) t = stacks_of f (probe_step e2 p st) t" for t
    using step_foreign [of f t e2 p] step_foreign [of f t e1 q] assms(4) by (simp add: foreign_def)
  show ?thesis
    using entry_pending [OF assms(1-3)] other assms(4) by (metis ext)
qed

text \<open>
  What an entry probe sends: only \<open>uprobe_realloc_entry\<close> sends anything, the event
  \<open>EVENT_REALLOC_ENTRY\<close> with the old address and the requested size.
\<close>

definition entry_events :: "bpf_env \<Rightarrow> probe \<Rightarrow> mem_event list" where
  "entry_events env q =
     (case q of
        ReallocEntry old m \<Rightarrow>
          if tmp_stack_present env \<and> tmp_evt_present env \<and> ringbuf_accepts env
          then [put_word 1 m (put_word 0 old (header EVENT_REALLOC_ENTRY env))] else []
      | _ \<Rightarrow> [])"

lemma entry_effect:
  assumes "request q = Some (f, m)"
  shows "ring (probe_step env q st) = ring st @ entry_events env q"
    and "active_allocs (probe_step env q st) = active_allocs st"
    and "completed_allocs (probe_step env q st) = completed_allocs st"
  using assms by (cases q; auto simp: entry_events_def bpf_defs Let_def)+

text \<open>
  C27: A call that returns NULL records no allocation and sends no return event: of its two probes only
  the entry probe of realloc sends anything (the event \<open>EVENT_REALLOC_ENTRY\<close>), and the maps of
  active and completed allocations stay as they are. It leaves its pending entry behind; the entry
  probe of the thread's next call of the family replaces it, so that call is recorded as if the
  failed one had not happened.
\<close>

theorem failed_call_superseded:
  assumes failed: "request q = Some (f, m)" "env_tid er = env_tid e1"
      "st' = probe_step er (return_probe f 0) (probe_step e1 q st)"
    and again: "request p = Some (f, n)" "\<forall>m \<in> pending_maps f. map_accepts e2 m"
      "tmp_stack_present e2" "env_tid e2 = env_tid e1"
  shows "ring st' = ring st @ entry_events e1 q \<and>
    (entry_events e1 q \<noteq> [] \<longrightarrow> (\<exists>old. q = ReallocEntry old m)) \<and>
    active_allocs st' = active_allocs st \<and> completed_allocs st' = completed_allocs st \<and>
    pending_of f (probe_step e2 p st') = pending_of f (probe_step e2 p st) \<and>
    stacks_of f (probe_step e2 p st') = stacks_of f (probe_step e2 p st) \<and>
    pending_of f (probe_step e2 p st') (env_tid e1) =
      Some \<lparr>pi_size = n, pi_stack_id = entry_stack_id e2\<rparr>"
proof -
  have "entry_events e1 q \<noteq> [] \<Longrightarrow> \<exists>old. q = ReallocEntry old m"
    using failed(1) by (cases q) (auto simp: entry_events_def)
  then show ?thesis
    using entry_effect [OF failed(1), of e1 st] entry_overrides_entry [OF again, of q st]
      entry_pending [OF again(1-3), of "st"] again(4)
    by (auto simp: failed(3) null_return)
qed

theorem failed_call_superseded_witness:
  "ring (uprobe_malloc_return (sample_env 5 1) 0
     (uprobe_malloc_entry (sample_env 5 0) 100 initial_bpf_state)) = [] \<and>
   pending_mallocs (uprobe_malloc_entry (sample_env 5 2) 9
     (uprobe_malloc_return (sample_env 5 1) 0 (uprobe_malloc_entry (sample_env 5 0) 100 initial_bpf_state))) 5
   = Some \<lparr>pi_size = 9, pi_stack_id = 7\<rparr>"
proof -
  have "entry_stack_id (sample_env 5 t) = 7" "env_tid (sample_env 5 t) = 5"
    "map_accepts (sample_env 5 t) k" "tmp_stack_present (sample_env 5 t)" for t k
    by (simp_all add: sample_env_def entry_stack_id_def env_tid_def)
  then show ?thesis
    using failed_call_superseded [where p = "MallocEntry 9" and f = Malloc_family and n = 9 and m = 100
        and ?e2.0 = "sample_env 5 2" and ?e1.0 = "sample_env 5 0" and q = "MallocEntry 100"
        and er = "sample_env 5 1" and st = initial_bpf_state, OF _ _ refl]
    by (simp add: entry_events_def uprobe_malloc_entry_def bpf_update_def Let_def)
qed

section \<open>Active allocations as a tracker\<close>

text \<open>
  An environment whose helpers all succeed, and the two halves of one \<open>malloc\<close> call made by one
  thread: the input of the tracker's operations is the environments of the two probes and the size.
\<close>

definition accepting :: "bpf_env \<Rightarrow> bpf_env" where
  "accepting env = env\<lparr>map_accepts := (\<lambda>_. True), tmp_stack_present := True,
                       tmp_evt_present := True, ringbuf_accepts := True\<rparr>"

type_synonym call = "bpf_env \<times> bpf_env \<times> u64"

definition call_entry_env :: "call \<Rightarrow> bpf_env" where
  "call_entry_env c = accepting (fst c)"

definition call_return_env :: "call \<Rightarrow> bpf_env" where
  "call_return_env c =
     accepting ((fst (snd c))\<lparr>current_pid_tgid := current_pid_tgid (fst c)\<rparr>)"

definition call_size :: "call \<Rightarrow> u64" where
  "call_size c = snd (snd c)"

definition kernel_malloc :: "u64 \<Rightarrow> call \<Rightarrow> bpf_state \<Rightarrow> bpf_state" where
  "kernel_malloc a c st =
     uprobe_malloc_return (call_return_env c) a
       (uprobe_malloc_entry (call_entry_env c) (call_size c) st)"

definition kernel_free :: "u64 \<Rightarrow> call \<Rightarrow> bpf_state \<Rightarrow> bpf_state" where
  "kernel_free a c st = uprobe_free (call_entry_env c) a st"

definition call_pending :: "call \<Rightarrow> pending_info" where
  "call_pending c = \<lparr>pi_size = call_size c, pi_stack_id = entry_stack_id (call_entry_env c)\<rparr>"

definition call_info :: "call \<Rightarrow> alloc_info" where
  "call_info c = make_alloc_info (call_pending c) (call_return_env c)"

definition malloc_event :: "u64 \<Rightarrow> call \<Rightarrow> mem_event" where
  "malloc_event a c =
     attach_stack MALLOC_RET_PCS (Some (capture_stack (call_entry_env c)))
       (put_word 1 (call_size c) (put_word 0 a
         ((header EVENT_MALLOC_RETURN (call_return_env c))
            \<lparr>ev_stack_id := ai_stack_id (call_info c)\<rparr>)))"

definition free_event :: "u64 \<Rightarrow> call \<Rightarrow> mem_event" where
  "free_event a c =
     (put_word 0 a (header EVENT_FREE (call_entry_env c)))
       \<lparr>ev_stack_id := get_stack_id (call_entry_env c)\<rparr>"

lemma accepting_simps [simp]:
  "map_accepts (accepting env) = (\<lambda>_. True)" "tmp_stack_present (accepting env)"
  "tmp_evt_present (accepting env)" "ringbuf_accepts (accepting env)"
  "env_tid (accepting env) = env_tid env"
  by (simp_all add: accepting_def env_tid_def)

lemma call_env_simps [simp]:
  "map_accepts (call_entry_env c) = (\<lambda>_. True)" "tmp_stack_present (call_entry_env c)"
  "tmp_evt_present (call_entry_env c)" "ringbuf_accepts (call_entry_env c)"
  "map_accepts (call_return_env c) = (\<lambda>_. True)" "tmp_stack_present (call_return_env c)"
  "tmp_evt_present (call_return_env c)" "ringbuf_accepts (call_return_env c)"
  "env_tid (call_return_env c) = env_tid (call_entry_env c)"
  by (simp_all add: call_entry_env_def call_return_env_def) (simp add: env_tid_def)

lemma kernel_malloc_effect:
  "a \<noteq> 0 \<Longrightarrow> active_allocs (kernel_malloc a c st) = (active_allocs st)(a \<mapsto> call_info c) \<and>
             ring (kernel_malloc a c st) = ring st @ [malloc_event a c]"
  by (simp add: kernel_malloc_def bpf_defs Let_def malloc_event_def call_info_def call_pending_def)

lemma kernel_free_effect:
  "a \<noteq> 0 \<Longrightarrow> active_allocs (kernel_free a c st) = (active_allocs st)(a := None) \<and>
             ring (kernel_free a c st) = ring st @ [free_event a c]"
  by (auto simp: kernel_free_def bpf_defs Let_def free_event_def fun_upd_idem_iff split: option.split)

interpretation kernel: live_tracker
  "\<lambda>n st. active_allocs st 0 = None" active_allocs "\<lambda>a. a \<noteq> 0" call_info kernel_malloc kernel_free
  by unfold_locales (simp_all add: kernel_malloc_effect kernel_free_effect)

end
