(* ===== verification/Collector_Correct.thy ===== *)
theory Collector_Correct
  imports Collector Bpf_Correct
begin

text \<open>
  The handler of the collector on the events the kernel sends: it never reads beyond them, it
  keeps the table well formed, and it maintains, per address, a stack of live records. With
  memory to spare it is a tracker of live allocations in the sense of the prelude.
\<close>

section \<open>Reading a sent event\<close>

definition alloc_pcs_base :: "mem_event \<Rightarrow> nat option" where
  "alloc_pcs_base e =
     (if ev_type e = event_code EVENT_MALLOC_RETURN then Some MALLOC_RET_PCS
      else if ev_type e = event_code EVENT_CALLOC_RETURN then Some CALLOC_RET_PCS
      else if ev_type e = event_code EVENT_REALLOC_RETURN then Some REALLOC_RET_PCS
      else None)"

text \<open>The record of an allocation event, without the checks.\<close>

definition event_record :: "nat \<Rightarrow> mem_event \<Rightarrow> alloc_record" where
  "event_record base e =
     zero_record
       \<lparr>ar_addr := ev_words e ! 0, ar_size := ev_words e ! 1, ar_timestamp_alloc := ev_timestamp e,
        ar_pid := ev_pid e, ar_tid := ev_tid e, ar_live := 1, ar_stack_id := ev_stack_id e,
        ar_stack_depth := ev_stack_depth e,
        ar_stack_pcs := take (unat (ev_stack_depth e)) (drop base (ev_words e)) @
          replicate (COLLECTOR_MAX_STACK_DEPTH - unat (ev_stack_depth e)) 0,
        ar_hash_next := -1\<rparr>"

lemma event_record_simps [simp]:
  "ar_addr (event_record base e) = ev_words e ! 0" "ar_live (event_record base e) = 1"
  "ar_size (event_record base e) = ev_words e ! 1" "ar_stack_id (event_record base e) = ev_stack_id e"
  "ar_timestamp_alloc (event_record base e) = ev_timestamp e" "ar_pid (event_record base e) = ev_pid e"
  "ar_tid (event_record base e) = ev_tid e" "ar_stack_depth (event_record base e) = ev_stack_depth e"
  by (simp_all add: event_record_def)

lemma event_record_pcs:
  "event_shape e \<Longrightarrow> base \<le> REALLOC_RET_PCS \<Longrightarrow>
   length (ar_stack_pcs (event_record base e)) = COLLECTOR_MAX_STACK_DEPTH"
  by (auto simp: event_record_def event_shape_def layout_defs)

lemma alloc_pcs_base_le: "alloc_pcs_base e = Some base \<Longrightarrow> base \<le> REALLOC_RET_PCS"
  by (auto simp: alloc_pcs_base_def layout_defs split: if_splits)

lemma record_of_shaped_event:
  assumes "event_shape e" and "base \<le> REALLOC_RET_PCS"
  shows "record_of_event base e = Some (event_record base e)"
proof -
  have l: "length (ev_words e) = 35" "unat (ev_stack_depth e) \<le> 32" "base \<le> 3"
    using assms by (simp_all add: event_shape_def layout_defs)
  have "copy_pcs base e = Some (ar_stack_pcs (event_record base e))"
    using l by (auto simp: copy_pcs_def event_record_def zero_record_def overwrite_def layout_defs Let_def)
  with l show ?thesis
    by (simp add: record_of_event_def read_word_def event_record_def)
qed

lemma log_words_sent: "event_shape e \<Longrightarrow> list_all (\<lambda>i. i < 35) is \<Longrightarrow> log_words is e = Some ()"
  by (simp add: log_words_def event_shape_def layout_defs)

text \<open>
  What the handler does with an event it accepts: store the record of an allocation, release on
  \<open>free\<close>, and otherwise nothing. The counters of debug messages do not matter to it.
\<close>

lemma handle_alloc:
  assumes "event_shape e" and "alloc_pcs_base e = Some base"
    and "target_pid ctx = 0 \<or> ev_pid e = target_pid ctx"
  shows "\<exists>ctx'. handle_event hp e ctx = store_record hp (event_record base e) ctx' \<and>
    table ctx' = table ctx \<and> target_pid ctx' = target_pid ctx"
proof -
  have "handle_malloc_return hp e ctx = store_record hp (event_record MALLOC_RET_PCS e)
      (if log_count ctx < 20 then ctx\<lparr>log_count := log_count ctx + 1\<rparr> else ctx)"
    "handle_calloc_return hp e ctx = store_record hp (event_record CALLOC_RET_PCS e)
      (if calloc_log_count ctx < 10 then ctx\<lparr>calloc_log_count := calloc_log_count ctx + 1\<rparr> else ctx)"
    "handle_realloc_return hp e ctx = store_record hp (event_record REALLOC_RET_PCS e)
      (if realloc_log_count ctx < 10 then ctx\<lparr>realloc_log_count := realloc_log_count ctx + 1\<rparr> else ctx)"
    using assms(1)
    by (simp_all add: handle_malloc_return_def handle_calloc_return_def handle_realloc_return_def
        log_words_sent record_of_shaped_event layout_defs)
  with assms(2,3) show ?thesis
    by (auto simp: handle_event_def alloc_pcs_base_def split: if_splits)
qed

section \<open>One event\<close>

definition accepts_pid :: "collector_ctx \<Rightarrow> mem_event \<Rightarrow> bool" where
  "accepts_pid ctx e \<longleftrightarrow> target_pid ctx = 0 \<or> ev_pid e = target_pid ctx"

text \<open>
  The specification of the handler: per address a stack of live records, onto which an
  allocation pushes and from which a release pops.
\<close>

definition stack_spec ::
  "mem_event \<Rightarrow> (u64 \<Rightarrow> alloc_record list) \<Rightarrow> (u64 \<Rightarrow> alloc_record list)" where
  "stack_spec e S =
     (let a = ev_words e ! 0 in
      case alloc_pcs_base e of
        Some base \<Rightarrow> S(a := event_record base e # S a)
      | None \<Rightarrow> if ev_type e = event_code EVENT_FREE then S(a := tl (S a)) else S)"

text \<open>What of a record never changes once it is stored.\<close>

definition permanent :: "alloc_record \<Rightarrow> alloc_record" where
  "permanent r = r\<lparr>ar_live := 0, ar_timestamp_free := 0\<rparr>"

text \<open>The table after an event, compared with the one before.\<close>

definition table_extends :: "alloc_table \<Rightarrow> alloc_table \<Rightarrow> bool" where
  "table_extends t t' \<longleftrightarrow>
     table_inv t' \<and> count t \<le> count t' \<and> count t' \<le> Suc (count t) \<and>
     map permanent (take (count t) (records t')) = map permanent (take (count t) (records t)) \<and>
     (\<forall>r \<in> set (drop (count t) (take (count t') (records t'))).
        length (ar_stack_pcs r) = COLLECTOR_MAX_STACK_DEPTH)"

text \<open>Every stored record has a full array of program counters.\<close>

definition full_pcs :: "alloc_table \<Rightarrow> bool" where
  "full_pcs t \<longleftrightarrow>
     (\<forall>r \<in> set (take (count t) (records t)). length (ar_stack_pcs r) = COLLECTOR_MAX_STACK_DEPTH)"

lemma table_extends_full_pcs:
  assumes "table_extends t t'" and "full_pcs t"
  shows "full_pcs t'"
proof -
  have "map (length \<circ> ar_stack_pcs \<circ> permanent) (take (count t) (records t')) =
        map (length \<circ> ar_stack_pcs \<circ> permanent) (take (count t) (records t))"
    using assms(1) by (simp add: table_extends_def map_map [symmetric] del: map_map)
  then have m: "(length \<circ> ar_stack_pcs) ` set (take (count t) (records t')) =
      (length \<circ> ar_stack_pcs) ` set (take (count t) (records t))"
    by (simp add: permanent_def comp_def flip: set_map)
  have "length (ar_stack_pcs r) = COLLECTOR_MAX_STACK_DEPTH" if "r \<in> set (take (count t) (records t'))" for r
  proof -
    have "(length \<circ> ar_stack_pcs) r \<in> (length \<circ> ar_stack_pcs) ` set (take (count t) (records t))"
      using that m by blast
    then show ?thesis using assms(2) by (auto simp: full_pcs_def)
  qed
  moreover have "take (count t') (records t') =
      take (count t) (records t') @ drop (count t) (take (count t') (records t'))"
    using assms(1) by (simp add: table_extends_def)
      (metis append_take_drop_id min.absorb1 take_take)
  ultimately show ?thesis
    using assms(1) unfolding full_pcs_def table_extends_def by (metis Un_iff set_append)
qed

lemma table_extends_refl: "table_inv t \<Longrightarrow> table_extends t t"
  by (simp add: table_extends_def)

lemma permanent_released:
  "map permanent (take n (records (released i ts t))) = map permanent (take n (records t))"
proof -
  have "map permanent (records (released i ts t)) = map permanent (records t)"
    by (rule nth_equalityI; cases "i < length (records t)")
      (auto simp: released_def permanent_def nth_list_update list_update_beyond)
  then show ?thesis by (metis take_map)
qed

lemma store_record_effect:
  assumes inv: "table_inv (table ctx)" and room: "count (table ctx) < 2 ^ 31" and live: "ar_live rec \<noteq> 0"
    and len: "length (ar_stack_pcs rec) = COLLECTOR_MAX_STACK_DEPTH"
  shows "\<exists>ctx'. store_record hp rec ctx = Some ctx' \<and> target_pid ctx' = target_pid ctx \<and>
    table_extends (table ctx) (table ctx') \<and>
    (live_stack (table ctx') = (live_stack (table ctx))(ar_addr rec := rec # live_stack (table ctx) (ar_addr rec)) \<or>
     (\<exists>n. \<not> realloc_ok hp n) \<and> live_stack (table ctx') = live_stack (table ctx))"
  using inv room
proof (cases rule: add_alloc_record_cases [where hp = hp and rec = rec])
  case (pushed u)
  then have l: "count u < length (records u)" by (auto simp: table_inv_def)
  have "table_extends (table ctx) (Alloc_Table_Correct.pushed rec u)"
    using pushed room l len pushed_inv [of u rec]
    by (auto simp: table_extends_def pushed_simps take_Suc_conv_app_nth dest!: in_set_dropD)
  moreover have "live_stack (Alloc_Table_Correct.pushed rec u) =
      (live_stack (table ctx))(ar_addr rec := rec # live_stack (table ctx) (ar_addr rec))"
    using live_stack_pushed [OF l, of rec] live_stack_cong [of u "table ctx"] pushed live by auto
  ultimately show ?thesis
    using pushed(1) by (simp add: store_record_def)
next
  case (failed u)
  then have "live_stack u = live_stack (table ctx)" "\<exists>n. \<not> realloc_ok hp n"
    using live_stack_cong [of u "table ctx"] add_alloc_record_granted by auto
  with failed show ?thesis
    by (simp add: store_record_def table_extends_def)
qed

lemma handle_free_effect:
  assumes inv: "table_inv (table ctx)" and "event_shape e"
  shows "\<exists>ctx'. handle_free e ctx = Some ctx' \<and> target_pid ctx' = target_pid ctx \<and>
    table_extends (table ctx) (table ctx') \<and>
    live_stack (table ctx') = (live_stack (table ctx))(ev_words e ! 0 := tl (live_stack (table ctx) (ev_words e ! 0)))"
proof -
  let ?a = "ev_words e ! 0" and ?t = "table ctx"
  have rd: "read_word e 0 = Some ?a"
    using assms by (simp add: read_word_def event_shape_def layout_defs)
  have l: "count ?t \<le> length (records ?t)" using inv by (simp add: table_inv_def)
  show ?thesis
  proof (cases "newest_live ?t ?a")
    case None
    then have "live_stack ?t ?a = []" using newest_live_stack [OF l, of ?a] by simp
    then have "live_stack ?t = (live_stack ?t)(?a := tl (live_stack ?t ?a))" by auto
    with None rd show ?thesis
      using table_extends_refl [OF inv] by (simp add: handle_free_def find_live_alloc_newest [OF inv])
  next
    case (Some i)
    have "table_extends ?t (released i (ev_timestamp e) ?t)"
      using released_inv [OF inv] permanent_released by (simp add: table_extends_def) (simp add: released_def)
    with Some rd live_stack_released [OF l Some] show ?thesis
      by (simp add: handle_free_def find_live_alloc_newest [OF inv])
  qed
qed

lemma handle_event_effect:
  assumes "table_inv (table ctx)" and "count (table ctx) < 2 ^ 31" and "event_shape e"
  shows "\<exists>ctx'. handle_event hp e ctx = Some ctx' \<and> target_pid ctx' = target_pid ctx \<and>
    table_extends (table ctx) (table ctx') \<and>
    (live_stack (table ctx') =
       (if accepts_pid ctx e then stack_spec e (live_stack (table ctx)) else live_stack (table ctx)) \<or>
     (\<exists>n. \<not> realloc_ok hp n) \<and> alloc_pcs_base e \<noteq> None \<and>
     live_stack (table ctx') = live_stack (table ctx))"
proof (cases "accepts_pid ctx e")
  case False
  then show ?thesis
    using table_extends_refl [OF assms(1)] by (simp add: handle_event_def accepts_pid_def)
next
  case True
  then have pid: "target_pid ctx = 0 \<or> ev_pid e = target_pid ctx" by (simp add: accepts_pid_def)
  show ?thesis
  proof (cases "alloc_pcs_base e")
    case (Some base)
    obtain c where c: "handle_event hp e ctx = store_record hp (event_record base e) c"
      "table c = table ctx" "target_pid c = target_pid ctx"
      using handle_alloc [OF assms(3) Some pid] by blast
    then show ?thesis
      using store_record_effect [of c "event_record base e" hp] assms(1,2) True Some
        event_record_pcs [OF assms(3) alloc_pcs_base_le [OF Some]]
      by (auto simp: stack_spec_def Let_def)
  next
    case None
    then have ty: "ev_type e \<noteq> event_code EVENT_MALLOC_RETURN" "ev_type e \<noteq> event_code EVENT_CALLOC_RETURN"
      "ev_type e \<noteq> event_code EVENT_REALLOC_RETURN"
      by (auto simp: alloc_pcs_base_def split: if_splits)
    have "handle_event hp e ctx = (if ev_type e = event_code EVENT_FREE then handle_free e ctx else Some ctx)"
      using ty pid by (auto simp: handle_event_def)
    then show ?thesis
      using handle_free_effect [OF assms(1,3)] table_extends_refl [OF assms(1)] True None
      by (auto simp: stack_spec_def Let_def)
  qed
qed

text \<open>
  C5: On an event the kernel can send the handler always returns, without reading beyond the record;
  it keeps the table well formed, forgets no stored record, and changes the live records as the
  specification says. Only an allocation event whose memory was refused is dropped.
\<close>

theorem handle_event_refines:
  assumes "table_inv (table ctx)" and "count (table ctx) < 2 ^ 31" and "sent_event e"
  shows "\<exists>ctx'. handle_event hp e ctx = Some ctx' \<and> target_pid ctx' = target_pid ctx \<and>
    table_extends (table ctx) (table ctx') \<and>
    (live_stack (table ctx') =
       (if accepts_pid ctx e then stack_spec e (live_stack (table ctx)) else live_stack (table ctx)) \<or>
     (\<exists>n. \<not> realloc_ok hp n) \<and> alloc_pcs_base e \<noteq> None \<and>
     live_stack (table ctx') = live_stack (table ctx))"
  using handle_event_effect [OF assms(1,2)] assms(3) by (simp add: sent_event_def)

definition sample_ctx :: collector_ctx where
  "sample_ctx = zero_ctx\<lparr>table := fresh_table, ringbuf := True\<rparr>"

lemma sample_ctx:
  "table sample_ctx = fresh_table" "ringbuf sample_ctx" "target_pid sample_ctx = 0"
  by (simp_all add: sample_ctx_def zero_ctx_def)

text \<open>A release as the kernel sends it.\<close>

definition sample_free :: mem_event where
  "sample_free = put_word 0 0x7000 (header EVENT_FREE (sample_env 5 1))"

lemma sample_free_sent: "sent_event sample_free"
  by (simp add: sample_free_def sent_event_def event_shape_def layout_defs)

theorem handle_event_refines_witness:
  "\<exists>ctx'. handle_event good_heap sample_free sample_ctx = Some ctx' \<and> table_inv (table ctx')"
  using handle_event_refines [of sample_ctx sample_free good_heap] sample_free_sent
  by (auto simp: sample_ctx fresh_table_inv table_extends_def)

section \<open>Many events\<close>

lemma handle_event_frame:
  "handle_event hp e ctx = Some ctx' \<Longrightarrow>
   links ctx' = links ctx \<and> link_count ctx' = link_count ctx \<and> ringbuf ctx' = ringbuf ctx"
  by (auto simp: handle_event_def handle_malloc_return_def handle_calloc_return_def
      handle_realloc_return_def handle_free_def store_record_def bind_eq_Some_conv
      split: if_splits option.splits)

lemma handle_events_frame:
  "handle_events xs ctx = Some ctx' \<Longrightarrow>
   links ctx' = links ctx \<and> link_count ctx' = link_count ctx \<and> ringbuf ctx' = ringbuf ctx"
  by (induction xs arbitrary: ctx) (auto simp: bind_eq_Some_conv dest!: handle_event_frame)

definition granting :: "heap \<Rightarrow> bool" where
  "granting hp \<longleftrightarrow> (\<forall>n. realloc_ok hp n)"

text \<open>The specification over a list of events, with the filter on the process.\<close>

definition stack_run ::
  "u32 \<Rightarrow> mem_event list \<Rightarrow> (u64 \<Rightarrow> alloc_record list) \<Rightarrow> (u64 \<Rightarrow> alloc_record list)" where
  "stack_run pid es S = fold stack_spec (filter (\<lambda>e. pid = 0 \<or> ev_pid e = pid) es) S"

lemma stack_run_Cons:
  "stack_run pid (e # es) S = stack_run pid es (if pid = 0 \<or> ev_pid e = pid then stack_spec e S else S)"
  by (simp add: stack_run_def)

lemma handle_events_effect:
  assumes "table_inv (table ctx)" and "count (table ctx) + length xs < 2 ^ 31"
    and "\<forall>x \<in> set xs. event_shape (snd x)"
  shows "\<exists>ctx'. handle_events xs ctx = Some ctx' \<and> target_pid ctx' = target_pid ctx \<and>
    table_inv (table ctx') \<and> count (table ctx') \<le> count (table ctx) + length xs \<and>
    (full_pcs (table ctx) \<longrightarrow> full_pcs (table ctx')) \<and>
    ((\<forall>x \<in> set xs. granting (fst x)) \<longrightarrow>
     live_stack (table ctx') = stack_run (target_pid ctx) (map snd xs) (live_stack (table ctx)))"
  using assms
proof (induction xs arbitrary: ctx)
  case Nil
  then show ?case by (simp add: stack_run_def)
next
  case (Cons x xs)
  then obtain c where c: "handle_event (fst x) (snd x) ctx = Some c" "target_pid c = target_pid ctx"
    "table_extends (table ctx) (table c)"
    "granting (fst x) \<Longrightarrow> live_stack (table c) =
       (if accepts_pid ctx (snd x) then stack_spec (snd x) (live_stack (table ctx)) else live_stack (table ctx))"
    using handle_event_effect [of ctx "snd x" "fst x"] by (auto simp: granting_def)
  then have "table_inv (table c)" "count (table c) \<le> Suc (count (table ctx))"
    by (simp_all add: table_extends_def)
  with Cons.IH [of c] Cons.prems c table_extends_full_pcs [OF c(3)] show ?case
    by (force simp: stack_run_Cons accepts_pid_def)
qed

text \<open>
  C6: Polling: whatever was ready is handled, and when the allocator grants every request the live
  records afterwards are those of the specification run over the same events.
\<close>

theorem collector_poll_refines:
  assumes "table_inv (table ctx)" and "count (table ctx) + length ready < 2 ^ 31"
    and "\<forall>x \<in> set ready. sent_event (snd x) \<and> granting (fst x)" and "ringbuf ctx"
  shows "\<exists>ctx'. collector_poll ready rc (Some ctx) = Some (rc, Some ctx') \<and> table_inv (table ctx') \<and>
    (\<forall>a. collector_find_alloc (Some ctx') a = Some (newest_live (table ctx') a)) \<and>
    live_stack (table ctx') = stack_run (target_pid ctx) (map snd ready) (live_stack (table ctx))"
proof -
  have "\<forall>x \<in> set ready. event_shape (snd x)"
    using assms(3) by (auto simp: sent_event_def)
  from handle_events_effect [OF assms(1,2) this] assms(3,4) show ?thesis
    by (auto simp: collector_poll_def collector_find_alloc_def find_live_alloc_newest)
qed

theorem collector_poll_refines_witness:
  "\<exists>ctx'. collector_poll [(good_heap, sample_free), (good_heap, sample_free)] 2 (Some sample_ctx) =
      Some (2, Some ctx') \<and> table_inv (table ctx')"
  using collector_poll_refines [of sample_ctx "[(good_heap, sample_free), (good_heap, sample_free)]" 2]
    sample_free_sent
  by (auto simp: sample_ctx fresh_table_inv granting_def good_heap_def)

section \<open>The collector as a tracker\<close>

definition info_of_record :: "alloc_record \<Rightarrow> alloc_info" where
  "info_of_record r =
     \<lparr>ai_size = ar_size r, ai_stack_id = ar_stack_id r, ai_timestamp = ar_timestamp_alloc r,
      ai_pid = ar_pid r, ai_tid = ar_tid r\<rparr>"

text \<open>What \<^const>\<open>collector_find_alloc\<close> shows of an address.\<close>

definition collector_view :: "collector_ctx \<Rightarrow> u64 \<Rightarrow> alloc_info option" where
  "collector_view ctx a =
     (case collector_find_alloc (Some ctx) a of
        Some (Some i) \<Rightarrow> Some (info_of_record (records (table ctx) ! i))
      | _ \<Rightarrow> None)"

definition collector_malloc :: "u64 \<Rightarrow> call \<Rightarrow> collector_ctx \<Rightarrow> collector_ctx" where
  "collector_malloc a c ctx = the (handle_event good_heap (malloc_event a c) ctx)"

definition collector_free :: "u64 \<Rightarrow> call \<Rightarrow> collector_ctx \<Rightarrow> collector_ctx" where
  "collector_free a c ctx = the (handle_event good_heap (free_event a c) ctx)"

definition collector_room :: "nat \<Rightarrow> collector_ctx \<Rightarrow> bool" where
  "collector_room n ctx \<longleftrightarrow>
     table_inv (table ctx) \<and> count (table ctx) + n < 2 ^ 31 \<and> target_pid ctx = 0 \<and>
     (\<forall>a. length (live_stack (table ctx) a) \<le> 1)"

lemma collector_view_stack:
  "table_inv (table ctx) \<Longrightarrow>
   collector_view ctx a =
     (case live_stack (table ctx) a of [] \<Rightarrow> None | r # _ \<Rightarrow> Some (info_of_record r))"
  using newest_live_stack [of "table ctx" a]
  by (auto simp: collector_view_def collector_find_alloc_def find_live_alloc_newest table_inv_def
      split: option.splits list.splits)

lemma malloc_event_simps:
  "ev_type (malloc_event a c) = event_code EVENT_MALLOC_RETURN"
  "ev_words (malloc_event a c) ! 0 = a" "event_shape (malloc_event a c)"
  "alloc_pcs_base (malloc_event a c) = Some MALLOC_RET_PCS"
  "info_of_record (event_record MALLOC_RET_PCS (malloc_event a c)) = call_info c"
  by (simp_all add: malloc_event_def alloc_pcs_base_def attach_stack_below layout_defs event_shape_def
      attach_stack_depth [unfolded layout_defs] info_of_record_def call_info_def make_alloc_info_def call_pending_def)

lemma free_event_simps:
  "ev_type (free_event a c) = event_code EVENT_FREE" "ev_words (free_event a c) ! 0 = a"
  "event_shape (free_event a c)" "alloc_pcs_base (free_event a c) = None"
  by (simp_all add: free_event_def alloc_pcs_base_def layout_defs event_shape_def)

lemma collector_malloc_effect:
  assumes "collector_room (Suc n) ctx"
  shows "handle_event good_heap (malloc_event a c) ctx = Some (collector_malloc a c ctx) \<and>
    target_pid (collector_malloc a c ctx) = 0 \<and> table_inv (table (collector_malloc a c ctx)) \<and>
    count (table (collector_malloc a c ctx)) + n < 2 ^ 31 \<and>
    live_stack (table (collector_malloc a c ctx)) =
      (live_stack (table ctx))(a := event_record MALLOC_RET_PCS (malloc_event a c) # live_stack (table ctx) a)"
  using handle_event_effect [of ctx "malloc_event a c" good_heap] assms
  by (auto simp: collector_room_def malloc_event_simps good_heap_def collector_malloc_def accepts_pid_def
      table_extends_def stack_spec_def Let_def)

lemma handle_free_count: "handle_free e ctx = Some ctx' \<Longrightarrow> count (table ctx') = count (table ctx)"
  by (auto simp: handle_free_def released_def bind_eq_Some_conv split: option.splits)

lemma collector_free_effect:
  assumes "collector_room n ctx"
  shows "handle_event good_heap (free_event a c) ctx = Some (collector_free a c ctx) \<and>
    target_pid (collector_free a c ctx) = 0 \<and> table_inv (table (collector_free a c ctx)) \<and>
    count (table (collector_free a c ctx)) = count (table ctx) \<and>
    live_stack (table (collector_free a c ctx)) = (live_stack (table ctx))(a := tl (live_stack (table ctx) a))"
proof -
  have h: "handle_event good_heap (free_event a c) ctx = handle_free (free_event a c) ctx"
    using assms by (simp add: handle_event_def free_event_simps collector_room_def)
  obtain ctx' where c: "handle_free (free_event a c) ctx = Some ctx'" "target_pid ctx' = 0"
    "table_inv (table ctx')"
    "live_stack (table ctx') = (live_stack (table ctx))(a := tl (live_stack (table ctx) a))"
    using handle_free_effect [of ctx "free_event a c"] assms
    by (auto simp: collector_room_def free_event_simps table_extends_def)
  moreover have "collector_free a c ctx = ctx'"
    using h c(1) by (simp add: collector_free_def)
  ultimately show ?thesis
    using h handle_free_count [OF c(1)] by simp
qed

interpretation collector: live_tracker
  collector_room collector_view "\<lambda>a. a \<noteq> 0" call_info collector_malloc collector_free
proof unfold_locales
  fix n ctx and a :: u64 and c
  assume r: "collector_room (Suc n) ctx" and "collector_view ctx a = None"
  then have e: "live_stack (table ctx) a = []"
    by (auto simp: collector_view_stack collector_room_def split: list.splits)
  note m = collector_malloc_effect [OF r, of a c]
  show "collector_view (collector_malloc a c ctx) = (collector_view ctx)(a \<mapsto> call_info c)"
    using m r by (auto simp: collector_view_stack collector_room_def malloc_event_simps)
  show "collector_room n (collector_malloc a c ctx)"
    using m r e by (simp add: collector_room_def)
next
  fix n ctx and a :: u64 and c
  assume r: "collector_room n ctx"
  note m = collector_free_effect [OF r, of a c]
  have "length (live_stack (table ctx) a) \<le> 1" using r by (simp add: collector_room_def)
  then have tl: "tl (live_stack (table ctx) a) = []"
    by (cases "live_stack (table ctx) a") auto
  show "collector_view (collector_free a c ctx) = (collector_view ctx)(a := None)"
    using m r tl by (auto simp: collector_view_stack collector_room_def)
  show "collector_room n (collector_free a c ctx)"
    using m r tl by (simp add: collector_room_def)
qed

section \<open>Queries\<close>

text \<open>The loop of \<^const>\<open>collector_resolve_stack\<close>: the frames up to the first zero.\<close>

lemma resolve_loop_takeWhile:
  "length vs = COLLECTOR_MAX_STACK_DEPTH \<Longrightarrow>
   resolve_loop vs m i = takeWhile (\<lambda>x. x \<noteq> 0) (take (nat m - i) (drop i vs))"
proof (induction vs m i rule: resolve_loop.induct)
  case (1 vs m i)
  show ?case
  proof (cases "int i < m \<and> i < COLLECTOR_MAX_STACK_DEPTH")
    case True
    then have d: "drop i vs = vs ! i # drop (Suc i) vs"
      using "1.prems" by (simp add: Cons_nth_drop_Suc)
    have n: "nat m - i = Suc (nat m - Suc i)" using True by auto
    show ?thesis
      using True 1 by (subst resolve_loop.simps) (simp add: d n)
  next
    case False
    with "1.prems" show ?thesis
      by (subst resolve_loop.simps) auto
  qed
qed

text \<open>
  For at most 32 frames the result is the stack the kernel recorded and does not depend on what
  the buffer held before.
\<close>

theorem resolve_stack_kernel_frames:
  assumes "length junk = COLLECTOR_MAX_STACK_DEPTH" and "lookup (ucast sid) = Some v"
    and "length v = BPF_MAX_STACK_DEPTH" and "0 \<le> sint sid"
    and "max_depth \<le> int BPF_MAX_STACK_DEPTH \<or> 0 \<in> set v"
  shows "collector_resolve_stack lookup junk (Some ctx) sid max_depth =
     Inr (takeWhile (\<lambda>x. x \<noteq> 0) (take (nat max_depth) v))"
proof -
  have o: "overwrite junk v = v @ drop 32 junk"
    using assms by (simp add: overwrite_def layout_defs)
  have len: "length (v @ drop 32 junk) = COLLECTOR_MAX_STACK_DEPTH"
    using assms by (simp add: layout_defs)
  have "takeWhile (\<lambda>x. x \<noteq> 0) (take (nat max_depth) (v @ drop 32 junk)) =
        takeWhile (\<lambda>x. x \<noteq> 0) (take (nat max_depth) v)"
  proof (cases "nat max_depth \<le> 32")
    case True
    with assms(3) show ?thesis by (simp add: layout_defs)
  next
    case False
    with assms(5) have "0 \<in> set v" by (auto simp: layout_defs)
    with False assms(3) show ?thesis by (simp add: layout_defs takeWhile_append1)
  qed
  with assms o show ?thesis
    by (auto simp: collector_resolve_stack_def resolve_loop_takeWhile [OF len])
qed

text \<open>
  C30: Asked for more than 32 frames of a stack that fills the kernel's value, it returns whatever the
  uninitialised half of its buffer held.
\<close>

theorem resolve_stack_reads_junk:
  assumes "length junk = COLLECTOR_MAX_STACK_DEPTH" and "lookup (ucast sid) = Some v"
    and "length v = BPF_MAX_STACK_DEPTH" and "0 \<le> sint sid" and "0 \<notin> set v"
    and "int BPF_MAX_STACK_DEPTH < max_depth"
  shows "collector_resolve_stack lookup junk (Some ctx) sid max_depth =
     Inr (v @ takeWhile (\<lambda>x. x \<noteq> 0)
                (take (nat max_depth - BPF_MAX_STACK_DEPTH) (drop BPF_MAX_STACK_DEPTH junk)))"
proof -
  have o: "overwrite junk v = v @ drop 32 junk"
    using assms by (simp add: overwrite_def layout_defs)
  have len: "length (v @ drop 32 junk) = COLLECTOR_MAX_STACK_DEPTH"
    using assms by (simp add: layout_defs)
  have "takeWhile (\<lambda>x. x \<noteq> 0) v = v"
    using assms(5) by (auto simp: takeWhile_eq_all_conv)
  then show ?thesis
    using assms o
    by (auto simp: collector_resolve_stack_def resolve_loop_takeWhile [OF len] takeWhile_append)
      (auto simp: layout_defs)
qed

theorem resolve_stack_kernel_frames_witness:
  "collector_resolve_stack (\<lambda>_. Some ([1, 2] @ replicate 30 0)) (replicate 64 9) (Some sample_ctx) 7 64 = Inr [1, 2]"
  using resolve_stack_kernel_frames [of "replicate 64 9" "\<lambda>_. Some ([1, 2] @ replicate 30 0)" 7
      "[1, 2] @ replicate 30 0" 64 sample_ctx]
  by (simp add: layout_defs)

theorem resolve_stack_reads_junk_witness:
  "collector_resolve_stack (\<lambda>_. Some (replicate 32 5)) (replicate 32 0 @ [0xDEAD, 0xBEEF] @ replicate 30 0)
     (Some sample_ctx) 7 34 = Inr (replicate 32 5 @ [0xDEAD, 0xBEEF])"
  using resolve_stack_reads_junk [of "replicate 32 0 @ [0xDEAD, 0xBEEF] @ replicate 30 0"
      "\<lambda>_. Some (replicate 32 5)" 7 "replicate 32 5" 34 sample_ctx]
  by (simp add: layout_defs)

end
