(* ===== verification/Collector_Lifecycle.thy ===== *)
theory Collector_Lifecycle
  imports Collector_Correct Csv
begin

text \<open>
  The life of the collector process: \<open>collector_init\<close>, \<open>attach_uprobes\<close>, \<open>collector_start\<close> and
  \<open>collector_destroy\<close> of \<open>src/collector/collector.c\<close>, and \<open>main\<close> of \<open>src/collector/main.c\<close>.
  libbpf, the file system and the kernel answer through a \<open>host\<close>. What the process acquires and
  gives back is kept as a log in the global state, next to the pointer \<open>g_bpf_obj\<close>.
\<close>

section \<open>The host and the global state\<close>

datatype resource = RES_CTX | RES_TABLE | RES_OBJECT | RES_RING | RES_LINK nat

datatype resource_op = Acquire resource | Dispose resource

record globals =
  g_bpf_obj :: bool
  res_log :: "resource_op list"

record host =
  ctx_calloc_ok :: bool
  host_heap :: heap
  object_opens :: "string \<Rightarrow> bool"
  object_loads :: bool
  find_map :: "string \<Rightarrow> int option"
  ring_new_ok :: bool
  readable :: "string \<Rightarrow> bool"
  objdump_line :: "string \<Rightarrow> string \<Rightarrow> string option option"
  find_program :: "string \<Rightarrow> bool"
  attach_uprobe :: "string \<Rightarrow> bool \<Rightarrow> string \<Rightarrow> s64 \<Rightarrow> nat option"

definition acquire :: "resource \<Rightarrow> globals \<Rightarrow> globals" where
  "acquire r g = g\<lparr>res_log := res_log g @ [Acquire r]\<rparr>"

definition dispose :: "resource \<Rightarrow> globals \<Rightarrow> globals" where
  "dispose r g = g\<lparr>res_log := res_log g @ [Dispose r]\<rparr>"

section \<open>Attaching\<close>

fun first_readable :: "(string \<Rightarrow> bool) \<Rightarrow> string list \<Rightarrow> string" where
  "first_readable ok [] = ''libc.so.6''"
| "first_readable ok (p # ps) = (if ok p then p else first_readable ok ps)"

definition find_libc_path :: "host \<Rightarrow> string" where
  "find_libc_path h = first_readable (readable h)
     [''/lib/x86_64-linux-gnu/libc.so.6'', ''/lib64/libc.so.6'', ''/usr/lib/x86_64-linux-gnu/libc.so.6'',
      ''/usr/lib64/libc.so.6'', ''/lib/aarch64-linux-gnu/libc.so.6'',
      ''/usr/lib/aarch64-linux-gnu/libc.so.6'', ''libc.so.6'']"

text \<open>
  \<open>popen\<close> fails, or its output is empty, or has a first line, of which \<open>fgets\<close> reads at most 63
  characters.
\<close>

definition find_func_offset :: "host \<Rightarrow> string \<Rightarrow> string \<Rightarrow> s64" where
  "find_func_offset h path func =
     (case objdump_line h path func of
        None \<Rightarrow> - 1
      | Some None \<Rightarrow> - 1
      | Some (Some line) \<Rightarrow> strtoul 16 (take 63 line))"

definition PROBES :: "(string \<times> string \<times> bool) list" where
  "PROBES =
     [(''uprobe_malloc_entry'', ''malloc'', False), (''uprobe_malloc_return'', ''malloc'', True),
      (''uprobe_calloc_entry'', ''calloc'', False), (''uprobe_calloc_return'', ''calloc'', True),
      (''uprobe_realloc_entry'', ''realloc'', False), (''uprobe_realloc_return'', ''realloc'', True),
      (''uprobe_free'', ''free'', False), (''uprobe_mmap_entry'', ''mmap'', False),
      (''uprobe_munmap_entry'', ''munmap'', False)]"

fun attach_loop ::
  "host \<Rightarrow> string \<Rightarrow> (string \<times> string \<times> bool) list \<Rightarrow> collector_ctx \<times> globals \<Rightarrow> collector_ctx \<times> globals" where
  "attach_loop h path [] cg = cg"
| "attach_loop h path ((prog, func, retprobe) # ps) (ctx, g) =
     (if \<not> link_count ctx < MAX_ATTACH_POINTS then (ctx, g)
      else if \<not> find_program h prog then attach_loop h path ps (ctx, g)
      else
        let offset = find_func_offset h path func
        in if sint offset < 0 then attach_loop h path ps (ctx, g)
           else case attach_uprobe h prog retprobe path offset of
             None \<Rightarrow> attach_loop h path ps (ctx, g)
           | Some link \<Rightarrow>
               attach_loop h path ps
                 (ctx\<lparr>links := (links ctx)[link_count ctx := link], link_count := link_count ctx + 1\<rparr>,
                  acquire (RES_LINK link) g))"

definition attach_uprobes :: "host \<Rightarrow> collector_ctx \<Rightarrow> globals \<Rightarrow> int \<times> collector_ctx \<times> globals" where
  "attach_uprobes h ctx g =
     (let (ctx, g) = attach_loop h (find_libc_path h) PROBES (ctx\<lparr>link_count := 0\<rparr>, g)
      in (if 0 < link_count ctx then 0 else - 1, ctx, g))"

section \<open>Creation and destruction\<close>

definition fd_or :: "int option \<Rightarrow> int \<Rightarrow> int" where
  "fd_or m d = (case m of None \<Rightarrow> d | Some fd \<Rightarrow> fd)"

definition collector_init ::
  "host \<Rightarrow> string \<Rightarrow> u32 \<Rightarrow> string option \<Rightarrow> globals \<Rightarrow> collector_ctx option \<times> globals" where
  "collector_init h bpf_obj_path pid binary g =
     (if \<not> ctx_calloc_ok h then (None, g)
      else
        let g = acquire RES_CTX g;
            ctx = zero_ctx\<lparr>target_pid := pid\<rparr>;
            ctx = (case binary of None \<Rightarrow> ctx | Some b \<Rightarrow> ctx\<lparr>binary_path := take 511 b\<rparr>)
        in case alloc_table_init (host_heap h) 4096 of
             Inl _ \<Rightarrow> (None, dispose RES_CTX g)
           | Inr t \<Rightarrow>
               let g = acquire RES_TABLE g; ctx = ctx\<lparr>table := t\<rparr>
               in if \<not> object_opens h bpf_obj_path then
                    (None, dispose RES_CTX (dispose RES_TABLE g))
                  else
                    let g = acquire RES_OBJECT g
                    in if \<not> object_loads h then
                         (None, dispose RES_CTX (dispose RES_TABLE (dispose RES_OBJECT g)))
                       else
                         let g = g\<lparr>g_bpf_obj := True\<rparr>
                         in case find_map h ''events'' of
                              None \<Rightarrow> (None, dispose RES_CTX (dispose RES_TABLE (dispose RES_OBJECT g)))
                            | Some fd \<Rightarrow>
                                let ctx = ctx\<lparr>ringbuf_fd := fd,
                                     stack_map_fd := fd_or (find_map h ''stack_traces'') (stack_map_fd ctx),
                                     active_map_fd := fd_or (find_map h ''active_allocs'') (active_map_fd ctx),
                                     completed_map_fd :=
                                       fd_or (find_map h ''completed_allocs'') (completed_map_fd ctx)\<rparr>
                                in if \<not> ring_new_ok h then
                                     (None, dispose RES_CTX (dispose RES_TABLE (dispose RES_OBJECT g)))
                                   else (Some (ctx\<lparr>ringbuf := True, running := 0, link_count := 0\<rparr>),
                                         acquire RES_RING g))"

definition collector_destroy :: "collector_ctx option \<Rightarrow> globals \<Rightarrow> globals" where
  "collector_destroy c g =
     (case c of
        None \<Rightarrow> g
      | Some ctx \<Rightarrow>
          let g = fold (\<lambda>i. dispose (RES_LINK (links ctx ! i))) [0..<link_count ctx] g;
              g = (if ringbuf ctx then dispose RES_RING g else g);
              g = (if g_bpf_obj g then (dispose RES_OBJECT g)\<lparr>g_bpf_obj := False\<rparr> else g)
          in dispose RES_CTX (dispose RES_TABLE g))"

definition collector_start :: "host \<Rightarrow> collector_ctx option \<Rightarrow> globals \<Rightarrow> int \<times> collector_ctx option \<times> globals" where
  "collector_start h c g =
     (case c of
        None \<Rightarrow> (- errno_code EINVAL, None, g)
      | Some ctx \<Rightarrow>
          let (err, ctx, g) = attach_uprobes h ctx g
          in if err \<noteq> 0 then (- 1, Some ctx, g) else (0, Some (ctx\<lparr>running := 1\<rparr>), g))"

section \<open>The main loop\<close>

text \<open>
  What one iteration observes: the flag the signal handler clears, the records that are ready,
  the seconds since the start, whether the target process still exists, and, if it does not, what
  each of the further polls finds.
\<close>

type_synonym poll_input = "(heap \<times> mem_event) list \<times> int"

record tick =
  tk_running :: bool
  tk_poll :: poll_input
  tk_elapsed :: int
  tk_alive :: bool
  tk_drain :: "poll_input list"

definition poll_once :: "poll_input \<Rightarrow> collector_ctx \<Rightarrow> (int \<times> collector_ctx) option" where
  "poll_once inp ctx =
     (case collector_poll (fst inp) (snd inp) (Some ctx) of
        Some (rc, Some ctx) \<Rightarrow> Some (rc, ctx)
      | _ \<Rightarrow> None)"

text \<open>\<open>for (i = 0; i < 5 && collector_poll(ctx, 10) > 0; i++);\<close>\<close>

fun drain :: "nat \<Rightarrow> poll_input list \<Rightarrow> collector_ctx \<Rightarrow> collector_ctx option" where
  "drain i [] ctx = Some ctx"
| "drain i (inp # inps) ctx =
     (if i < 5 then
        do {
          (rc, ctx) \<leftarrow> poll_once inp ctx;
          if 0 < rc then drain (Suc i) inps ctx else Some ctx
        }
      else Some ctx)"

text \<open>
  The result is the state and whether the loop was left; when it was not, the inputs have run out.
\<close>

fun main_loop :: "u32 \<Rightarrow> int \<Rightarrow> tick list \<Rightarrow> collector_ctx \<Rightarrow> (bool \<times> collector_ctx) option" where
  "main_loop pid duration [] ctx = Some (False, ctx)"
| "main_loop pid duration (k # ks) ctx =
     (if \<not> tk_running k then Some (True, ctx)
      else
        do {
          (rc, ctx) \<leftarrow> poll_once (tk_poll k) ctx;
          if 0 < duration \<and> duration \<le> tk_elapsed k then Some (True, ctx)
          else if 0 < pid \<and> \<not> tk_alive k then
            do { ctx \<leftarrow> drain 0 (tk_drain k) ctx; Some (True, ctx) }
          else main_loop pid duration ks ctx
        })"

section \<open>The command line and the process\<close>

record main_opts =
  mo_pid :: u32
  mo_binary :: "string option"
  mo_bpf :: "string option"
  mo_output :: "string option"
  mo_duration :: s32
  mo_verbose :: bool

definition default_opts :: main_opts where
  "default_opts =
     \<lparr>mo_pid = 0, mo_binary = None, mo_bpf = None, mo_output = None, mo_duration = 0, mo_verbose = False\<rparr>"

text \<open>The switch over what \<open>getopt_long\<close> returns; \<^const>\<open>Inl\<close> is an early return.\<close>

fun parse_opts :: "(char \<times> string) list \<Rightarrow> main_opts \<Rightarrow> int + main_opts" where
  "parse_opts [] opts = Inr opts"
| "parse_opts ((c, arg) # rest) opts =
     (if c = CHR ''p'' then parse_opts rest (opts\<lparr>mo_pid := atoi arg\<rparr>)
      else if c = CHR ''b'' then parse_opts rest (opts\<lparr>mo_binary := Some arg\<rparr>)
      else if c = CHR ''B'' then parse_opts rest (opts\<lparr>mo_bpf := Some arg\<rparr>)
      else if c = CHR ''o'' then parse_opts rest (opts\<lparr>mo_output := Some arg\<rparr>)
      else if c = CHR ''d'' then parse_opts rest (opts\<lparr>mo_duration := atoi arg\<rparr>)
      else if c = CHR ''v'' then parse_opts rest (opts\<lparr>mo_verbose := True\<rparr>)
      else if c = CHR ''h'' then Inl 0
      else Inl 1)"

record main_result =
  mr_exit :: int
  mr_output :: "string option"
  mr_globals :: globals

text \<open>
  \<open>exe_link\<close> is what \<open>readlink\<close> finds for the target's executable and \<open>can_open\<close> whether the
  output file can be opened. No result means that the inputs ended before the loop was left.
\<close>

definition collector_main ::
  "host \<Rightarrow> (u32 \<Rightarrow> string option) \<Rightarrow> (string \<Rightarrow> bool) \<Rightarrow> (char \<times> string) list \<Rightarrow> tick list \<Rightarrow> globals
    \<Rightarrow> main_result option" where
  "collector_main h exe_link can_open argv ticks g =
     (case parse_opts argv default_opts of
        Inl code \<Rightarrow> Some \<lparr>mr_exit = code, mr_output = None, mr_globals = g\<rparr>
      | Inr opts \<Rightarrow>
          let binary = (if mo_binary opts = None \<and> mo_pid opts \<noteq> 0 then exe_link (mo_pid opts) else mo_binary opts);
              bpf_obj = (case mo_bpf opts of None \<Rightarrow> ''memscope.bpf.o'' | Some b \<Rightarrow> b)
          in case collector_init h bpf_obj (mo_pid opts) binary g of
               (None, g) \<Rightarrow> Some \<lparr>mr_exit = 1, mr_output = None, mr_globals = g\<rparr>
             | (Some ctx, g) \<Rightarrow>
                 (case collector_start h (Some ctx) g of
                    (err, c, g) \<Rightarrow>
                      if err \<noteq> 0
                      then Some \<lparr>mr_exit = 1, mr_output = None, mr_globals = collector_destroy c g\<rparr>
                      else
                        case main_loop (mo_pid opts) (sint (mo_duration opts)) ticks (the c) of
                          Some (True, ctx) \<Rightarrow>
                            (case collector_stop (Some ctx) of
                               (_, c) \<Rightarrow>
                                 Some \<lparr>mr_exit = 0,
                                       mr_output =
                                         (case mo_output opts of
                                            None \<Rightarrow> None
                                          | Some f \<Rightarrow> if can_open f then Some (write_csv_batch (table ctx)) else None),
                                       mr_globals = collector_destroy c g\<rparr>)
                        | _ \<Rightarrow> None))"

end
