(* ===== verification/Csv_Correct.thy ===== *)
theory Csv_Correct
  imports Csv
begin

text \<open>
  What the resolver reads back from the file the collector wrote: every record, in order, with its
  time of release in place of its time of allocation and without the program counters that are 0.
\<close>

section \<open>Program counters\<close>

definition pc_token :: "u64 \<Rightarrow> string" where
  "pc_token pc = ''0x'' @ print_hex pc"

fun pcs_text :: "u64 list \<Rightarrow> string" where
  "pcs_text [] = []"
| "pcs_text [p] = pc_token p"
| "pcs_text (p # q # ps) = pc_token p @ CHR '';'' # pcs_text (q # ps)"

lemma write_pcs_text:
  assumes "length (ar_stack_pcs r) = COLLECTOR_MAX_STACK_DEPTH"
  shows "write_pcs r j = (let ps = take (nat (sint (ar_stack_depth r)) - j) (drop j (ar_stack_pcs r)) in
    if ps = [] then [] else (if 0 < j then '';'' else []) @ pcs_text ps)"
  using assms
proof (induction r j rule: write_pcs.induct)
  case (1 r j)
  let ?d = "nat (sint (ar_stack_depth r))" and ?ps = "\<lambda>j. take (nat (sint (ar_stack_depth r)) - j) (drop j (ar_stack_pcs r))"
  show ?case
  proof (cases "int j < sint (ar_stack_depth r) \<and> j < COLLECTOR_MAX_STACK_DEPTH")
    case True
    then have "drop j (ar_stack_pcs r) = ar_stack_pcs r ! j # drop (Suc j) (ar_stack_pcs r)"
      using "1.prems" by (simp add: Cons_nth_drop_Suc)
    moreover have "?d - j = Suc (?d - Suc j)" using True by auto
    ultimately have ps: "?ps j = ar_stack_pcs r ! j # ?ps (Suc j)" by simp
    have IH: "write_pcs r (Suc j) = (if ?ps (Suc j) = [] then [] else CHR '';'' # pcs_text (?ps (Suc j)))"
      using 1 True by (simp add: Let_def)
    show ?thesis
      using True by (subst write_pcs.simps) (cases "?ps (Suc j)"; simp add: IH ps pc_token_def del: drop_eq_Nil take_eq_Nil take_eq_Nil2)
  next
    case False
    then have "?ps j = []" using "1.prems" by auto
    with False show ?thesis by (subst write_pcs.simps) simp
  qed
qed

lemma no_char:
  assumes "\<not> is_digit 16 c" and "c \<noteq> CHR ''-''"
  shows "c \<notin> set (print_hex w)" and "c \<notin> set (print_unsigned w)" and "c \<notin> set (print_signed w)"
  using printed_chars assms by blast+

lemma special_chars:
  "\<not> is_digit 16 (CHR '','')" "\<not> is_digit 16 (CHR '';'')" "\<not> is_digit 16 (CHR 0x0A)"
  "\<not> is_digit 16 (CHR 0x00)" "\<not> is_digit 16 (CHR ''x'')"
  "is_digit 16 (CHR ''0'')" "is_digit 16 (CHR ''1'')"
  by (simp_all add: is_digit_def digit_val_def)

lemma pc_token_chars: "c \<in> set (pc_token pc) \<Longrightarrow> is_digit 16 c \<or> c = CHR ''x''"
  using printed_chars(1) special_chars(6) by (auto simp: pc_token_def)

lemma getlines_pcs: "getlines (CHR '';'') (pcs_text ps) = map pc_token ps"
proof (induction ps rule: pcs_text.induct)
  case 1
  then show ?case by simp
next
  case (2 p)
  have "CHR '';'' \<notin> set (pc_token p)" using pc_token_chars special_chars by fastforce
  then have "getlines (CHR '';'') (pc_token p) = [pc_token p]"
    by (rule getlines_last) (simp add: pc_token_def)
  then show ?case by simp
next
  case (3 p q ps)
  have "CHR '';'' \<notin> set (pc_token p)" using pc_token_chars special_chars by fastforce
  with 3 show ?case by (simp add: getlines_line)
qed

lemma c_str_id: "CHR 0x00 \<notin> set s \<Longrightarrow> c_str s = s"
  using no_delimiter(1) [of "CHR 0x00" s "[]"] by (simp add: c_str_def)

lemma parse_pc_token: "parse_pc (pc_token p) = (if p \<noteq> 0 then [p] else [])"
proof -
  have "c_str (pc_token p) = pc_token p"
    using pc_token_chars special_chars by (intro c_str_id) fastforce
  moreover have "scan_conv (CULong 16) (print_hex p) = Some (VULong p, [])"
    using scan_hex [of "[]" p] by (simp add: ends_number_def)
  ultimately show ?thesis
    by (simp add: parse_pc_def PC_FORMAT_def pc_token_def del: scan_conv.simps)
qed

lemma parse_pcs_text: "parse_pcs (pcs_text ps) = filter (\<lambda>p. p \<noteq> 0) ps"
proof -
  have "concat (map (\<lambda>p. if p \<noteq> 0 then [p] else []) ps) = filter (\<lambda>p. p \<noteq> 0) ps"
    by (induction ps) auto
  then show ?thesis
    by (simp add: parse_pcs_def getlines_pcs comp_def parse_pc_token)
qed

section \<open>Rows\<close>

text \<open>The record as the resolver sees it.\<close>

definition loaded :: "alloc_record \<Rightarrow> alloc_entry" where
  "loaded r =
     \<lparr>ae_addr = ar_addr r, ae_size = ar_size r, ae_stack_id = ar_stack_id r,
      ae_timestamp = ar_timestamp_free r, ae_pid = ar_pid r, ae_tid = ar_tid r,
      ae_live = (if ar_live r \<noteq> 0 then 1 else 0), ae_stack_depth = ar_stack_depth r,
      ae_stack_pcs = filter (\<lambda>p. p \<noteq> 0) (take (nat (sint (ar_stack_depth r))) (ar_stack_pcs r))\<rparr>"

definition row_fields :: "alloc_record \<Rightarrow> string list" where
  "row_fields r =
     [''0x'' @ print_hex (ar_addr r), print_unsigned (ar_size r), print_unsigned (ar_pid r),
      print_unsigned (ar_tid r), if ar_live r \<noteq> 0 then ''1'' else ''0'',
      print_unsigned (ar_timestamp_alloc r), print_unsigned (ar_timestamp_free r),
      print_signed (ar_stack_id r), print_signed (ar_stack_depth r)]"

definition row_text :: "alloc_record \<Rightarrow> string" where
  "row_text r = concat (map (\<lambda>f. f @ '','') (row_fields r)) @ write_pcs r 0"

lemma write_row_text: "write_row r = row_text r @ [NL]"
  by (simp add: write_row_def row_text_def row_fields_def)

lemma after_comma_fields:
  "\<forall>f \<in> set fs. CHR '','' \<notin> set f \<Longrightarrow> n + length fs = 9 \<Longrightarrow> fs \<noteq> [] \<Longrightarrow>
   after_comma i n (concat (map (\<lambda>f. f @ '','') fs) @ rest) = i + length (concat (map (\<lambda>f. f @ '','') fs))"
proof (induction fs arbitrary: i n)
  case Nil
  then show ?case by simp
next
  case (Cons f fs)
  have skip: "after_comma i n (f @ CHR '','' # s) =
      (if Suc n = 9 then i + length f + 1 else after_comma (Suc (i + length f)) (Suc n) s)"
    if "CHR '','' \<notin> set f" for f s i
    using that by (induction f arbitrary: i) auto
  show ?case
    using Cons skip [of f i "concat (map (\<lambda>f. f @ '','') fs) @ rest"] by (cases fs) auto
qed

lemma row_fields_chars:
  "f \<in> set (row_fields r) \<Longrightarrow> c \<in> set f \<Longrightarrow> is_digit 16 c \<or> c = CHR ''-'' \<or> c = CHR ''x''"
  using special_chars(6,7) by (auto simp: row_fields_def dest: printed_chars split: if_splits)

lemma row_text_chars:
  assumes "length (ar_stack_pcs r) = COLLECTOR_MAX_STACK_DEPTH" and "c \<in> set (row_text r)"
  shows "is_digit 16 c \<or> c \<in> set [CHR ''-'', CHR ''x'', CHR '','', CHR '';'']"
proof -
  have "is_digit 16 x \<or> x = CHR ''x'' \<or> x = CHR '';''" if "x \<in> set (pcs_text ps)" for x ps
    using that pc_token_chars by (induction ps rule: pcs_text.induct) auto
  moreover have "write_pcs r 0 = pcs_text (take (nat (sint (ar_stack_depth r))) (ar_stack_pcs r))"
    using write_pcs_text [OF assms(1), of 0] by (auto simp: Let_def)
  ultimately show ?thesis
    using assms(2) row_fields_chars [of _ r c] by (auto simp: row_text_def split: if_splits)
qed

lemma not_in_row:
  assumes "length (ar_stack_pcs r) = COLLECTOR_MAX_STACK_DEPTH"
  shows "NL \<notin> set (row_text r)" and "CHR 0x00 \<notin> set (row_text r)"
  using row_text_chars [OF assms, of NL] row_text_chars [OF assms, of "CHR 0x00"] special_chars
  by (auto simp: NL_def)

text \<open>All nine conversions of a written row succeed.\<close>

lemma sscanf_conv:
  "scan_conv d s = Some (v, r) \<Longrightarrow> \<forall>c. d \<noteq> Lit c \<Longrightarrow> sscanf (d # ds) s = v # sscanf ds r"
  by (cases d) (simp_all del: scan_conv.simps)

lemma scan_comma: "ends_number (CHR '','' # s)"
  using special_chars(1) by (simp add: ends_number_def)

lemma sscanf_live:
  "sscanf (NotIn 7 (CHR '','') # ds) (CHR ''0'' # CHR '','' # s) = VString ''0'' # sscanf ds (CHR '','' # s)"
  "sscanf (NotIn 7 (CHR '','') # ds) (CHR ''1'' # CHR '','' # s) = VString ''1'' # sscanf ds (CHR '','' # s)"
  by simp_all

lemma sscanf_lit: "sscanf (Lit c # ds) (c # s) = sscanf ds s"
  by simp

lemma sscanf_row:
  "sscanf ROW_FORMAT (row_text r) =
     [VULong (ar_addr r), VULong (ar_size r), VUInt (ar_pid r), VUInt (ar_tid r),
      VString (if ar_live r \<noteq> 0 then ''1'' else ''0''), VULong (ar_timestamp_alloc r),
      VULong (ar_timestamp_free r), VLong (ar_stack_id r), VInt (ar_stack_depth r)]"
proof -
  note conv = scan_printed [THEN sscanf_conv]
  show ?thesis
    unfolding ROW_FORMAT_def row_text_def row_fields_def
    by (simp add: conv scan_comma sscanf_live sscanf_lit del: scan_conv.simps sscanf.simps) simp
qed

lemma parse_row_text:
  assumes "length (ar_stack_pcs r) = COLLECTOR_MAX_STACK_DEPTH"
  shows "parse_row (row_text r) = Some (loaded r)"
proof -
  let ?ps = "take (nat (sint (ar_stack_depth r))) (ar_stack_pcs r)"
  have pcs: "write_pcs r 0 = pcs_text ?ps"
    using write_pcs_text [OF assms, of 0] by (auto simp: Let_def)
  have nc: "\<forall>f \<in> set (row_fields r). CHR '','' \<notin> set f"
    using row_fields_chars [of _ r "CHR '',''"] special_chars(1) by auto
  have n9: "length (row_fields r) = 9" by (simp add: row_fields_def)
  have pos: "after_comma 0 0 (row_text r) = length (concat (map (\<lambda>f. f @ '','') (row_fields r)))"
    using after_comma_fields [OF nc, of 0 0 "write_pcs r 0"] n9 by (simp add: row_text_def row_fields_def)
  then have d: "drop (after_comma 0 0 (row_text r)) (row_text r) = pcs_text ?ps"
    "after_comma 0 0 (row_text r) < length (row_text r) \<longleftrightarrow> pcs_text ?ps \<noteq> []"
    by (simp_all add: row_text_def pcs)
  have p0: "0 < after_comma 0 0 (row_text r)"
    unfolding pos by (simp add: row_fields_def)
  have empty: "pcs_text ?ps = [] \<Longrightarrow> ?ps = []"
    by (cases ?ps rule: pcs_text.cases) (simp_all add: pc_token_def)
  show ?thesis
    using p0 d empty
    by (auto simp: parse_row_def Let_def c_str_id not_in_row [OF assms] sscanf_row parse_pcs_text
        loaded_def zero_entry_def)
qed

section \<open>Files\<close>

lemma getlines_rows:
  "\<forall>r \<in> set rs. length (ar_stack_pcs r) = COLLECTOR_MAX_STACK_DEPTH \<Longrightarrow>
   getlines NL (concat (map write_row rs)) = map row_text rs"
  by (induction rs) (simp_all add: write_row_text getlines_line not_in_row)

lemma csv_roundtrip_loaded:
  assumes "\<forall>r \<in> set (take (count t) (records t)). length (ar_stack_pcs r) = COLLECTOR_MAX_STACK_DEPTH"
  shows "load_csv (write_csv_batch t) = map loaded (take (count t) (records t))"
proof -
  let ?rs = "take (count t) (records t)"
  have "NL \<notin> set CSV_HEADER" by (simp add: CSV_HEADER_def NL_def)
  then have "tl (getlines NL (write_csv_batch t)) = map row_text ?rs"
    using getlines_rows [OF assms] by (simp add: write_csv_batch_def getlines_line)
  moreover have "List.map_filter parse_row (map row_text rs) = map loaded rs"
    if "\<forall>r \<in> set rs. length (ar_stack_pcs r) = COLLECTOR_MAX_STACK_DEPTH" for rs
    using that by (induction rs) (simp_all add: List.map_filter_simps parse_row_text)
  ultimately show ?thesis
    using assms by (simp add: load_csv_def)
qed

text \<open>
  C8: The round trip through the file, for any number of records: nothing is lost but the time of
  allocation, the program counters that are 0 and those beyond the recorded depth.
\<close>

theorem csv_roundtrip:
  assumes "\<forall>r \<in> set (take (count t) (records t)). length (ar_stack_pcs r) = COLLECTOR_MAX_STACK_DEPTH"
  shows "load_csv (write_csv_batch t) = map loaded (take (count t) (records t))"
  using assms by (rule csv_roundtrip_loaded)

definition sample_record :: alloc_record where
  "sample_record = zero_record\<lparr>ar_addr := 0x7000, ar_size := 40, ar_timestamp_alloc := 5,
     ar_timestamp_free := 9, ar_pid := 3, ar_tid := 4, ar_live := 0, ar_stack_id := - 1,
     ar_stack_depth := 2, ar_stack_pcs := [0x401000, 0] @ replicate 62 0\<rparr>"

definition sample_table :: alloc_table where
  "sample_table =
     \<lparr>records = [sample_record], count = 1, capacity = 1, hash_buckets = [], hash_next = [], hash_size = 0\<rparr>"

theorem csv_roundtrip_witness:
  "load_csv (write_csv_batch sample_table) =
     [\<lparr>ae_addr = 0x7000, ae_size = 40, ae_stack_id = - 1, ae_timestamp = 9, ae_pid = 3, ae_tid = 4,
       ae_live = 0, ae_stack_depth = 2, ae_stack_pcs = [0x401000]\<rparr>]"
  using csv_roundtrip [of sample_table]
  by (simp add: sample_table_def sample_record_def zero_record_def COLLECTOR_MAX_STACK_DEPTH_def loaded_def)

text \<open>An address given on the command line in hexadecimal or decimal is read as itself.\<close>

theorem parse_addr_printed:
  "parse_addr (''0x'' @ print_hex a) = a \<and> parse_addr (print_unsigned a) = a"
proof -
  have e: "ends_number []" by (simp add: ends_number_def)
  have hex: "scan_conv (CULong 16) (print_hex a) = Some (VULong a, [])"
    and dec: "scan_conv (CULong 10) (print_unsigned a) = Some (VULong a, [])"
    using scan_hex [OF e, of a] scan_unsigned [OF e, of a] by simp_all
  have "take 2 (print_unsigned a) \<noteq> ''0x''" "take 2 (print_unsigned a) \<noteq> ''0X''"
  proof -
    have "\<not> is_digit 16 (CHR ''X'')" by (simp add: is_digit_def digit_val_def)
    then have "CHR ''x'' \<notin> set (print_unsigned a)" "CHR ''X'' \<notin> set (print_unsigned a)"
      using printed_chars(2) special_chars(5) by blast+
    then show "take 2 (print_unsigned a) \<noteq> ''0x''" "take 2 (print_unsigned a) \<noteq> ''0X''"
      using set_take_subset [of 2 "print_unsigned a"] by auto
  qed
  then show ?thesis
    by (simp add: parse_addr_def hex dec del: scan_conv.simps)
qed

end
