(* ===== verification/Lifecycle_Correct.thy ===== *)
theory Lifecycle_Correct
  imports Collector_Lifecycle Csv_Correct
begin

text \<open>
  The process gives back everything it acquires, on every path; its main loop handles every event
  that is polled and ends when the target does.
\<close>

section \<open>Resources\<close>

definition held :: "resource \<Rightarrow> globals \<Rightarrow> int" where
  "held r g = int (count_list (res_log g) (Acquire r)) - int (count_list (res_log g) (Dispose r))"

lemma count_list_snoc: "count_list (xs @ [y]) x = count_list xs x + (if x = y then 1 else 0)"
  by (induction xs) auto

lemma held_simps [simp]:
  "held r (acquire q g) = held r g + (if r = q then 1 else 0)"
  "held r (dispose q g) = held r g - (if r = q then 1 else 0)"
  "held r (g\<lparr>g_bpf_obj := b\<rparr>) = held r g"
  "g_bpf_obj (acquire q g) = g_bpf_obj g" "g_bpf_obj (dispose q g) = g_bpf_obj g"
  by (simp_all add: held_def acquire_def dispose_def count_list_snoc)

text \<open>What a context holds: each of its links, once for every slot it is in.\<close>

definition link_slots :: "collector_ctx \<Rightarrow> nat \<Rightarrow> nat" where
  "link_slots ctx l = count_list (take (link_count ctx) (links ctx)) l"

fun owned :: "collector_ctx \<Rightarrow> resource \<Rightarrow> int" where
  "owned ctx (RES_LINK l) = int (link_slots ctx l)"
| "owned ctx RES_CTX = 1"
| "owned ctx RES_TABLE = 1"
| "owned ctx RES_OBJECT = 1"
| "owned ctx RES_RING = 1"

definition owns :: "collector_ctx \<Rightarrow> globals \<Rightarrow> bool" where
  "owns ctx g \<longleftrightarrow>
     ringbuf ctx \<and> g_bpf_obj g \<and> length (links ctx) = MAX_ATTACH_POINTS \<and>
     link_count ctx \<le> MAX_ATTACH_POINTS \<and> (\<forall>r. held r g = owned ctx r)"

lemma init_result:
  assumes "collector_init h path pid bin g = (c, g')" and "\<forall>r. held r g = 0"
  shows "(c = None \<longrightarrow> (\<forall>r. held r g' = 0)) \<and>
    (\<forall>ctx. c = Some ctx \<longrightarrow> owns ctx g' \<and> link_count ctx = 0 \<and> running ctx = 0 \<and> target_pid ctx = pid \<and>
       alloc_table_init (host_heap h) 4096 = Inr (table ctx))"
proof -
  have "owned ctx r = (case r of RES_LINK _ \<Rightarrow> 0 | _ \<Rightarrow> 1)" if "link_count ctx = 0" for ctx r
    using that by (cases r) (simp_all add: link_slots_def)
  then show ?thesis
    using assms
    by (auto simp: collector_init_def Let_def owns_def zero_ctx_def split: if_splits option.splits sum.splits resource.splits)
qed

text \<open>
  C25: A collector that was created has an empty, well-formed table and is not running; a creation
  that fails has given everything back.
\<close>

theorem collector_init_ready:
  assumes "collector_init h path pid bin \<lparr>g_bpf_obj = False, res_log = []\<rparr> = (c, g')"
  shows "case c of
      None \<Rightarrow> \<forall>r. held r g' = 0
    | Some ctx \<Rightarrow> table_inv (table ctx) \<and> count (table ctx) = 0 \<and> capacity (table ctx) = 4096 \<and>
        ringbuf ctx \<and> running ctx = 0 \<and> link_count ctx = 0 \<and> target_pid ctx = pid \<and>
        (\<forall>r. held r g' = owned ctx r)"
proof -
  have z: "\<forall>r. held r \<lparr>g_bpf_obj = False, res_log = []\<rparr> = 0" by (simp add: held_def)
  have "capacity t = 4096" if "alloc_table_init (host_heap h) 4096 = Inr t" for t
    using that by (auto simp: alloc_table_init_def Let_def split: if_splits)
  with init_result [OF assms z] init_inv [of "host_heap h" 4096] show ?thesis
    by (auto simp: owns_def split: option.split)
qed

theorem collector_init_ready_witness:
  "\<exists>ctx g'. collector_init
       \<lparr>ctx_calloc_ok = True, host_heap = good_heap, object_opens = (\<lambda>_. True), object_loads = True,
        find_map = (\<lambda>_. Some 3), ring_new_ok = True, readable = (\<lambda>_. True),
        objdump_line = (\<lambda>_ _. None), find_program = (\<lambda>_. True), attach_uprobe = (\<lambda>_ _ _ _. None)\<rparr>
       ''memscope.bpf.o'' 7 None \<lparr>g_bpf_obj = False, res_log = []\<rparr> = (Some ctx, g') \<and> table_inv (table ctx)"
proof -
  let ?h = "\<lparr>ctx_calloc_ok = True, host_heap = good_heap, object_opens = (\<lambda>_. True), object_loads = True,
        find_map = (\<lambda>_. Some 3), ring_new_ok = True, readable = (\<lambda>_. True),
        objdump_line = (\<lambda>_ _. None), find_program = (\<lambda>_. True), attach_uprobe = (\<lambda>_ _ _ _. None)\<rparr>"
  obtain ctx g' where i: "collector_init ?h ''memscope.bpf.o'' 7 None \<lparr>g_bpf_obj = False, res_log = []\<rparr> = (Some ctx, g')"
    by (auto simp: collector_init_def alloc_table_init_def good_heap_def Let_def)
  with collector_init_ready [OF i] show ?thesis by auto
qed

lemma attach_loop_owns:
  "attach_loop h path ps (ctx, g) = (ctx', g') \<Longrightarrow> owns ctx g \<Longrightarrow>
   owns ctx' g' \<and> table ctx' = table ctx \<and> target_pid ctx' = target_pid ctx"
proof (induction h path ps "(ctx, g)" arbitrary: ctx g rule: attach_loop.induct)
  case (1 h path)
  then show ?case by simp
next
  case (2 h path prog func retprobe ps ctx g)
  have step: "owns (ctx\<lparr>links := (links ctx)[link_count ctx := link], link_count := link_count ctx + 1\<rparr>)
      (acquire (RES_LINK link) g)" if "link_count ctx < MAX_ATTACH_POINTS" for link
  proof -
    have "owned (ctx\<lparr>links := (links ctx)[link_count ctx := link], link_count := link_count ctx + 1\<rparr>) r =
        owned ctx r + (if r = RES_LINK link then 1 else 0)" for r
      using that "2.prems"(2)
      by (cases r) (auto simp: link_slots_def owns_def take_Suc_conv_app_nth count_list_snoc)
    with that "2.prems"(2) show ?thesis by (auto simp: owns_def)
  qed
  show ?case
    using 2 step by (fastforce simp: Let_def split: if_splits option.splits)
qed

lemma held_fold_links:
  "held r (fold (\<lambda>i. dispose (RES_LINK (xs ! i))) [0..<n] g) =
     held r g - (case r of RES_LINK l \<Rightarrow> int (count_list (map ((!) xs) [0..<n]) l) | _ \<Rightarrow> 0) \<and>
   g_bpf_obj (fold (\<lambda>i. dispose (RES_LINK (xs ! i))) [0..<n] g) = g_bpf_obj g"
  by (induction n) (auto simp: count_list_snoc split: resource.splits)

lemma destroy_releases:
  assumes "owns ctx g"
  shows "held r (collector_destroy (Some ctx) g) = 0 \<and> \<not> g_bpf_obj (collector_destroy (Some ctx) g)"
proof -
  have t: "take (link_count ctx) (links ctx) = map ((!) (links ctx)) [0..<link_count ctx]"
    using assms by (intro nth_equalityI) (auto simp: owns_def)
  have r: "held r g = owned ctx r" using assms by (simp add: owns_def)
  show ?thesis
    using assms r held_fold_links [of r "links ctx" "link_count ctx" g]
    by (cases r) (auto simp: collector_destroy_def owns_def Let_def link_slots_def t)
qed

section \<open>The main loop\<close>

definition same_handles :: "collector_ctx \<Rightarrow> collector_ctx \<Rightarrow> bool" where
  "same_handles c d \<longleftrightarrow> links d = links c \<and> link_count d = link_count c \<and> ringbuf d = ringbuf c"

lemma same_handles_owns: "same_handles c d \<Longrightarrow> owns c g \<Longrightarrow> owns d g"
proof -
  assume s: "same_handles c d" and o: "owns c g"
  have "owned d r = owned c r" for r
    using s by (cases r) (simp_all add: same_handles_def link_slots_def)
  with s o show ?thesis by (simp add: same_handles_def owns_def)
qed

lemma poll_once_frame: "poll_once inp ctx = Some (rc, ctx') \<Longrightarrow> same_handles ctx ctx'"
  by (auto simp: poll_once_def collector_poll_def same_handles_def bind_eq_Some_conv
      dest!: handle_events_frame split: if_splits option.splits prod.splits)

lemma same_handles_trans: "same_handles c d \<Longrightarrow> same_handles d e \<Longrightarrow> same_handles c e"
  by (simp add: same_handles_def)

lemma same_handles_refl: "same_handles c c"
  by (simp add: same_handles_def)

lemma drain_frame: "drain i inps ctx = Some ctx' \<Longrightarrow> same_handles ctx ctx'"
proof (induction inps arbitrary: i ctx)
  case Nil
  then show ?case by (simp add: same_handles_refl)
next
  case (Cons inp inps)
  show ?case
  proof (cases "i < 5")
    case True
    then obtain rc c where p: "poll_once inp ctx = Some (rc, c)"
      and d: "(if 0 < rc then drain (Suc i) inps c else Some c) = Some ctx'"
      using Cons.prems by (auto simp: bind_eq_Some_conv)
    show ?thesis
      using poll_once_frame [OF p] Cons.IH [of "Suc i" c] d same_handles_trans
      by (cases "0 < rc") auto
  next
    case False
    with Cons.prems show ?thesis by (simp add: same_handles_refl)
  qed
qed

lemma main_loop_frame: "main_loop pid duration ks ctx = Some (b, ctx') \<Longrightarrow> same_handles ctx ctx'"
proof (induction ks arbitrary: ctx)
  case Nil
  then show ?case by (simp add: same_handles_refl)
next
  case (Cons k ks)
  show ?case
  proof (cases "tk_running k")
    case True
    then obtain rc c where p: "poll_once (tk_poll k) ctx = Some (rc, c)"
      using Cons.prems by (auto simp: bind_eq_Some_conv)
    note f = poll_once_frame [OF p]
    consider "0 < duration \<and> duration \<le> tk_elapsed k" "ctx' = c"
      | "drain 0 (tk_drain k) c = Some ctx'" | "main_loop pid duration ks c = Some (b, ctx')"
      using Cons.prems True p by (auto simp: bind_eq_Some_conv split: if_splits)
    then show ?thesis
      using f drain_frame Cons.IH same_handles_trans by cases blast+
  next
    case False
    with Cons.prems show ?thesis by (simp add: same_handles_refl)
  qed
qed

text \<open>
  C24: On every path through \<open>main\<close> that ends, whatever the host answers, all that was acquired has been
  given back: the context, the table, the BPF object, the ring buffer and every link.
\<close>

theorem main_releases_everything:
  assumes "collector_main h exe_link can_open argv ticks \<lparr>g_bpf_obj = False, res_log = []\<rparr> = Some res"
  shows "held r (mr_globals res) = 0"
proof (cases "parse_opts argv default_opts")
  case (Inl code)
  with assms show ?thesis by (auto simp: collector_main_def held_def)
next
  case (Inr opts)
  let ?g0 = "\<lparr>g_bpf_obj = False, res_log = []\<rparr>"
  define bin where "bin = (if mo_binary opts = None \<and> mo_pid opts \<noteq> 0 then exe_link (mo_pid opts) else mo_binary opts)"
  define path where "path = (case mo_bpf opts of None \<Rightarrow> ''memscope.bpf.o'' | Some b \<Rightarrow> b)"
  obtain c g1 where init: "collector_init h path (mo_pid opts) bin ?g0 = (c, g1)" by fastforce
  have zero: "\<forall>r. held r ?g0 = 0" by (simp add: held_def)
  note res = init_result [OF init zero]
  show ?thesis
  proof (cases c)
    case None
    with assms Inr init res show ?thesis
      by (simp add: collector_main_def bin_def path_def Let_def)
        (auto simp: held_def)
  next
    case (Some ctx)
    with res have own: "owns ctx g1" "link_count ctx = 0" by simp_all
    obtain ctx2 g2 where at: "attach_loop h (find_libc_path h) PROBES (ctx\<lparr>link_count := 0\<rparr>, g1) = (ctx2, g2)"
      by fastforce
    have "ctx\<lparr>link_count := 0\<rparr> = ctx" using own(2) by simp
    then have own2: "owns ctx2 g2" using attach_loop_owns at own(1) by metis
    show ?thesis
    proof (cases "0 < link_count ctx2")
      case False
      with assms Inr init Some at show ?thesis
        using destroy_releases [OF own2]
        by (auto simp: collector_main_def bin_def path_def Let_def collector_start_def attach_uprobes_def)
    next
      case True
      have own3: "owns (ctx2\<lparr>running := 1\<rparr>) g2"
        using own2 by (rule same_handles_owns [rotated]) (simp add: same_handles_def)
      obtain b ctx3 where loop: "main_loop (mo_pid opts) (sint (mo_duration opts)) ticks (ctx2\<lparr>running := 1\<rparr>) = Some (b, ctx3)"
        and fin: "mr_globals res = collector_destroy (Some (ctx3\<lparr>running := 0\<rparr>)) g2"
        using assms Inr init Some at True
        by (auto simp: collector_main_def bin_def path_def Let_def collector_start_def attach_uprobes_def
            collector_stop_def split: option.splits bool.splits)
      have "owns ctx3 g2" by (rule same_handles_owns [OF main_loop_frame [OF loop] own3])
      then have "owns (ctx3\<lparr>running := 0\<rparr>) g2"
        by (rule same_handles_owns [rotated]) (simp add: same_handles_def)
      then show ?thesis using destroy_releases fin by simp
    qed
  qed
qed

theorem main_releases_everything_witness:
  "\<exists>res. collector_main
       \<lparr>ctx_calloc_ok = True, host_heap = good_heap, object_opens = (\<lambda>_. True), object_loads = False,
        find_map = (\<lambda>_. None), ring_new_ok = True, readable = (\<lambda>_. True),
        objdump_line = (\<lambda>_ _. None), find_program = (\<lambda>_. True), attach_uprobe = (\<lambda>_ _ _ _. None)\<rparr>
       (\<lambda>_. None) (\<lambda>_. True) [] [] \<lparr>g_bpf_obj = False, res_log = []\<rparr> = Some res \<and>
     held RES_OBJECT (mr_globals res) = 0 \<and> res_log (mr_globals res) \<noteq> []"
proof -
  let ?h = "\<lparr>ctx_calloc_ok = True, host_heap = good_heap, object_opens = (\<lambda>_. True), object_loads = False,
        find_map = (\<lambda>_. None), ring_new_ok = True, readable = (\<lambda>_. True),
        objdump_line = (\<lambda>_ _. None), find_program = (\<lambda>_. True), attach_uprobe = (\<lambda>_ _ _ _. None)\<rparr>"
  obtain res where r: "collector_main ?h (\<lambda>_. None) (\<lambda>_. True) [] [] \<lparr>g_bpf_obj = False, res_log = []\<rparr> = Some res"
    and l: "res_log (mr_globals res) \<noteq> []"
    by (simp add: collector_main_def collector_init_def alloc_table_init_def good_heap_def Let_def
        default_opts_def acquire_def dispose_def)
  with main_releases_everything [OF r, of RES_OBJECT] show ?thesis by blast
qed

section \<open>Handling everything, and stopping\<close>

definition tick_events :: "tick \<Rightarrow> (heap \<times> mem_event) list" where
  "tick_events k = fst (tk_poll k) @ concat (map fst (tk_drain k))"

text \<open>The conditions under which the loop is left.\<close>

definition tick_stops :: "u32 \<Rightarrow> int \<Rightarrow> tick \<Rightarrow> bool" where
  "tick_stops pid duration k \<longleftrightarrow>
     \<not> tk_running k \<or> 0 < duration \<and> duration \<le> tk_elapsed k \<or> 0 < pid \<and> \<not> tk_alive k"

definition ctx_ok :: "nat \<Rightarrow> collector_ctx \<Rightarrow> bool" where
  "ctx_ok n ctx \<longleftrightarrow>
     ringbuf ctx \<and> table_inv (table ctx) \<and> full_pcs (table ctx) \<and> count (table ctx) + n < 2 ^ 31"

lemma poll_once_ok:
  assumes "ctx_ok (length (fst inp) + n) ctx" and "\<forall>x \<in> set (fst inp). sent_event (snd x)"
  shows "\<exists>c. poll_once inp ctx = Some (snd inp, c) \<and> ctx_ok n c"
proof -
  have "\<forall>x \<in> set (fst inp). event_shape (snd x)" using assms(2) by (auto simp: sent_event_def)
  then obtain c where c: "handle_events (fst inp) ctx = Some c" "table_inv (table c)" "full_pcs (table c)"
    "count (table c) \<le> count (table ctx) + length (fst inp)"
    using handle_events_effect [of ctx "fst inp"] assms(1) by (auto simp: ctx_ok_def)
  then show ?thesis
    using assms(1) handle_events_frame [OF c(1)]
    by (auto simp: poll_once_def collector_poll_def ctx_ok_def)
qed

lemma drain_ok:
  "ctx_ok (length (concat (map fst inps)) + n) ctx \<Longrightarrow>
   \<forall>x \<in> set (concat (map fst inps)). sent_event (snd x) \<Longrightarrow>
   \<exists>c. drain i inps ctx = Some c \<and> ctx_ok n c"
proof (induction inps arbitrary: i ctx)
  case Nil
  then show ?case by simp
next
  case (Cons inp inps)
  have weaker: "ctx_ok (m + k) c \<Longrightarrow> ctx_ok k c" for m k c by (simp add: ctx_ok_def)
  have "ctx_ok (length (fst inp) + (length (concat (map fst inps)) + n)) ctx"
    using Cons.prems(1) by (simp add: add.assoc)
  moreover have "\<forall>x \<in> set (fst inp). sent_event (snd x)" using Cons.prems(2) by simp
  ultimately obtain c where c: "poll_once inp ctx = Some (snd inp, c)"
    "ctx_ok (length (concat (map fst inps)) + n) c"
    using poll_once_ok by blast
  have "\<exists>e. drain (Suc i) inps c = Some e \<and> ctx_ok n e"
    using Cons.prems(2) by (intro Cons.IH [OF c(2)]) simp
  moreover have "ctx_ok n c" by (rule weaker [OF c(2)])
  moreover have "ctx_ok n ctx" using weaker [OF Cons.prems(1)] .
  ultimately show ?case using c(1) by auto
qed

text \<open>
  C7: As long as the kernel sends well-shaped events and fewer than \<open>2 ^ 31\<close> of them, no event breaks
  the collector, and the loop is left in the first iteration in which the user interrupts, the
  duration is over, or the target is gone.
\<close>

theorem main_loop_stops:
  assumes "ctx_ok (length (concat (map tick_events ticks))) ctx"
    and "\<forall>x \<in> set (concat (map tick_events ticks)). sent_event (snd x)"
    and "\<exists>k \<in> set ticks. tick_stops pid duration k"
  shows "\<exists>ctx'. main_loop pid duration ticks ctx = Some (True, ctx') \<and> ctx_ok 0 ctx'"
  using assms
proof (induction ticks arbitrary: ctx)
  case Nil
  then show ?case by simp
next
  case (Cons k ks)
  let ?rest = "length (concat (map tick_events ks))"
  have weaker: "ctx_ok (m + j) c \<Longrightarrow> ctx_ok j c" for m j c by (simp add: ctx_ok_def)
  show ?case
  proof (cases "tk_running k")
    case False
    then show ?thesis using Cons.prems(1) weaker [of _ 0 ctx] by simp
  next
    case True
    have "ctx_ok (length (fst (tk_poll k)) + (length (concat (map fst (tk_drain k))) + ?rest)) ctx"
      using Cons.prems(1) by (simp add: tick_events_def [of k] add.assoc)
    moreover have "\<forall>x \<in> set (fst (tk_poll k)). sent_event (snd x)"
      using Cons.prems(2) by (simp add: tick_events_def [of k])
    ultimately obtain c where c: "poll_once (tk_poll k) ctx = Some (snd (tk_poll k), c)"
      "ctx_ok (length (concat (map fst (tk_drain k))) + ?rest) c"
      using poll_once_ok by blast
    have "\<forall>x \<in> set (concat (map fst (tk_drain k))). sent_event (snd x)"
      using Cons.prems(2) by (simp add: tick_events_def [of k])
    then obtain d where d: "drain 0 (tk_drain k) c = Some d" "ctx_ok ?rest d"
      using drain_ok [OF c(2)] by blast
    have ok: "ctx_ok 0 c" "ctx_ok 0 d" "ctx_ok ?rest c"
      using c(2) d(2) weaker [of _ 0] weaker [of _ ?rest c] by auto
    show ?thesis
    proof (cases "tick_stops pid duration k")
      case stop: True
      then show ?thesis using True c(1) d(1) ok by (auto simp: tick_stops_def)
    next
      case False
      then have "\<exists>k \<in> set ks. tick_stops pid duration k" using Cons.prems(3) by auto
      then obtain e where "main_loop pid duration ks c = Some (True, e)" "ctx_ok 0 e"
        using Cons.IH [OF ok(3)] Cons.prems(2) by auto
      with False True c(1) show ?thesis by (auto simp: tick_stops_def)
    qed
  qed
qed

theorem main_loop_stops_witness:
  "\<exists>ctx'. main_loop 9 0
      [\<lparr>tk_running = True, tk_poll = ([(good_heap, sample_free)], 1), tk_elapsed = 0, tk_alive = True, tk_drain = []\<rparr>,
       \<lparr>tk_running = True, tk_poll = ([], 0), tk_elapsed = 0, tk_alive = False,
        tk_drain = [([(good_heap, sample_free)], 1), ([], 0)]\<rparr>] sample_ctx = Some (True, ctx')"
  using main_loop_stops [of "[\<lparr>tk_running = True, tk_poll = ([(good_heap, sample_free)], 1), tk_elapsed = 0, tk_alive = True, tk_drain = []\<rparr>,
       \<lparr>tk_running = True, tk_poll = ([], 0), tk_elapsed = 0, tk_alive = False,
        tk_drain = [([(good_heap, sample_free)], 1), ([], 0)]\<rparr>]" sample_ctx 9 0]
    sample_free_sent
  by (simp add: ctx_ok_def sample_ctx fresh_table_inv tick_events_def tick_stops_def full_pcs_def del: main_loop.simps) blast

end
