(* ===== verification/Bpf_Smp.thy ===== *)
theory Bpf_Smp
  imports Bpf_Correct
begin

text \<open>
  Probes on several CPUs. \<open>tmp_evt_buf\<close> is a \<open>BPF_MAP_TYPE_ARRAY\<close> with one element, shared by all
  CPUs. A handler that sends an event clears that record, fills it field by field and passes it to
  \<open>bpf_ringbuf_output\<close>; nothing keeps another CPU from doing the same at the same time.

  The relation \<open>smp_step\<close> splits a hit into its start, one step for every write to the shared
  record, and the call of \<open>bpf_ringbuf_output\<close>. The operations on the maps, which are keyed by
  thread or address, are taken with the start, and the ring buffer copies the record in one step, so
  every run of the relation is one of the program but not the other way round. What is proved is
  therefore that certain runs exist; no property of all interleavings is claimed.
\<close>

section \<open>The writes to the shared record\<close>

datatype event_write =
    Memset
  | Set_type u32
  | Set_pid u32
  | Set_tid u32
  | Set_timestamp u64
  | Set_stack_id s64
  | Set_word nat u64
  | Set_prot s32
  | Set_flags s32
  | Set_depth u32
  | Clamp_depth
  | Copy_pc nat nat u64

text \<open>
  One assignment through \<open>evt\<close>. \<open>Clamp_depth\<close> is the statement that bounds \<open>evt->stack_depth\<close>, which
  it reads back from the shared record. \<open>prot\<close> and \<open>flags\<close> are the halves of word 2.
\<close>

primrec put_field :: "event_write \<Rightarrow> mem_event \<Rightarrow> mem_event" where
  "put_field Memset e = zero_event"
| "put_field (Set_type v) e = e\<lparr>ev_type := v\<rparr>"
| "put_field (Set_pid v) e = e\<lparr>ev_pid := v\<rparr>"
| "put_field (Set_tid v) e = e\<lparr>ev_tid := v\<rparr>"
| "put_field (Set_timestamp v) e = e\<lparr>ev_timestamp := v\<rparr>"
| "put_field (Set_stack_id v) e = e\<lparr>ev_stack_id := v\<rparr>"
| "put_field (Set_word i v) e = put_word i v e"
| "put_field (Set_prot v) e =
     put_word 2 (push_bit 32 (drop_bit 32 (ev_words e ! 2)) OR ucast v) e"
| "put_field (Set_flags v) e =
     put_word 2 (take_bit 32 (ev_words e ! 2) OR push_bit 32 (ucast v)) e"
| "put_field (Set_depth v) e = e\<lparr>ev_stack_depth := v\<rparr>"
| "put_field Clamp_depth e =
     (if of_nat BPF_MAX_STACK_DEPTH < ev_stack_depth e
      then e\<lparr>ev_stack_depth := of_nat BPF_MAX_STACK_DEPTH\<rparr> else e)"
| "put_field (Copy_pc b i v) e = put_word (b + i) v e"

text \<open>
  The next write of a handler and what it has left to do. \<open>Copy_pc b i v\<close> is iteration \<open>i\<close> of the
  copying loop, whose condition reads \<open>evt->stack_depth\<close> again; the loop is the last thing that
  touches the record, so leaving it leaves nothing to write.
\<close>

fun do_write :: "event_write list \<times> mem_event \<Rightarrow> event_write list \<times> mem_event" where
  "do_write ([], e) = ([], e)"
| "do_write (Copy_pc b i v # ws, e) =
     (if of_nat i < ev_stack_depth e then (ws, put_field (Copy_pc b i v) e) else ([], e))"
| "do_write (w # ws, e) = (ws, put_field w e)"

definition header_writes :: "event_type \<Rightarrow> bpf_env \<Rightarrow> event_write list" where
  "header_writes ty env =
     [Memset, Set_type (event_code ty), Set_pid (env_pid env), Set_tid (env_tid env),
      Set_timestamp (ktime_get_ns env)]"

definition stack_writes :: "nat \<Rightarrow> stack_pcs_value option \<Rightarrow> event_write list" where
  "stack_writes base stack_val =
     (case stack_val of
        None \<Rightarrow> [Set_depth 0]
      | Some sv \<Rightarrow>
          if 0 < sp_depth sv
          then Set_depth (sp_depth sv) # Clamp_depth #
               map (\<lambda>i. Copy_pc base i (sp_pcs sv ! i)) [0..<BPF_MAX_STACK_DEPTH]
          else [Set_depth 0])"

definition return_writes ::
  "event_type \<Rightarrow> bpf_env \<Rightarrow> u64 \<Rightarrow> pending_info option \<Rightarrow> event_write list \<Rightarrow> event_write list" where
  "return_writes ty env addr pending rest =
     (case pending of
        None \<Rightarrow> []
      | Some pd \<Rightarrow> header_writes ty env @
          [Set_stack_id (scast (pi_stack_id pd)), Set_word 0 addr, Set_word 1 (pi_size pd)] @ rest)"

text \<open>The writes of each handler, in its order; the entry probes of malloc and calloc have none.\<close>

primrec event_writes :: "bpf_env \<Rightarrow> probe \<Rightarrow> bpf_state \<Rightarrow> event_write list" where
  "event_writes env (MallocEntry sz) st = []"
| "event_writes env (MallocReturn ret) st =
     return_writes EVENT_MALLOC_RETURN env ret (pending_mallocs st (env_tid env))
       (stack_writes MALLOC_RET_PCS (pending_stacks_malloc st (env_tid env)))"
| "event_writes env (Free ptr) st =
     header_writes EVENT_FREE env @ [Set_word 0 ptr, Set_stack_id (get_stack_id env)]"
| "event_writes env (CallocEntry nmemb sz) st = []"
| "event_writes env (CallocReturn ret) st =
     return_writes EVENT_CALLOC_RETURN env ret (pending_callocs st (env_tid env))
       (stack_writes CALLOC_RET_PCS (pending_stacks_calloc st (env_tid env)))"
| "event_writes env (ReallocEntry ptr sz) st =
     header_writes EVENT_REALLOC_ENTRY env @ [Set_word 0 ptr, Set_word 1 sz]"
| "event_writes env (ReallocReturn ret) st =
     return_writes EVENT_REALLOC_RETURN env ret (pending_reallocs st (env_tid env))
       (Set_word 2 0 # stack_writes REALLOC_RET_PCS (pending_stacks_realloc st (env_tid env)))"
| "event_writes env (MmapEntry addr sz prot flags) st =
     header_writes EVENT_MMAP env @ [Set_word 0 addr, Set_word 1 sz, Set_prot prot, Set_flags flags]"
| "event_writes env (MunmapEntry addr sz) st =
     header_writes EVENT_MUNMAP env @ [Set_word 0 addr, Set_word 1 sz]"
| "event_writes env StackSample st =
     header_writes EVENT_STACK_SAMPLE env @ [Set_stack_id (get_stack_id env)]"

text \<open>The record after \<open>k\<close> of a handler's writes, when no other CPU writes to it.\<close>

definition partial_record :: "nat \<Rightarrow> event_write list \<Rightarrow> mem_event \<Rightarrow> mem_event" where
  "partial_record k ws e = snd ((do_write ^^ k) (ws, e))"

section \<open>The step relation\<close>

text \<open>
  \<open>smp_filled\<close>: the environment of the sending hit a CPU is in the middle of; \<open>smp_todo\<close>: the writes
  it has not made yet.
\<close>

record smp_state =
  smp_bpf :: bpf_state
  smp_filled :: "nat \<Rightarrow> bpf_env option"
  smp_todo :: "nat \<Rightarrow> event_write list"

inductive smp_step :: "smp_state \<Rightarrow> smp_state \<Rightarrow> bool" where
  begin_hit: "smp_filled s c = None \<Longrightarrow> probe_prepare env p (smp_bpf s) = (st', b) \<Longrightarrow>
     smp_step s (s\<lparr>smp_bpf := st'\<lparr>tmp_evt_buf := tmp_evt_buf (smp_bpf s)\<rparr>,
                   smp_filled := (smp_filled s)(c := if b then Some env else None),
                   smp_todo := (smp_todo s)(c := if b then event_writes env p (smp_bpf s) else [])\<rparr>)"
| put: "smp_filled s c = Some env \<Longrightarrow> smp_todo s c \<noteq> [] \<Longrightarrow>
     do_write (smp_todo s c, tmp_evt_buf (smp_bpf s)) = (ws, e) \<Longrightarrow>
     smp_step s (s\<lparr>smp_bpf := (smp_bpf s)\<lparr>tmp_evt_buf := e\<rparr>, smp_todo := (smp_todo s)(c := ws)\<rparr>)"
| emit: "smp_filled s c = Some env \<Longrightarrow> smp_todo s c = [] \<Longrightarrow>
     smp_step s (s\<lparr>smp_bpf := emit_event env (smp_bpf s), smp_filled := (smp_filled s)(c := None)\<rparr>)"

definition smp_idle :: "bpf_state \<Rightarrow> smp_state" where
  "smp_idle st = \<lparr>smp_bpf = st, smp_filled = (\<lambda>_. None), smp_todo = (\<lambda>_. [])\<rparr>"

section \<open>A CPU that runs alone\<close>

lemma do_write_Nil [simp]: "(do_write ^^ k) ([], e) = ([], e)"
  by (induction k) simp_all

lemma fst_do_write: "fst (do_write (ws, e)) = tl ws \<or> fst (do_write (ws, e)) = []"
  by (cases "(ws, e)" rule: do_write.cases) auto

lemma do_writes_finish: "length ws \<le> k \<Longrightarrow> fst ((do_write ^^ k) (ws, e)) = []"
proof (induction k arbitrary: ws e)
  case (Suc k)
  obtain ws' e' where r: "do_write (ws, e) = (ws', e')" by fastforce
  with fst_do_write [of ws e] Suc.prems have "length ws' \<le> k" by auto
  from Suc.IH [OF this] r show ?case by (simp add: funpow_Suc_right del: funpow.simps)
qed simp

text \<open>The copying loop from iteration \<open>j\<close> on.\<close>

lemma copy_loop:
  "n = BPF_MAX_STACK_DEPTH - j \<Longrightarrow> j \<le> unat (ev_stack_depth e) \<Longrightarrow>
   unat (ev_stack_depth e) \<le> BPF_MAX_STACK_DEPTH \<Longrightarrow> ev_words e = copy_words b j src ws \<Longrightarrow>
   (do_write ^^ n) (map (\<lambda>i. Copy_pc b i (src ! i)) [j..<BPF_MAX_STACK_DEPTH], e) =
     ([], e\<lparr>ev_words := copy_words b (unat (ev_stack_depth e)) src ws\<rparr>)"
proof (induction n arbitrary: j e)
  case 0
  then have "j = unat (ev_stack_depth e)" by simp
  with 0 show ?case by simp
next
  case (Suc n)
  then have j: "j < BPF_MAX_STACK_DEPTH" by simp
  then have u: "[j..<BPF_MAX_STACK_DEPTH] = j # [Suc j..<BPF_MAX_STACK_DEPTH]"
    by (rule upt_conv_Cons)
  have lt: "(of_nat j :: u32) < ev_stack_depth e \<longleftrightarrow> j < unat (ev_stack_depth e)"
    using j by (simp add: word_less_nat_alt unat_of_nat layout_defs)
  show ?case
  proof (cases "j < unat (ev_stack_depth e)")
    case True
    let ?e = "put_word (b + j) (src ! j) e"
    have "(do_write ^^ n) (map (\<lambda>i. Copy_pc b i (src ! i)) [Suc j..<BPF_MAX_STACK_DEPTH], ?e) =
        ([], ?e\<lparr>ev_words := copy_words b (unat (ev_stack_depth ?e)) src ws\<rparr>)"
      using Suc.prems True by (intro Suc.IH) simp_all
    then show ?thesis
      using True lt by (simp add: u funpow_Suc_right put_word_def del: funpow.simps)
  next
    case False
    then have "do_write (map (\<lambda>i. Copy_pc b i (src ! i)) [j..<BPF_MAX_STACK_DEPTH], e) = ([], e)"
      using lt by (simp add: u)
    moreover have "e\<lparr>ev_words := copy_words b (unat (ev_stack_depth e)) src ws\<rparr> = e"
      using Suc.prems False by (cases e) simp
    ultimately show ?thesis by (simp add: funpow_Suc_right del: funpow.simps)
  qed
qed

text \<open>Running a list of writes to its end.\<close>

definition all_writes :: "event_write list \<Rightarrow> mem_event \<Rightarrow> mem_event" where
  "all_writes ws e = partial_record (length ws) ws e"

lemma do_writes_all: "(do_write ^^ length ws) (ws, e) = ([], all_writes ws e)"
  using do_writes_finish [of ws "length ws" e] by (simp add: all_writes_def partial_record_def prod_eq_iff)

lemma all_writes_Nil [simp]: "all_writes [] e = e"
  by (simp add: all_writes_def partial_record_def)

lemma all_writes_Cons [simp]:
  "\<forall>b i v. w \<noteq> Copy_pc b i v \<Longrightarrow> all_writes (w # ws) e = all_writes ws (put_field w e)"
  by (cases w) (simp_all add: all_writes_def partial_record_def funpow_Suc_right del: funpow.simps)

lemma all_writes_stack [simp]: "all_writes (stack_writes b sv) e = attach_stack b sv e"
proof (cases "\<exists>v. sv = Some v \<and> 0 < sp_depth v")
  case True
  then obtain v where v: "sv = Some v" "0 < sp_depth v" by blast
  define d where "d = (if of_nat BPF_MAX_STACK_DEPTH < sp_depth v then of_nat BPF_MAX_STACK_DEPTH else sp_depth v)"
  have d: "unat d \<le> BPF_MAX_STACK_DEPTH"
    by (auto simp: d_def word_less_nat_alt layout_defs)
  have "all_writes (map (\<lambda>i. Copy_pc b i (sp_pcs v ! i)) [0..<BPF_MAX_STACK_DEPTH]) (e\<lparr>ev_stack_depth := d\<rparr>) =
      e\<lparr>ev_stack_depth := d, ev_words := copy_words b (unat d) (sp_pcs v) (ev_words e)\<rparr>"
    using copy_loop [of BPF_MAX_STACK_DEPTH 0 "e\<lparr>ev_stack_depth := d\<rparr>" b "sp_pcs v" "ev_words e"] d
    by (simp add: all_writes_def partial_record_def)
  moreover have "attach_stack b sv e =
      e\<lparr>ev_stack_depth := d, ev_words := copy_words b (unat d) (sp_pcs v) (ev_words e)\<rparr>"
    using v d by (simp add: attach_stack_def Let_def d_def [symmetric] min_def)
  ultimately show ?thesis
    using v by (simp add: stack_writes_def d_def split: if_splits)
next
  case False
  then show ?thesis by (auto simp: stack_writes_def attach_stack_def split: option.split)
qed

lemma take_bit_ucast [simp]: "take_bit 32 (ucast (v :: s32) :: u64) = ucast v"
  by (rule bit_word_eqI) (auto simp: bit_simps dest: bit_imp_le_length)

text \<open>Alone, a CPU leaves in the scratch record what the sequential handler leaves there.\<close>

lemma all_writes_prepare:
  "probe_prepare env p st = (st', True) \<Longrightarrow> all_writes (event_writes env p st) e = tmp_evt_buf st'"
  by (cases p)
    (auto simp: bpf_defs return_writes_def header_writes_def put_prot_flags_def put_word_def Let_def
      layout_defs nth_list_update list_update_overwrite
      split: if_splits option.splits)

lemma smp_writes:
  "smp_filled s c = Some env \<Longrightarrow>
   (do_write ^^ k) (smp_todo s c, tmp_evt_buf (smp_bpf s)) = (ws, e) \<Longrightarrow>
   smp_step\<^sup>*\<^sup>* s (s\<lparr>smp_bpf := (smp_bpf s)\<lparr>tmp_evt_buf := e\<rparr>, smp_todo := (smp_todo s)(c := ws)\<rparr>)"
proof (induction k arbitrary: ws e)
  case 0
  then have "s\<lparr>smp_bpf := (smp_bpf s)\<lparr>tmp_evt_buf := e\<rparr>, smp_todo := (smp_todo s)(c := ws)\<rparr> = s"
    by auto
  then show ?case by (simp only: rtranclp.rtrancl_refl)
next
  case (Suc k)
  obtain ws' e' where r: "(do_write ^^ k) (smp_todo s c, tmp_evt_buf (smp_bpf s)) = (ws', e')"
    by fastforce
  let ?s = "s\<lparr>smp_bpf := (smp_bpf s)\<lparr>tmp_evt_buf := e'\<rparr>, smp_todo := (smp_todo s)(c := ws')\<rparr>"
  from Suc.IH [OF Suc.prems(1) r] have 1: "smp_step\<^sup>*\<^sup>* s ?s" .
  from Suc.prems(2) r have w: "do_write (ws', e') = (ws, e)" by simp
  show ?case
  proof (cases ws')
    case Nil
    with w have "ws = ws'" "e = e'" by simp_all
    with 1 show ?thesis by (simp only:)
  next
    case Cons
    with w Suc.prems(1) have "smp_step ?s (s\<lparr>smp_bpf := (smp_bpf s)\<lparr>tmp_evt_buf := e\<rparr>, smp_todo := (smp_todo s)(c := ws)\<rparr>)"
      using smp_step.put [of ?s c env ws e] by simp
    with 1 show ?thesis by (rule rtranclp.rtrancl_into_rtrancl)
  qed
qed

text \<open>From the start of a sending hit to its first \<open>k\<close> writes, with other CPUs standing still.\<close>

lemma smp_fill:
  assumes "smp_filled s c = None" and "probe_prepare env p (smp_bpf s) = (st', True)"
    and "(do_write ^^ k) (event_writes env p (smp_bpf s), tmp_evt_buf (smp_bpf s)) = (ws, e)"
  shows "smp_step\<^sup>*\<^sup>* s \<lparr>smp_bpf = st'\<lparr>tmp_evt_buf := e\<rparr>,
      smp_filled = (smp_filled s)(c := Some env), smp_todo = (smp_todo s)(c := ws)\<rparr>"
proof -
  let ?s = "\<lparr>smp_bpf = st'\<lparr>tmp_evt_buf := tmp_evt_buf (smp_bpf s)\<rparr>,
      smp_filled = (smp_filled s)(c := Some env), smp_todo = (smp_todo s)(c := event_writes env p (smp_bpf s))\<rparr>"
  have "smp_step s ?s"
  proof (cases s)
    case (fields st fl td)
    with smp_step.begin_hit [OF assms(1,2)] show ?thesis by simp
  qed
  moreover from assms(3) smp_writes [of ?s c env k ws e]
  have "smp_step\<^sup>*\<^sup>* ?s \<lparr>smp_bpf = st'\<lparr>tmp_evt_buf := e\<rparr>,
      smp_filled = (smp_filled s)(c := Some env), smp_todo = (smp_todo s)(c := ws)\<rparr>" by simp
  ultimately show ?thesis by (rule converse_rtranclp_into_rtranclp)
qed

lemma smp_fill_all:
  assumes "smp_filled s c = None" and "probe_prepare env p (smp_bpf s) = (st', True)"
  shows "smp_step\<^sup>*\<^sup>* s \<lparr>smp_bpf = st', smp_filled = (smp_filled s)(c := Some env), smp_todo = (smp_todo s)(c := [])\<rparr>"
  using smp_fill [OF assms do_writes_all] all_writes_prepare [OF assms(2)] by simp

lemma probe_prepare_silent:
  "probe_prepare env p st = (st', False) \<Longrightarrow> tmp_evt_buf st' = tmp_evt_buf st"
  by (cases p) (auto simp: bpf_defs Let_def split: if_splits option.splits)

lemma smp_hit:
  "smp_step\<^sup>*\<^sup>* (smp_idle st) (smp_idle (probe_step env p st))"
proof -
  obtain st' b where r: "probe_prepare env p st = (st', b)" by fastforce
  show ?thesis
  proof (cases b)
    case True
    let ?m = "\<lparr>smp_bpf = st', smp_filled = (\<lambda>_. None)(0 := Some env), smp_todo = (\<lambda>_. [])\<rparr>"
    have "smp_step\<^sup>*\<^sup>* (smp_idle st) ?m"
      using smp_fill_all [of "smp_idle st" 0 env p st'] r True by (simp add: smp_idle_def fun_upd_idem)
    moreover have "smp_step ?m (smp_idle (emit_event env st'))"
      using smp_step.emit [of ?m 0 env] by (simp add: smp_idle_def fun_upd_idem)
    moreover have "probe_step env p st = emit_event env st'"
      using True r by (simp add: probe_step_prepare finish_def)
    ultimately show ?thesis by simp
  next
    case False
    have "st'\<lparr>tmp_evt_buf := tmp_evt_buf st\<rparr> = st'"
      using probe_prepare_silent [of env p st st'] r False by simp
    moreover have "probe_step env p st = st'"
      using False r by (simp add: probe_step_prepare finish_def)
    ultimately have "smp_step (smp_idle st) (smp_idle (probe_step env p st))"
      using smp_step.begin_hit [of "smp_idle st" 0 env p st' b] r False
      by (simp add: smp_idle_def fun_upd_idem)
    then show ?thesis by simp
  qed
qed

text \<open>Run one after another, hits on any CPUs behave as the sequential handlers.\<close>

theorem serial_hits_refine:
  "smp_step\<^sup>*\<^sup>* (smp_idle st) (smp_idle (probe_run hits st))"
proof (induction hits arbitrary: st)
  case Nil
  then show ?case by (simp add: probe_run_def)
next
  case (Cons h hits)
  obtain env p where h: "h = (env, p)" by fastforce
  from smp_hit [of st env p] Cons.IH [of "probe_step env p st"] h
  show ?case by (simp add: probe_run_def)
qed

section \<open>What interleaving breaks\<close>

text \<open>
  CPU 0 fills the record; CPU 1 makes \<open>k\<close> of its writes; CPU 0 sends; CPU 1 makes the rest and sends.
\<close>

lemma overlap:
  assumes p1: "probe_prepare e1 p1 st = (s1, True)" and p2: "probe_prepare e2 p2 s1 = (s2, True)"
    and acc: "ringbuf_accepts e1" "ringbuf_accepts e2"
  shows "\<exists>t. smp_step\<^sup>*\<^sup>* (smp_idle st) t \<and> (\<forall>c. smp_filled t c = None) \<and>
             ring (smp_bpf t) =
               ring st @ [partial_record k (event_writes e2 p2 s1) (tmp_evt_buf s1), tmp_evt_buf s2]"
proof -
  define ws where "ws = event_writes e2 p2 s1"
  define r where "r = partial_record k ws (tmp_evt_buf s1)"
  define rest where "rest = fst ((do_write ^^ k) (ws, tmp_evt_buf s1))"
  define n where "n = length ws"
  define a where "a = \<lparr>smp_bpf = s1, smp_filled = (\<lambda>_. None)(0 := Some e1), smp_todo = (\<lambda>_. [])\<rparr>"
  define b where "b = \<lparr>smp_bpf = s2\<lparr>tmp_evt_buf := r\<rparr>, smp_filled = (\<lambda>_. None)(0 := Some e1, 1 := Some e2),
      smp_todo = (\<lambda>_. [])(1 := rest)\<rparr>"
  define c where "c = \<lparr>smp_bpf = emit_event e1 (s2\<lparr>tmp_evt_buf := r\<rparr>),
      smp_filled = (\<lambda>_. None)(1 := Some e2), smp_todo = (\<lambda>_. [])(1 := rest)\<rparr>"
  define d where "d = \<lparr>smp_bpf = (emit_event e1 (s2\<lparr>tmp_evt_buf := r\<rparr>))\<lparr>tmp_evt_buf := tmp_evt_buf s2\<rparr>,
      smp_filled = (\<lambda>_. None)(1 := Some e2), smp_todo = (\<lambda>_. [])\<rparr>"
  have 1: "smp_step\<^sup>*\<^sup>* (smp_idle st) a"
    using smp_fill_all [of "smp_idle st" 0 e1 p1 s1] p1 by (simp add: a_def smp_idle_def fun_upd_idem)
  have 2: "smp_step\<^sup>*\<^sup>* a b"
    using smp_fill [of a 1 e2 p2 s2 k rest r] p2
    by (simp add: a_def b_def ws_def r_def rest_def partial_record_def)
  have 3: "smp_step b c"
    using smp_step.emit [of b 0 e1] by (simp add: b_def c_def fun_upd_twist fun_upd_idem)
  have "(do_write ^^ n) (rest, r) = (do_write ^^ (k + n)) (ws, tmp_evt_buf s1)"
    by (simp add: rest_def r_def partial_record_def add.commute [of k] funpow_add)
  also have "\<dots> = (do_write ^^ k) ((do_write ^^ n) (ws, tmp_evt_buf s1))"
    by (simp add: funpow_add)
  finally have w: "(do_write ^^ n) (rest, r) = ([], tmp_evt_buf s2)"
    using all_writes_prepare [OF p2] by (simp add: n_def do_writes_all ws_def)
  have 4: "smp_step\<^sup>*\<^sup>* c d"
    using smp_writes [of c 1 e2 n "[]" "tmp_evt_buf s2"] w
    by (simp add: c_def d_def emit_event_def fun_upd_idem)
  have 5: "smp_step d (smp_idle (emit_event e2 (smp_bpf d)))"
    using smp_step.emit [of d 1 e2] by (simp add: d_def smp_idle_def fun_upd_idem)
  have "smp_step\<^sup>*\<^sup>* (smp_idle st) (smp_idle (emit_event e2 (smp_bpf d)))"
    using 1 2 3 4 5 by (meson rtranclp.rtrancl_into_rtrancl rtranclp_trans)
  moreover have "ring s1 = ring st" "ring s2 = ring s1"
    using probe_prepare_ring [of e1 p1 st] probe_prepare_ring [of e2 p2 s1] p1 p2 by simp_all
  ultimately show ?thesis
    using acc by (intro exI [of _ "smp_idle (emit_event e2 (smp_bpf d))"])
      (simp add: d_def smp_idle_def emit_event_def r_def ws_def)
qed

lemma first_write_clears:
  "probe_prepare env p st = (st', True) \<Longrightarrow> partial_record 1 (event_writes env p st) e = zero_event"
  by (cases p)
    (auto simp: bpf_defs return_writes_def header_writes_def partial_record_def Let_def
      split: if_splits option.splits)

text \<open>
  C22: A record is sent half written. One CPU has filled the scratch record; before it sends it, another
  CPU makes the first \<open>k\<close> writes of its own hit, for any \<open>k\<close>; the first CPU then sends the record as
  it is now, and the second finishes and sends its own. After \<open>k = 1\<close> what is sent first is the
  cleared record, which is no event of any kind.
\<close>

theorem torn_record_is_sent:
  assumes "probe_prepare e1 p1 st = (s1, True)" and "probe_prepare e2 p2 s1 = (s2, True)"
    and "ringbuf_accepts e1" and "ringbuf_accepts e2"
  shows "(\<exists>t. smp_step\<^sup>*\<^sup>* (smp_idle st) t \<and> (\<forall>c. smp_filled t c = None) \<and>
             ring (smp_bpf t) =
               ring st @ [partial_record k (event_writes e2 p2 s1) (tmp_evt_buf s1), tmp_evt_buf s2]) \<and>
    (\<exists>t. smp_step\<^sup>*\<^sup>* (smp_idle st) t \<and> (\<forall>c. smp_filled t c = None) \<and>
             ring (smp_bpf t) = ring st @ [zero_event, tmp_evt_buf s2]) \<and>
    \<not> sent_event zero_event"
  using overlap [OF assms, of k] overlap [OF assms, of 1] first_write_clears [OF assms(2)]
  by (simp add: sent_event_def)

theorem torn_record_is_sent_witness:
  "\<exists>t e. smp_step\<^sup>*\<^sup>* (smp_idle initial_bpf_state) t \<and>
     ring (smp_bpf t) = [e, tmp_evt_buf (fst (probe_prepare (sample_env 6 2) (Free 0x2000)
        (fst (probe_prepare (sample_env 5 1) (Free 0x1000) initial_bpf_state))))] \<and>
     ev_type e = event_code EVENT_FREE \<and> ev_words e ! 0 = 0"
proof -
  let ?e1 = "sample_env 5 1" and ?e2 = "sample_env 6 2"
  let ?s1 = "fst (probe_prepare ?e1 (Free 0x1000) initial_bpf_state)"
  let ?s2 = "fst (probe_prepare ?e2 (Free 0x2000) ?s1)"
  have r: "probe_prepare ?e1 (Free 0x1000) initial_bpf_state = (?s1, True)"
    "probe_prepare ?e2 (Free 0x2000) ?s1 = (?s2, True)"
    by (simp_all add: uprobe_free_prepare_def Let_def sample_env_def split: option.split)
  have acc: "ringbuf_accepts ?e1" "ringbuf_accepts ?e2" by (simp_all add: sample_env_def)
  let ?r = "partial_record 2 (event_writes ?e2 (Free 0x2000) ?s1) (tmp_evt_buf ?s1)"
  have "ev_type ?r = event_code EVENT_FREE" "ev_words ?r ! 0 = 0"
    by (simp_all add: partial_record_def header_writes_def numeral_eq_Suc layout_defs)
  then show ?thesis
    using torn_record_is_sent [OF r acc, of 2] by (metis append_Nil initial_bpf_state_simps(2))
qed

text \<open>
  C23: Two hits that overlap: both CPUs send the record of the one that filled the scratch last, and
  the other event is lost.
\<close>

theorem overlapping_hits_lose_event:
  assumes "probe_prepare e1 p1 st = (s1, True)" and "probe_prepare e2 p2 s1 = (s2, True)"
    and "ringbuf_accepts e1" and "ringbuf_accepts e2"
  shows "\<exists>t. smp_step\<^sup>*\<^sup>* (smp_idle st) t \<and> (\<forall>c. smp_filled t c = None) \<and>
             ring (smp_bpf t) = ring st @ [tmp_evt_buf s2, tmp_evt_buf s2]"
  using overlap [OF assms, of "length (event_writes e2 p2 s1)"] all_writes_prepare [OF assms(2)]
  by (simp add: all_writes_def)

theorem overlapping_hits_lose_event_witness:
  "\<exists>t e. smp_step\<^sup>*\<^sup>* (smp_idle initial_bpf_state) t \<and> ring (smp_bpf t) = [e, e] \<and>
     ev_words e ! 0 = 0x2000"
proof -
  let ?e1 = "sample_env 5 1" and ?e2 = "sample_env 6 2"
  let ?s1 = "fst (probe_prepare ?e1 (Free 0x1000) initial_bpf_state)"
  let ?s2 = "fst (probe_prepare ?e2 (Free 0x2000) ?s1)"
  have "\<exists>t. smp_step\<^sup>*\<^sup>* (smp_idle initial_bpf_state) t \<and> (\<forall>c. smp_filled t c = None) \<and>
      ring (smp_bpf t) = ring initial_bpf_state @ [tmp_evt_buf ?s2, tmp_evt_buf ?s2]"
    by (rule overlapping_hits_lose_event [where ?e1.0 = ?e1 and ?p1.0 = "Free 0x1000" and ?s1.0 = ?s1
          and ?e2.0 = ?e2 and ?p2.0 = "Free 0x2000"])
      (simp_all add: uprobe_free_prepare_def Let_def sample_env_def split: option.split)
  moreover have "ev_words (tmp_evt_buf ?s2) ! 0 = 0x2000"
    by (simp add: uprobe_free_prepare_def Let_def sample_env_def layout_defs split: option.split)
  ultimately show ?thesis by auto
qed

end
