(* ===== verification/Pipeline.thy ===== *)
theory Pipeline
  imports Lifecycle_Correct Bpf_Smp
begin

text \<open>
  The tracer as a whole: a trace of allocations and releases runs through the kernel's probes, the
  events it leaves in the ring buffer through the collector, and the collector's table through the
  file into the resolver. On traces of an allocator, which never returns an address that is live,
  the three views of what is live agree.
\<close>

section \<open>Traces\<close>

type_synonym alloc_trace = "(u64, call) tracker_op list"

primrec kernel_op :: "(u64, call) tracker_op \<Rightarrow> bpf_state \<Rightarrow> bpf_state" where
  "kernel_op (Alloc a c) st = kernel_malloc a c st"
| "kernel_op (Release a c) st = kernel_free a c st"

definition kernel_run :: "alloc_trace \<Rightarrow> bpf_state \<Rightarrow> bpf_state" where
  "kernel_run ops st = fold kernel_op ops st"

text \<open>An allocator's trace: addresses are not NULL and are not handed out while they are live.\<close>

definition allocator_trace :: "alloc_trace \<Rightarrow> bool" where
  "allocator_trace ops = fresh_trace (\<lambda>a. a \<noteq> 0) call_info ops Map.empty"

primrec op_event :: "(u64, call) tracker_op \<Rightarrow> mem_event" where
  "op_event (Alloc a c) = malloc_event a c"
| "op_event (Release a c) = free_event a c"

lemma kernel_run_step: "kernel_run ops st = fold kernel.step ops st"
proof -
  have "kernel_op x = kernel.step x" for x by (cases x) auto
  then have "kernel_op = kernel.step" by (rule ext)
  then show ?thesis by (simp only: kernel_run_def)
qed

lemma fresh_trace_keys: "fresh_trace ok content ops m \<Longrightarrow> \<forall>x \<in> set ops. ok (op_key x)"
  by (induction ok content ops m rule: fresh_trace.induct) auto

lemma kernel_run_ring:
  "\<forall>x \<in> set ops. op_key x \<noteq> 0 \<Longrightarrow> ring (kernel_run ops st) = ring st @ map op_event ops"
proof (induction ops arbitrary: st)
  case Nil
  then show ?case by (simp add: kernel_run_def)
next
  case (Cons x ops)
  have "ring (kernel_op x st) = ring st @ [op_event x]"
    using Cons.prems kernel_malloc_effect kernel_free_effect by (cases x) auto
  with Cons show ?case by (simp add: kernel_run_def)
qed

lemma kernel_run_active:
  "allocator_trace ops \<Longrightarrow>
   active_allocs (kernel_run ops initial_bpf_state) = fold (spec_step call_info) ops Map.empty"
  using kernel.run_refines [where ops = ops and s = initial_bpf_state]
  by (simp add: allocator_trace_def kernel_run_step)

section \<open>The collector on the same trace\<close>

lemma handle_trace:
  "collector_room (n_allocs ops) ctx \<Longrightarrow>
   fresh_trace (\<lambda>a. a \<noteq> 0) call_info ops (collector_view ctx) \<Longrightarrow>
   handle_events (map (\<lambda>x. (good_heap, op_event x)) ops) ctx = Some (fold collector.step ops ctx)"
proof (induction ops arbitrary: ctx)
  case Nil
  then show ?case by simp
next
  case (Cons x ops)
  show ?case
  proof (cases x)
    case (Alloc a c)
    have r: "collector_room (Suc (n_allocs ops)) ctx" and a: "a \<noteq> 0" "collector_view ctx a = None"
      using Cons.prems Alloc by auto
    have v: "collector_view (collector_malloc a c ctx) = spec_step call_info (Alloc a c) (collector_view ctx)"
      using collector.view_alloc [OF r a] by simp
    have "handle_events (map (\<lambda>x. (good_heap, op_event x)) ops) (collector_malloc a c ctx) =
        Some (fold collector.step ops (collector_malloc a c ctx))"
      using Cons.prems(2) Alloc
      by (intro Cons.IH [OF collector.invar_alloc [OF r a]]) (simp only: v fresh_trace.simps)
    then show ?thesis
      using collector_malloc_effect [OF r, of a c] Alloc by simp
  next
    case (Release a c)
    have r: "collector_room (n_allocs ops) ctx" and a: "a \<noteq> 0"
      using Cons.prems Release by auto
    have v: "collector_view (collector_free a c ctx) = spec_step call_info (Release a c) (collector_view ctx)"
      using collector.view_release [OF r a] by simp
    have "handle_events (map (\<lambda>x. (good_heap, op_event x)) ops) (collector_free a c ctx) =
        Some (fold collector.step ops (collector_free a c ctx))"
      using Cons.prems(2) Release
      by (intro Cons.IH [OF collector.invar_release [OF r a]]) (simp only: v fresh_trace.simps)
    then show ?thesis
      using collector_free_effect [OF r, of a c] Release by simp
  qed
qed

text \<open>What a collector that was just created looks like.\<close>

definition fresh_collector :: "collector_ctx \<Rightarrow> bool" where
  "fresh_collector ctx \<longleftrightarrow>
     table_inv (table ctx) \<and> count (table ctx) = 0 \<and> ringbuf ctx \<and> target_pid ctx = 0"

lemma fresh_collector_room:
  assumes "fresh_collector ctx" and "n < 2 ^ 31"
  shows "collector_room n ctx \<and> collector_view ctx = Map.empty \<and> full_pcs (table ctx)"
proof -
  have "live_stack (table ctx) a = []" for a
    using assms(1) by (simp add: live_stack_def fresh_collector_def)
  then show ?thesis
    using assms collector_view_stack [of ctx]
    by (auto simp: collector_room_def fresh_collector_def full_pcs_def)
qed

lemma collector_on_trace:
  assumes "allocator_trace ops" and "length ops < 2 ^ 31" and "fresh_collector ctx"
  shows "\<exists>ctx'. collector_poll (map (Pair good_heap) (ring (kernel_run ops initial_bpf_state))) rc (Some ctx)
      = Some (rc, Some ctx') \<and> collector_room 0 ctx' \<and> full_pcs (table ctx') \<and>
    collector_view ctx' = active_allocs (kernel_run ops initial_bpf_state) \<and>
    ctx' = fold collector.step ops ctx"
proof -
  have "n_allocs ops \<le> length ops"
    by (induction ops) (auto split: tracker_op.split)
  then have n: "n_allocs ops < 2 ^ 31" using assms(2) by linarith
  note room = fresh_collector_room [OF assms(3) n]
  have fresh: "fresh_trace (\<lambda>a. a \<noteq> 0) call_info ops (collector_view ctx)"
    using assms(1) room by (simp add: allocator_trace_def)
  define ctx' where "ctx' = fold collector.step ops ctx"
  have ring: "map (Pair good_heap) (ring (kernel_run ops initial_bpf_state)) = map (\<lambda>x. (good_heap, op_event x)) ops"
    using kernel_run_ring [OF fresh_trace_keys [OF assms(1) [unfolded allocator_trace_def]]] by simp
  have h: "handle_events (map (\<lambda>x. (good_heap, op_event x)) ops) ctx = Some ctx'"
    unfolding ctx'_def using room fresh by (intro handle_trace) simp_all
  have r: "collector_room 0 ctx' \<and> collector_view ctx' = fold (spec_step call_info) ops (collector_view ctx)"
    unfolding ctx'_def using room fresh by (intro collector.run_refines) simp_all
  have shapes: "\<forall>x \<in> set (map (\<lambda>x. (good_heap, op_event x)) ops). event_shape (snd x)"
  proof -
    have "event_shape (op_event x)" for x
      by (cases x) (simp_all add: malloc_event_simps free_event_simps)
    then show ?thesis by simp
  qed
  have "full_pcs (table ctx')"
    using handle_events_effect [OF _ _ shapes, of ctx] h room assms(2,3)
    by (simp add: fresh_collector_def)
  with h r room ring assms(1,3) show ?thesis
    unfolding ctx'_def [symmetric]
    by (auto simp: collector_poll_def fresh_collector_def kernel_run_active)
qed

text \<open>C3: The collector's lookup agrees with the kernel's map of active allocations.\<close>

theorem kernel_and_collector_agree:
  assumes "allocator_trace ops" and "length ops < 2 ^ 31" and "fresh_collector ctx"
  shows "\<exists>ctx'. collector_poll (map (Pair good_heap) (ring (kernel_run ops initial_bpf_state))) rc (Some ctx)
      = Some (rc, Some ctx') \<and>
    collector_view ctx' = active_allocs (kernel_run ops initial_bpf_state)"
  using collector_on_trace [OF assms] by blast

theorem kernel_and_collector_agree_witness:
  "\<exists>ctx'. collector_poll (map (Pair good_heap) (ring (kernel_run
        [Alloc 0x7000 (sample_env 5 1, sample_env 5 2, 40), Alloc 0x8000 (sample_env 6 3, sample_env 6 4, 8),
         Release 0x7000 (sample_env 5 5, sample_env 5 5, 0)] initial_bpf_state))) 3 (Some sample_ctx)
      = Some (3, Some ctx') \<and> collector_view ctx' 0x7000 = None"
proof -
  let ?ops = "[Alloc 0x7000 (sample_env 5 1, sample_env 5 2, 40), Alloc 0x8000 (sample_env 6 3, sample_env 6 4, 8),
         Release 0x7000 (sample_env 5 5, sample_env 5 5, 0)]"
  have "allocator_trace ?ops" by (simp add: allocator_trace_def)
  moreover have "fresh_collector sample_ctx"
    by (simp add: fresh_collector_def sample_ctx fresh_table_inv)
  moreover have "active_allocs (kernel_run ?ops initial_bpf_state) 0x7000 = None"
    by (simp add: kernel_run_def kernel_malloc_effect kernel_free_effect)
  ultimately show ?thesis
    using kernel_and_collector_agree [of ?ops sample_ctx 3] by fastforce
qed

section \<open>Through the file into the resolver\<close>

text \<open>What an entry and an active allocation have in common.\<close>

definition entry_key :: "alloc_entry \<Rightarrow> u64 \<times> u64 \<times> s64 \<times> u32 \<times> u32" where
  "entry_key x = (ae_addr x, ae_size x, ae_stack_id x, ae_pid x, ae_tid x)"

definition active_keys :: "bpf_state \<Rightarrow> (u64 \<times> u64 \<times> s64 \<times> u32 \<times> u32) set" where
  "active_keys st =
     {(a, ai_size i, ai_stack_id i, ai_pid i, ai_tid i) | a i. active_allocs st a = Some i}"

lemma keyed_image:
  assumes "\<And>a r. P a r \<Longrightarrow> f r = a" and "\<And>r. g r = h (info r)"
    and "\<And>a i. V a = Some i \<longleftrightarrow> (\<exists>r. P a r \<and> i = info r)"
  shows "(\<lambda>r. (f r, g r)) ` {r. \<exists>a. P a r \<and> f r = a} = {(a, h i) | a i. V a = Some i}"
proof (rule set_eqI)
  fix x
  show "x \<in> (\<lambda>r. (f r, g r)) ` {r. \<exists>a. P a r \<and> f r = a} \<longleftrightarrow> x \<in> {(a, h i) | a i. V a = Some i}"
    unfolding image_iff mem_Collect_eq bex_simps assms(2,3) using assms(1) by (metis (no_types))
qed

lemma live_entries:
  assumes "collector_room 0 ctx" and "full_pcs (table ctx)"
  shows "entry_key ` {x \<in> set (load_csv (write_csv_batch (table ctx))). ae_live x \<noteq> 0} =
     {(a, ai_size i, ai_stack_id i, ai_pid i, ai_tid i) | a i. collector_view ctx a = Some i}"
    (is "?L = ?R")
proof -
  let ?t = "table ctx"
  have view: "collector_view ctx a = Some i \<longleftrightarrow> (\<exists>r. live_stack ?t a = [r] \<and> i = info_of_record r)" for a i
  proof -
    have "length (live_stack ?t a) \<le> 1" "table_inv ?t" using assms(1) by (simp_all add: collector_room_def)
    then show ?thesis
      by (cases "live_stack ?t a") (auto simp: collector_view_stack)
  qed
  have single: "live_stack ?t a = [r] \<longleftrightarrow> r \<in> set (live_stack ?t a)" for a r
  proof -
    have "length (live_stack ?t a) \<le> 1" using assms(1) by (simp add: collector_room_def)
    then show ?thesis by (cases "live_stack ?t a") auto
  qed
  have "{x \<in> set (load_csv (write_csv_batch ?t)). ae_live x \<noteq> 0} =
      loaded ` {r \<in> set (take (count ?t) (records ?t)). ar_live r \<noteq> 0}"
    using csv_roundtrip_loaded [of ?t] assms(2) by (auto simp: full_pcs_def loaded_def)
  then have "?L = (\<lambda>r. (ar_addr r, ar_size r, ar_stack_id r, ar_pid r, ar_tid r)) `
      {r \<in> set (take (count ?t) (records ?t)). ar_live r \<noteq> 0}"
    by (simp add: image_image entry_key_def loaded_def)
  also have "{r \<in> set (take (count ?t) (records ?t)). ar_live r \<noteq> 0} =
      {r. \<exists>a. live_stack ?t a = [r] \<and> ar_addr r = a}"
    unfolding single by (auto simp: live_stack_def)
  also have "(\<lambda>r. (ar_addr r, ar_size r, ar_stack_id r, ar_pid r, ar_tid r)) ` \<dots> = ?R"
  proof (rule keyed_image [where f = ar_addr and info = info_of_record and
      h = "\<lambda>i. (ai_size i, ai_stack_id i, ai_pid i, ai_tid i)"])
    fix a r assume "live_stack ?t a = [r]"
    then have "r \<in> set (live_stack ?t a)" by simp
    then show "ar_addr r = a" by (simp add: live_stack_def)
  next
    show "\<And>r. (ar_size r, ar_stack_id r, ar_pid r, ar_tid r) =
        (ai_size (info_of_record r), ai_stack_id (info_of_record r), ai_pid (info_of_record r), ai_tid (info_of_record r))"
      by (simp add: info_of_record_def)
  next
    show "\<And>a i. collector_view ctx a = Some i \<longleftrightarrow> (\<exists>r. live_stack ?t a = [r] \<and> i = info_of_record r)"
      by (rule view)
  qed
  finally show ?thesis .
qed

text \<open>
  C2: The entries the resolver loads as live are exactly the active allocations of the kernel, with
  their addresses, sizes, stacks, processes and threads.
\<close>

theorem resolver_sees_active_allocations:
  assumes "allocator_trace ops" and "length ops < 2 ^ 31" and "fresh_collector ctx"
  shows "\<exists>ctx'. collector_poll (map (Pair good_heap) (ring (kernel_run ops initial_bpf_state))) rc (Some ctx)
      = Some (rc, Some ctx') \<and>
    entry_key ` {x \<in> set (load_csv (write_csv_batch (table ctx'))). ae_live x \<noteq> 0} =
      active_keys (kernel_run ops initial_bpf_state)"
proof -
  obtain ctx' where c: "collector_poll (map (Pair good_heap) (ring (kernel_run ops initial_bpf_state))) rc (Some ctx)
      = Some (rc, Some ctx')" "collector_room 0 ctx'" "full_pcs (table ctx')"
    "collector_view ctx' = active_allocs (kernel_run ops initial_bpf_state)"
    using collector_on_trace [OF assms] by blast
  then show ?thesis
    using live_entries [OF c(2,3)] by (auto simp: active_keys_def)
qed

theorem resolver_sees_active_allocations_witness:
  "\<exists>ctx'. collector_poll (map (Pair good_heap) (ring (kernel_run
        [Alloc 0x8000 (sample_env 6 3, sample_env 6 4, 8)] initial_bpf_state))) 1 (Some sample_ctx)
      = Some (1, Some ctx') \<and>
    (\<exists>x \<in> set (load_csv (write_csv_batch (table ctx'))). ae_live x \<noteq> 0 \<and> ae_addr x = 0x8000 \<and> ae_size x = 8)"
proof -
  let ?c = "(sample_env 6 3, sample_env 6 4, 8)"
  let ?ops = "[Alloc 0x8000 ?c]"
  have t: "allocator_trace ?ops" by (simp add: allocator_trace_def)
  have f: "fresh_collector sample_ctx" by (simp add: fresh_collector_def sample_ctx fresh_table_inv)
  have "active_allocs (kernel_run ?ops initial_bpf_state) 0x8000 = Some (call_info ?c)"
    by (simp add: kernel_run_def kernel_malloc_effect)
  moreover have "ai_size (call_info ?c) = 8"
    by (simp add: call_info_def make_alloc_info_def call_pending_def call_size_def)
  ultimately have k: "\<exists>s p q. (0x8000, 8, s, p, q) \<in> active_keys (kernel_run ?ops initial_bpf_state)"
    unfolding active_keys_def by fastforce
  obtain ctx' where c: "collector_poll (map (Pair good_heap) (ring (kernel_run ?ops initial_bpf_state))) 1 (Some sample_ctx)
      = Some (1, Some ctx')"
    "entry_key ` {x \<in> set (load_csv (write_csv_batch (table ctx'))). ae_live x \<noteq> 0} =
      active_keys (kernel_run ?ops initial_bpf_state)"
    using resolver_sees_active_allocations [OF t _ f, of 1] by auto
  then have "\<exists>x \<in> set (load_csv (write_csv_batch (table ctx'))). ae_live x \<noteq> 0 \<and> ae_addr x = 0x8000 \<and> ae_size x = 8"
    using k unfolding c(2) [symmetric] by (auto simp: entry_key_def)
  with c(1) show ?thesis by blast
qed

section \<open>Reallocation\<close>

text \<open>A call of \<open>realloc\<close> that moves a block from \<open>old\<close> to \<open>new\<close>.\<close>

definition kernel_realloc :: "u64 \<Rightarrow> u64 \<Rightarrow> call \<Rightarrow> bpf_state \<Rightarrow> bpf_state" where
  "kernel_realloc old new c st =
     uprobe_realloc_return (call_return_env c) new
       (uprobe_realloc_entry (call_entry_env c) old (call_size c) st)"

definition realloc_entry_event :: "u64 \<Rightarrow> call \<Rightarrow> mem_event" where
  "realloc_entry_event old c =
     put_word 1 (call_size c) (put_word 0 old (header EVENT_REALLOC_ENTRY (call_entry_env c)))"

definition realloc_event :: "u64 \<Rightarrow> call \<Rightarrow> mem_event" where
  "realloc_event new c =
     attach_stack REALLOC_RET_PCS (Some (capture_stack (call_entry_env c)))
       (put_word 2 0 (put_word 1 (call_size c) (put_word 0 new
         ((header EVENT_REALLOC_RETURN (call_return_env c))\<lparr>ev_stack_id := ai_stack_id (call_info c)\<rparr>))))"

lemma kernel_realloc_effect:
  "new \<noteq> 0 \<Longrightarrow>
   active_allocs (kernel_realloc old new c st) = (active_allocs st)(new \<mapsto> call_info c) \<and>
   ring (kernel_realloc old new c st) = ring st @ [realloc_entry_event old c, realloc_event new c]"
  by (simp add: kernel_realloc_def bpf_defs Let_def call_info_def call_pending_def
      realloc_entry_event_def realloc_event_def)

lemma realloc_event_simps:
  "ev_type (realloc_event a c) = event_code EVENT_REALLOC_RETURN"
  "ev_words (realloc_event a c) ! 0 = a" "event_shape (realloc_event a c)"
  "alloc_pcs_base (realloc_event a c) = Some REALLOC_RET_PCS"
  "info_of_record (event_record REALLOC_RET_PCS (realloc_event a c)) = call_info c"
  by (simp_all add: realloc_event_def alloc_pcs_base_def attach_stack_below layout_defs event_shape_def
      attach_stack_depth [unfolded layout_defs] info_of_record_def call_info_def make_alloc_info_def call_pending_def)

text \<open>
  C28: After a moving reallocation both addresses are live, in the kernel's map and in the collector's
  table: the old block, which the allocator has released, is recorded as a leak.
\<close>

theorem moving_realloc_keeps_old_block:
  assumes "active_allocs st old = Some i" and "ring st = []" and "new \<noteq> old" and "new \<noteq> 0"
    and "collector_room 1 ctx" and "ringbuf ctx" and "collector_view ctx = active_allocs st"
  shows "\<exists>ctx'. collector_poll (map (Pair good_heap) (ring (kernel_realloc old new c st))) rc (Some ctx)
      = Some (rc, Some ctx') \<and>
    active_allocs (kernel_realloc old new c st) old = Some i \<and>
    collector_view ctx' old = Some i \<and> collector_view ctx' new = Some (call_info c)"
proof -
  have entry: "handle_event good_heap (realloc_entry_event old c) ctx = Some ctx"
    by (simp add: handle_event_def realloc_entry_event_def)
  obtain ctx' where ctx': "handle_event good_heap (realloc_event new c) ctx = Some ctx'"
    "table_extends (table ctx) (table ctx')"
    "live_stack (table ctx') = stack_spec (realloc_event new c) (live_stack (table ctx))"
    using handle_event_effect [of ctx "realloc_event new c" good_heap] assms(5)
    by (auto simp: collector_room_def accepts_pid_def realloc_event_simps good_heap_def)
  then have "table_inv (table ctx')" by (simp add: table_extends_def)
  then have v: "collector_view ctx' = (collector_view ctx)(new \<mapsto> call_info c)"
    using assms(5) ctx'(3)
    by (auto simp: collector_view_stack collector_room_def stack_spec_def realloc_event_simps Let_def)
  have "handle_events (map (Pair good_heap) (ring (kernel_realloc old new c st))) ctx = Some ctx'"
    using kernel_realloc_effect [OF assms(4), of old c st] assms(2) entry ctx'(1) by simp
  then show ?thesis
    using v assms kernel_realloc_effect [OF assms(4), of old c st] by (auto simp: collector_poll_def)
qed

theorem moving_realloc_keeps_old_block_witness:
  "\<exists>st ctx ctx'. collector_poll (map (Pair good_heap)
      (ring (kernel_realloc 64 128 (sample_env 5 3, sample_env 5 4, 16) st))) 2 (Some ctx) = Some (2, Some ctx') \<and>
    collector_view ctx' 64 \<noteq> None \<and> collector_view ctx' 128 \<noteq> None"
proof -
  let ?c = "(sample_env 5 1, sample_env 5 2, 8)"
  let ?ctx = "collector_malloc 64 ?c sample_ctx"
  let ?st = "initial_bpf_state\<lparr>active_allocs := [64 \<mapsto> call_info ?c]\<rparr>"
  have f: "fresh_collector sample_ctx" by (simp add: fresh_collector_def sample_ctx fresh_table_inv)
  then have r: "collector_room (Suc 1) sample_ctx" "collector_view sample_ctx = Map.empty"
    using fresh_collector_room [OF f, of "Suc 1"] by simp_all
  have "collector_room 1 ?ctx" "collector_view ?ctx = [64 \<mapsto> call_info ?c]"
    using collector.invar_alloc [of 1 sample_ctx 64 ?c] collector.view_alloc [of 1 sample_ctx 64 ?c] r by simp_all
  moreover have "ringbuf ?ctx"
    using collector_malloc_effect [OF r(1), of 64 ?c] handle_event_frame sample_ctx(2) by blast
  ultimately show ?thesis
    using moving_realloc_keeps_old_block [where st = ?st and old = 64 and new = 128 and ctx = ?ctx and rc = 2
        and c = "(sample_env 5 3, sample_env 5 4, 16)"]
    by fastforce
qed

end
