(* ===== verification/Resolve_Correct.thy ===== *)
theory Resolve_Correct
  imports Resolve Type_Inference_Correct Resolver_Correct Pipeline Dwarf_Correct
begin

text \<open>
  Every address gets a result; which class it has; what a result in the heap says of the block; the
  element of an array; blocks that are taken for globals; the way from the probes to the resolver.
\<close>

section \<open>Classification\<close>

text \<open>The symbol an address is attributed to, at its own address or at the guessed load offset.\<close>

definition global_symbol :: "resolver \<Rightarrow> u64 \<Rightarrow> symbol_info option" where
  "global_symbol rs address =
     (case find_symbol_by_addr (rs_analyzer rs) address of
        Some s \<Rightarrow> Some s
      | None \<Rightarrow>
          let aslr = compute_aslr_from_global_addr address rs
          in if aslr = 0 then None else find_symbol_by_addr (rs_analyzer rs) (address - of_int aslr))"

lemma resolve_global_symbol:
  "case global_symbol rs address of
     None \<Rightarrow> resolve_global address rs = None
   | Some s \<Rightarrow> \<exists>r. resolve_global address rs = Some r \<and> ra_class r = ADDR_GLOBAL \<and> ra_address r = address \<and>
       ra_symbol_name r = sy_name s \<and> ra_type_name r = sy_type_name s \<and> ra_alloc_size r = 0"
  by (auto simp: resolve_global_def global_symbol_def zero_resolved_def Let_def split: option.splits)

lemma resolve_heap_alloc:
  assumes "\<forall>r \<in> set (rs_ranges rs). bounded_range r"
  shows "case find_alloc (rs_allocs rs) address of
     None \<Rightarrow> resolve_heap h address pid rs = Some (None, rs)
   | Some i \<Rightarrow> \<exists>r rs'. resolve_heap h address pid rs = Some (Some r, rs') \<and> same_tables rs rs' \<and>
       ra_class r = ADDR_HEAP \<and> ra_address r = address \<and> ra_alloc_size r = ae_size (rs_allocs rs ! i) \<and>
       ra_pid r = ae_pid (rs_allocs rs ! i) \<and> ra_tid r = ae_tid (rs_allocs rs ! i)"
proof (cases "find_alloc (rs_allocs rs) address")
  case None
  then show ?thesis by (simp add: resolve_heap_def)
next
  case (Some i)
  let ?e = "rs_allocs rs ! i"
  obtain t rs' where t: "infer_type_combined_v2 h (ae_stack_id ?e) (ae_size ?e) (ae_stack_pcs ?e) rs = Some (t, rs')"
    using infer_type_ends [OF assms] by blast
  then show ?thesis using infer_type_same [OF t] Some by (simp add: resolve_heap_def Let_def)
qed

lemma resolve_stack_class:
  "resolve_stack h address frames rs = None \<longleftrightarrow>
     frames = [] \<or> find_symbol_by_addr (rs_analyzer rs) (hd frames) = None"
  "resolve_stack h address frames rs = Some r \<Longrightarrow> ra_class r = ADDR_STACK \<and> ra_address r = address \<and>
     map rsf_pc (ra_stack_trace r) = frames"
proof -
  have pc: "rsf_pc (resolve_frame h rs pc) = pc" for pc
    by (simp add: resolve_frame_def Let_def split: option.splits prod.splits)
  show "resolve_stack h address frames rs = Some r \<Longrightarrow> ra_class r = ADDR_STACK \<and> ra_address r = address \<and>
     map rsf_pc (ra_stack_trace r) = frames"
    by (auto simp: resolve_stack_def resolve_stack_trace_def comp_def pc split: if_splits option.splits)
  show "resolve_stack h address frames rs = None \<longleftrightarrow>
     frames = [] \<or> find_symbol_by_addr (rs_analyzer rs) (hd frames) = None"
    by (simp add: resolve_stack_def split: option.splits)
qed

definition class_of :: "resolver \<Rightarrow> u64 \<Rightarrow> u64 list \<Rightarrow> addr_class" where
  "class_of rs address frames =
     (if global_symbol rs address \<noteq> None then ADDR_GLOBAL
      else if find_alloc (rs_allocs rs) address \<noteq> None then ADDR_HEAP
      else if frames \<noteq> [] \<and> find_symbol_by_addr (rs_analyzer rs) (hd frames) \<noteq> None then ADDR_STACK
      else ADDR_UNKNOWN)"

lemma resolve_class:
  assumes "\<forall>r \<in> set (rs_ranges rs). bounded_range r"
  shows "\<exists>r rs'. resolve h address pid frames rs = Some (Some r, rs') \<and> same_tables rs rs' \<and>
    ra_address r = address \<and> ra_class r = class_of rs address frames"
proof (cases "global_symbol rs address")
  case (Some s)
  then show ?thesis
    using resolve_global_symbol [of address rs] by (auto simp: resolve_def class_of_def)
next
  case no: None
  then have g: "resolve_global address rs = None" using resolve_global_symbol [of address rs] by simp
  show ?thesis
  proof (cases "find_alloc (rs_allocs rs) address")
    case (Some i)
    then show ?thesis
      using resolve_heap_alloc [OF assms, where address = address and h = h and pid = pid] no by (auto simp: resolve_def g class_of_def)
  next
    case None
    then have hp: "resolve_heap h address pid rs = Some (None, rs)" by (simp add: resolve_heap_def)
    show ?thesis
    proof (cases "resolve_stack h address frames rs")
      case st: None
      then show ?thesis
        using resolve_stack_class(1) [where h = h and address = address and frames = frames and rs = rs] no None
        by (auto simp: resolve_def g hp class_of_def zero_resolved_def)
    next
      case (Some r)
      then show ?thesis
        using resolve_stack_class [where h = h and address = address and frames = frames and rs = rs] no None
        by (auto simp: resolve_def g hp class_of_def)
    qed
  qed
qed

text \<open>
  C11: When the range of the binary ends before the last two pages of the address space, the resolution of
  any address ends with a result: a symbol comes before a block, a block before the stack. Only the
  cached offset and the cached source files change.
\<close>

theorem resolve_total:
  assumes "\<forall>r \<in> set (rs_ranges rs). bounded_range r"
  shows "\<exists>r rs'. resolve h address pid frames rs = Some (Some r, rs') \<and> same_tables rs rs' \<and>
    ra_address r = address \<and> ra_class r = class_of rs address frames"
  using assms by (rule resolve_class)

section \<open>Blocks\<close>

text \<open>
  C14: A result in the heap describes a loaded live block that contains the address, and its fields start
  from the block.
\<close>

theorem resolve_heap_sound:
  assumes "sorts_by entry_less srt" and "rs_allocs rs = set_alloc_table srt allocs"
    and "resolve h address pid frames rs = Some (Some r, rs')" and "ra_class r = ADDR_HEAP"
  shows "\<exists>e \<in> set allocs. ae_live e \<noteq> 0 \<and> covers e address \<and>
    ra_alloc_size r = ae_size e \<and> ra_pid r = ae_pid e \<and> ra_tid r = ae_tid e \<and>
    (\<forall>f \<in> set (ra_fields r). rf_base_address f = ae_addr e \<and> rf_resolved_address f = address \<and>
       rf_type_name f = ra_type_name r)"
proof -
  have no: "resolve_global address rs = None"
    using assms(3,4) resolve_global_symbol [of address rs]
    by (auto simp: resolve_def split: option.splits)
  then have hp: "resolve_heap h address pid rs = Some (Some r, rs')"
    using assms(3,4) resolve_stack_class(2) [of h address frames _ r]
    by (auto simp: resolve_def split: option.splits)
  then obtain i where i: "find_alloc (rs_allocs rs) address = Some i"
    by (auto simp: resolve_heap_def split: option.splits)
  let ?e = "rs_allocs rs ! i"
  obtain t where t: "r = (let r = zero_resolved\<lparr>ra_class := ADDR_HEAP, ra_address := address,
                           ra_alloc_size := ae_size ?e, ra_pid := ae_pid ?e, ra_tid := ae_tid ?e,
                           ra_type_name := in_type_name t, ra_callsite := print_callsite t\<rparr>
                 in if in_type_name t = [] then r
                                else r\<lparr>ra_fields := heap_fields (rs_analyzer rs') t (ae_addr ?e) address\<rparr>)"
    using hp i by (auto simp: resolve_heap_def Let_def split: option.splits)
  have "?e \<in> set allocs \<and> covers ?e address \<and> ae_live ?e \<noteq> 0"
    using find_alloc_sound [OF assms(1), of allocs address i] i assms(2) by simp
  moreover have "\<forall>f \<in> set (heap_fields an t b a). rf_base_address f = b \<and> rf_resolved_address f = a \<and>
       rf_type_name f = in_type_name t" for an b a
    by (auto simp: heap_fields_def field_result_def Let_def split: option.splits)
  ultimately show ?thesis
    using t by (intro bexI [of _ ?e]) (auto simp: zero_resolved_def Let_def)
qed

lemma covers_offset: "covers e a \<Longrightarrow> unat (a - ae_addr e) < unat (ae_size e)"
proof -
  assume c: "covers e a"
  have "unat (ae_addr e + ae_size e) \<le> unat (ae_addr e) + unat (ae_size e)"
    by (simp add: unat_word_ariths)
  then have "unat a < unat (ae_addr e) + unat (ae_size e)"
    using c by (simp add: covers_def word_less_nat_alt)
  moreover have "unat (a - ae_addr e) = unat a - unat (ae_addr e)" "unat (ae_addr e) \<le> unat a"
    using c by (simp_all add: covers_def unat_sub word_le_nat_alt)
  ultimately show ?thesis by linarith
qed

text \<open>
  C15: In a block that is taken for an array of the only type with the reported name, at most one field is
  reported: the one at the remainder of the offset by the size of an element. Its path shows an
  index below the count of elements; index and remainder make up the offset of the address in the
  block, which is the reported byte offset.
\<close>

theorem array_index_in_block:
  assumes "infer_type_combined_v2 h (ae_stack_id e) (ae_size e) (ae_stack_pcs e) rs = Some (t, rs')"
    and "array_element_size (rs_analyzer rs') t = Some n" and "covers e address"
    and "\<forall>u. element_of (rs_analyzer rs) (in_type_name t) u \<longrightarrow> ti_byte_size u = n"
  shows "\<exists>k m. k < in_alloc_count t \<and> m < n \<and>
    unat k * unat n + unat m = unat address - unat (ae_addr e) \<and>
    (resolve_field_at_offset (rs_analyzer rs') (in_type_name t) m = None \<longrightarrow>
       heap_fields (rs_analyzer rs') t (ae_addr e) address = []) \<and>
    (\<forall>g. resolve_field_at_offset (rs_analyzer rs') (in_type_name t) m = Some g \<longrightarrow>
       (\<exists>f. heap_fields (rs_analyzer rs') t (ae_addr e) address = [f] \<and>
         rf_full_path f = in_type_name t @ ''['' @ print_unsigned k @ ''].'' @ fi_name g \<and>
         rf_field_name f = fi_name g \<and> rf_byte_size f = fi_byte_size g \<and>
         unat (rf_byte_offset f) = unat address - unat (ae_addr e) \<and>
         rf_base_address f = ae_addr e \<and> rf_resolved_address f = address))"
proof -
  let ?off = "address - ae_addr e"
  have n: "0 < n" "1 < in_alloc_count t"
    using assms(2) by (auto simp: array_element_size_def split: option.splits if_splits)
  have "counted (rs_analyzer rs) (ae_size e) t" using infer_type_same [OF assms(1)] by blast
  then have fill: "unat (in_alloc_count t) * unat n = unat (ae_size e)"
    using n(2) assms(4) by (auto simp: counted_def)
  have sub: "unat ?off = unat address - unat (ae_addr e)"
    using assms(3) by (simp add: covers_def unat_sub word_le_nat_alt)
  have np: "0 < unat n" using n(1) by (simp add: word_less_nat_alt)
  have "unat ?off < unat (in_alloc_count t) * unat n" using covers_offset [OF assms(3)] fill by simp
  then have "unat ?off div unat n < unat (in_alloc_count t)" by (rule less_mult_imp_div_less)
  moreover have "unat ?off mod unat n < unat n" using np by (rule mod_less_divisor)
  ultimately show ?thesis
    using assms(2) sub
    by (intro exI [of _ "?off div n"] exI [of _ "?off mod n"])
      (auto simp: word_less_nat_alt unat_div unat_mod heap_fields_def field_result_def Let_def split: option.split)
qed

section \<open>Blocks taken for globals\<close>

text \<open>The address in the first page of the object \<open>s\<close> with the page offset of \<open>a\<close>.\<close>

definition object_candidate :: "symbol_info \<Rightarrow> u64 \<Rightarrow> u64" where
  "object_candidate s a = (sy_address s AND NOT PAGE_MASK) OR (a AND PAGE_MASK)"

lemma masked_part: "((x AND NOT m) OR (y AND m)) AND m = y AND (m :: 'a :: len word)"
  by (rule bit_eqI) (auto simp: bit_simps)

lemma vote_cases:
  "(if A then None else if B then None else if C then Some z else None) = Some d \<Longrightarrow> C \<and> z = d"
  by (simp split: if_splits)

lemma same_page_offset:
  assumes "(c :: u64) AND PAGE_MASK = a AND PAGE_MASK"
  shows "uint (a - c) mod 4096 = 0"
proof -
  have "unat c mod 4096 = unat a mod 4096" using arg_cong [OF assms, of unat] by (simp only: unat_offset)
  then have "int (unat c mod 4096) = int (unat a mod 4096)" by (simp only:)
  then have "int (unat c) mod 4096 = int (unat a) mod 4096" by (simp add: zmod_int)
  then have "uint a mod 4096 = uint c mod 4096" by simp
  then have "(uint a - uint c) mod 4096 = 0" by (simp only: mod_eq_dvd_iff dvd_eq_mod_eq_0)
  moreover have "uint (a - c) = (uint a - uint c) mod 2 ^ 64" by (simp add: uint_word_ariths)
  moreover have "x mod 2 ^ 64 mod 4096 = x mod 4096" for x :: int
    by (rule mod_mod_cancel) simp
  ultimately show ?thesis by (simp only:)
qed

lemma sint_pos: "0 \<le> sint (x :: u64) \<Longrightarrow> sint x = uint x"
proof -
  assume "0 \<le> sint x"
  moreover have "sint x < 2 ^ 63" using sint_lt [of x] by simp
  ultimately have "take_bit 64 (sint x) = sint x" by (simp add: take_bit_int_eq_self_iff)
  then show ?thesis using uint_sint [of x] by simp
qed

lemma plausible_page:
  assumes "uint x mod 4096 = 0" and "plausible_offset (sint (x :: u64))"
  shows "page_floor (sint x) = sint x \<and> sint x \<noteq> 0"
proof -
  have lo: "0x1000000 \<le> sint x" using assms(2) unfolding plausible_offset_def by linarith
  then have "sint x = uint x" by (intro sint_pos) linarith
  then have "sint x mod 4096 = 0" using assms(1) by simp
  then have "page_floor (sint x) = sint x" unfolding page_floor_def by (simp add: minus_mod_eq_div_mult [symmetric])
  with lo show ?thesis by linarith
qed

lemma global_vote_base:
  assumes "global_vote a s = Some d"
  shows "d \<noteq> 0 \<and> a - of_int d = object_candidate s a"
proof -
  define x where "x = a - object_candidate s a"
  have d: "plausible_offset (sint x) \<and> page_floor (sint x) = d"
    using assms unfolding global_vote_def Let_def object_candidate_def [symmetric] x_def by (rule vote_cases)
  have "uint x mod 4096 = 0"
    unfolding x_def by (rule same_page_offset) (simp only: object_candidate_def masked_part)
  with d have "d = sint x" "d \<noteq> 0" using plausible_page [of x] by simp_all
  then show ?thesis by (simp add: x_def)
qed

lemma global_vote_above: "global_vote a s = Some d \<Longrightarrow> sy_address s \<le> object_candidate s a"
  by (auto simp: global_vote_def object_candidate_def Let_def not_less split: if_splits)

lemma find_split: "find P xs = Some x \<Longrightarrow> \<exists>ys zs. xs = ys @ x # zs \<and> (\<forall>y \<in> set ys. \<not> P y)"
proof (induction xs)
  case (Cons a xs)
  show ?case
  proof (cases "P a")
    case True
    with Cons.prems have "a # xs = [] @ x # xs" by simp
    then show ?thesis by (intro exI [of _ "[]"] exI [of _ xs]) simp
  next
    case False
    with Cons obtain ys zs where "xs = ys @ x # zs" "\<forall>y \<in> set ys. \<not> P y" by auto
    with False show ?thesis by (intro exI [of _ "a # ys"] exI [of _ zs]) simp
  qed
qed simp

lemma find_rev_split:
  assumes "find P (rev xs) = Some x"
  obtains ys zs where "xs = ys @ x # zs" and "\<forall>z \<in> set zs. \<not> P z"
proof -
  from find_split [OF assms] obtain ys zs where "rev xs = ys @ x # zs" "\<forall>y \<in> set ys. \<not> P y" by blast
  then have "xs = rev zs @ x # rev ys" "\<forall>y \<in> set (rev ys). \<not> P y"
    by (simp_all add: rev_swap)
  then show ?thesis by (rule that)
qed

text \<open>
  The lookup finds something at \<open>c\<close> once some symbol starts at or below \<open>c\<close> and every symbol that
  starts between it and \<open>c\<close> contains \<open>c\<close>.
\<close>

lemma lookup_in_clear:
  assumes "symbols_ok an" and "t \<in> set (symbols an)" and "sy_address t \<le> c"
    and "\<forall>u \<in> set (symbols an). sy_address t \<le> sy_address u \<and> sy_address u \<le> c \<longrightarrow> c < sy_address u + sy_size u"
  shows "find_symbol_by_addr an c \<noteq> None"
proof (cases "find (\<lambda>s. sy_address s = c) (rev (symbols an))")
  case (Some u)
  then show ?thesis by (simp add: find_symbol_by_addr_spec [OF assms(1)] symbol_spec_def)
next
  case None
  have srtd: "sorted (map sy_address (symbols an))" using assms(1) by (simp add: symbols_ok_def)
  have "find (\<lambda>s. sy_address s \<le> c) (rev (symbols an)) \<noteq> None"
    using assms(2,3) by (auto simp: find_None_iff)
  then obtain u where u: "find (\<lambda>s. sy_address s \<le> c) (rev (symbols an)) = Some u" by blast
  then obtain xs ys where sp: "symbols an = ys @ u # xs" "\<forall>x \<in> set xs. \<not> sy_address x \<le> c"
    by (rule find_rev_split)
  have "u \<in> set (symbols an)" "sy_address u \<le> c" using find_mem [OF u] by simp_all
  moreover have "sy_address t \<le> sy_address u"
    using srtd assms(2,3) sp by (auto simp: sorted_append)
  ultimately have "c < sy_address u + sy_size u" using assms(4) by blast
  then show ?thesis by (simp add: find_symbol_by_addr_spec [OF assms(1)] symbol_spec_def None u)
qed

text \<open>
  C35: Over the symbol table of a loaded binary, an address that belongs to no symbol is nevertheless
  resolved as a global once some data object votes for a load offset, provided that every symbol
  which starts between a voting object and its candidate address contains the candidate: no symbol
  nested in the object, and none of the same address, ends before it. The result does not depend on
  the loaded blocks: a live block that contains the address is not looked at.
\<close>

theorem heap_block_taken_for_global:
  assumes "symbols_ok (rs_analyzer rs)" and "find_symbol_by_addr (rs_analyzer rs) a = None"
    and "s \<in> set (symbols (rs_analyzer rs))" and "global_vote a s \<noteq> None"
    and "\<forall>t \<in> set (symbols (rs_analyzer rs)). \<forall>u \<in> set (symbols (rs_analyzer rs)).
        global_vote a t \<noteq> None \<and> sy_address t \<le> sy_address u \<and> sy_address u \<le> object_candidate t a \<longrightarrow>
        object_candidate t a < sy_address u + sy_size u"
  shows "\<exists>r t. resolve h a pid frames rs = Some (Some r, rs) \<and> ra_class r = ADDR_GLOBAL \<and>
    ra_alloc_size r = 0 \<and> global_vote a t \<noteq> None \<and> t \<in> set (symbols (rs_analyzer rs)) \<and>
    map_option sy_name (find_symbol_by_addr (rs_analyzer rs) (object_candidate t a)) = Some (ra_symbol_name r)"
proof -
  let ?votes = "List.map_filter (global_vote a) (symbols (rs_analyzer rs))"
  have votes: "set ?votes = {d. \<exists>t \<in> set (symbols (rs_analyzer rs)). global_vote a t = Some d}"
    by (force simp: map_filter_def)
  obtain d where "global_vote a s = Some d" using assms(4) by blast
  then have "d \<in> set ?votes" using assms(3) votes by blast
  then have ne: "?votes \<noteq> []" by auto
  have "tally ?votes \<noteq> []" using tally_spec [of ?votes d] \<open>d \<in> set ?votes\<close> by auto
  then have b: "compute_aslr_from_global_addr a rs = best_count (tally ?votes)"
    by (simp add: compute_aslr_from_global_addr_def tally_def)
  have "best_count (tally ?votes) \<in> set ?votes" using winner [OF ne] by blast
  then obtain t where t: "t \<in> set (symbols (rs_analyzer rs))" "global_vote a t = Some (best_count (tally ?votes))"
    using votes by blast
  note base = global_vote_base [OF t(2)]
  have "find_symbol_by_addr (rs_analyzer rs) (object_candidate t a) \<noteq> None"
    by (rule lookup_in_clear [OF assms(1) t(1) global_vote_above [OF t(2)]]) (use assms(5) t in auto)
  then obtain u where u: "find_symbol_by_addr (rs_analyzer rs) (object_candidate t a) = Some u" by blast
  then have g: "global_symbol rs a = Some u" using base assms(2) by (simp add: global_symbol_def b)
  obtain r where "resolve_global a rs = Some r" "ra_class r = ADDR_GLOBAL" "ra_symbol_name r = sy_name u" "ra_alloc_size r = 0"
    using resolve_global_symbol [of a rs] unfolding g by auto
  then show ?thesis using u t by (intro exI [of _ r] exI [of _ t]) (simp add: resolve_def)
qed

section \<open>Examples\<close>

text \<open>A binary with one object of a page, and a block of the heap that lies far above it.\<close>

definition page_object :: symbol_info where
  "page_object =
     \<lparr>sy_name = ''table'', sy_address = 0x4000, sy_size = 0x1000, sy_type_name = [], sy_type_die_offset = 0,
      sy_binding = BIND_GLOBAL, sy_sym_type = SYM_OBJECT\<rparr>"

definition page_resolver :: resolver where
  "page_resolver = new_resolver\<lparr>rs_analyzer := add_symbol page_object empty_analyzer,
     rs_allocs := set_alloc_table (sort_key ae_addr) [sample_entry 0x555555559000 48 1]\<rparr>"

lemma page_resolver_simps:
  "symbols (rs_analyzer page_resolver) = [page_object]" "rs_ranges page_resolver = []"
  "rs_allocs page_resolver = set_alloc_table (sort_key ae_addr) [sample_entry 0x555555559000 48 1]"
  "types (rs_analyzer page_resolver) = []" "subprograms (rs_analyzer page_resolver) = []"
  "sy_name page_object = ''table''"
  by (simp_all add: page_object_def page_resolver_def new_resolver_def add_symbol_def empty_analyzer_def Let_def)

lemma page_symbols_ok: "symbols_ok (rs_analyzer page_resolver)"
  using index_ok_snoc [OF index_ok_empty, of sy_address page_object]
  by (simp add: symbols_ok_def page_resolver_def new_resolver_def add_symbol_def empty_analyzer_def Let_def)

lemma page_lookup:
  "find_symbol_by_addr (rs_analyzer page_resolver) 0x555555559010 = None"
  "find_symbol_by_addr (rs_analyzer page_resolver) 0x4010 = Some page_object"
  by (simp_all add: find_symbol_by_addr_def page_resolver_def new_resolver_def add_symbol_def empty_analyzer_def
      page_object_def upper_bound_def bisect.simps Let_def)

lemma page_vote: "global_vote 0x555555559010 page_object = Some 0x555555555000"
  by (simp add: global_vote_def page_object_def PAGE_MASK_def plausible_offset_def page_floor_def Let_def sint_uint)

theorem heap_block_taken_for_global_witness:
  "find_alloc (rs_allocs page_resolver) 0x555555559010 = Some 0 \<and>
   (\<exists>r. resolve no_host 0x555555559010 0 [] page_resolver = Some (Some r, page_resolver) \<and>
      ra_class r = ADDR_GLOBAL \<and> ra_symbol_name r = ''table'' \<and> ra_alloc_size r = 0)"
proof
  show "find_alloc (rs_allocs page_resolver) 0x555555559010 = Some 0"
    by (simp add: page_resolver_simps find_alloc_def set_alloc_table_def upper_bound_def bisect.simps
        sample_entry_def covers_def Let_def)
  have c: "object_candidate page_object 0x555555559010 = 0x4010"
    by (simp add: object_candidate_def page_object_def PAGE_MASK_def)
  moreover have "sy_address page_object = 0x4000" "sy_size page_object = 0x1000"
    by (simp_all add: page_object_def)
  ultimately show "\<exists>r. resolve no_host 0x555555559010 0 [] page_resolver = Some (Some r, page_resolver) \<and>
      ra_class r = ADDR_GLOBAL \<and> ra_symbol_name r = ''table'' \<and> ra_alloc_size r = 0"
    using heap_block_taken_for_global [OF page_symbols_ok page_lookup(1), of page_object no_host 0 "[]"]
    by (auto simp: page_resolver_simps page_vote page_lookup)
qed

text \<open>An address that is neither in an object nor in a block, on the stack of a function.\<close>

theorem resolve_total_witness:
  "\<exists>r rs'. resolve no_host 0x10 0 [0x4010] page_resolver = Some (Some r, rs') \<and> ra_class r = ADDR_STACK"
proof -
  have g: "global_symbol page_resolver 0x10 = None"
    by (simp add: global_symbol_def compute_aslr_from_global_addr_def page_resolver_def new_resolver_def
        add_symbol_def empty_analyzer_def find_symbol_by_addr_def upper_bound_def bisect.simps page_object_def
        global_vote_def PAGE_MASK_def plausible_offset_def map_filter_def Let_def sint_uint)
  have "find_alloc (rs_allocs page_resolver) 0x10 = None"
    by (simp add: page_resolver_simps find_alloc_def set_alloc_table_def upper_bound_def bisect.simps
        sample_entry_def Let_def)
  then have "class_of page_resolver 0x10 [0x4010] = ADDR_STACK"
    using g page_lookup(2) by (simp add: class_of_def)
  then show ?thesis
    using resolve_total [of page_resolver no_host "0x10" 0 "[0x4010]"] by (auto simp: page_resolver_simps)
qed

definition heap_resolver :: resolver where
  "heap_resolver = new_resolver\<lparr>rs_allocs := set_alloc_table (sort_key ae_addr) [sample_entry 0x1000 48 1]\<rparr>"

theorem resolve_heap_sound_witness:
  "\<exists>r rs'. resolve no_host 0x1028 0 [] heap_resolver = Some (Some r, rs') \<and> ra_class r = ADDR_HEAP \<and>
     ra_alloc_size r = 48"
proof -
  have a: "rs_allocs heap_resolver = set_alloc_table (sort_key ae_addr) [sample_entry 0x1000 48 1]"
    "rs_ranges heap_resolver = []"
    by (simp_all add: heap_resolver_def new_resolver_def)
  have g: "global_symbol heap_resolver 0x1028 = None"
    by (simp add: global_symbol_def compute_aslr_from_global_addr_def heap_resolver_def new_resolver_def
        empty_analyzer_def find_symbol_by_addr_def map_filter_def Let_def)
  have "find_alloc (rs_allocs heap_resolver) 0x1028 = Some 0"
    by (simp add: a find_alloc_def set_alloc_table_def upper_bound_def bisect.simps sample_entry_def covers_def Let_def)
  then have "class_of heap_resolver 0x1028 [] = ADDR_HEAP" using g by (simp add: class_of_def)
  then obtain r rs' where r: "resolve no_host 0x1028 0 [] heap_resolver = Some (Some r, rs')" "ra_class r = ADDR_HEAP"
    using resolve_class [of heap_resolver no_host "0x1028" 0 "[]"] by (auto simp: a)
  then show ?thesis
    using resolve_heap_sound [OF sample_sorts a(1) r] by (auto simp: sample_entry_def)
qed

text \<open>48 bytes as an array of the only type, which has 16: the address is in the field of its last element.\<close>

definition array_resolver :: resolver where
  "array_resolver = build_size_index
     (new_resolver\<lparr>rs_analyzer := add_type (sample_type ''P'' 16) empty_analyzer\<rparr>)"

theorem array_index_in_block_witness:
  "\<exists>t f. infer_type_combined_v2 no_host 0 48 [] array_resolver = Some (t, array_resolver) \<and>
     heap_fields (rs_analyzer array_resolver) t 0x1000 0x1024 = [f] \<and>
     rf_full_path f = ''P[2].x'' \<and> rf_byte_offset f = 36"
proof -
  let ?e = "sample_entry 0x1000 48 1"
  have e: "ae_stack_id ?e = 0" "ae_size ?e = 48" "ae_stack_pcs ?e = []" "ae_addr ?e = 0x1000"
    by (simp_all add: sample_entry_def zero_entry_def)
  have ts: "types (rs_analyzer array_resolver) = [sample_type ''P'' 16]"
    "find_type_by_name (rs_analyzer array_resolver) ''P'' = Some (sample_type ''P'' 16)"
    by (simp_all add: array_resolver_def build_size_index_def new_resolver_def add_type_def empty_analyzer_def
        find_type_by_name_def sample_type_def Let_def)
  obtain t where t: "infer_type_combined_v2 no_host 0 48 [] array_resolver = Some (t, array_resolver)"
    "size_result 48 (types (rs_analyzer array_resolver)) t"
    using infer_by_size [OF array_resolver_def, of 0 no_host 48] by auto
  then have r: "in_type_name t = ''P''" "in_alloc_count t = 3"
    by (simp_all add: ts size_result_def sized_def element_type_def sample_type_def array_result_def)
  have el: "array_element_size (rs_analyzer array_resolver) t = Some 16"
    using r ts by (simp add: array_element_size_def sample_type_def)
  have u: "\<forall>u. element_of (rs_analyzer array_resolver) (in_type_name t) u \<longrightarrow> ti_byte_size u = 16"
  proof (intro allI impI)
    fix u assume "element_of (rs_analyzer array_resolver) (in_type_name t) u"
    then have "Some (sample_type ''P'' 16) = Some u \<or> u \<in> set [sample_type ''P'' 16]"
      unfolding element_of_def r(1) ts by blast
    then have "u = sample_type ''P'' 16" by auto
    then show "ti_byte_size u = 16" by (simp add: sample_type_def)
  qed
  have c: "covers ?e 0x1024" by (simp add: covers_def sample_entry_def)
  have "infer_type_combined_v2 no_host (ae_stack_id ?e) (ae_size ?e) (ae_stack_pcs ?e) array_resolver = Some (t, array_resolver)"
    using t(1) by (simp only: e)
  from array_index_in_block [OF this el c u] obtain k m :: u64 where km: "m < 16"
      "unat k * unat (16 :: u64) + unat m = unat (0x1024 :: u64) - unat (ae_addr ?e)"
    and fs: "\<forall>g. resolve_field_at_offset (rs_analyzer array_resolver) (in_type_name t) m = Some g \<longrightarrow>
       (\<exists>f. heap_fields (rs_analyzer array_resolver) t (ae_addr ?e) 0x1024 = [f] \<and>
         rf_full_path f = in_type_name t @ ''['' @ print_unsigned k @ ''].'' @ fi_name g \<and>
         unat (rf_byte_offset f) = unat (0x1024 :: u64) - unat (ae_addr ?e))"
    by blast
  have "unat m < 16" using km(1) by (simp add: word_less_nat_alt)
  moreover have "unat k * 16 + unat m = 36" using km(2) by (simp add: e)
  ultimately have "unat m = 4 \<and> unat k = 2" by presburger
  then have "unat m = 4" "unat k = 2" by simp_all
  then have mk: "m = 4" "k = 2" by (simp_all add: word_unat_eq_iff)
  have "resolve_field_at_offset (rs_analyzer array_resolver) ''P'' 4 = Some sample_field"
    by (simp add: resolve_field_at_offset_def resolve_field_by_die_def ts array_resolver_def build_size_index_def
        new_resolver_def add_type_def empty_analyzer_def find_type_by_offset_def find_type_by_name_def
        sample_type_def best_field_def best_field_step_def sample_field_def Let_def)
  with fs mk obtain f where f: "heap_fields (rs_analyzer array_resolver) t 0x1000 0x1024 = [f]"
      "rf_full_path f = ''P'' @ ''['' @ print_unsigned (2 :: u64) @ ''].'' @ fi_name sample_field" "unat (rf_byte_offset f) = 36"
    by (auto simp: e r(1))
  have "rf_byte_offset f = 36" using f(3) by (simp add: word_unat_eq_iff)
  moreover have "rf_full_path f = ''P[2].x''"
    using f(2) by (simp add: print_unsigned_def digits.simps digit_char_def sample_field_def char_of_def bit_0)
  ultimately show ?thesis using t(1) f(1) by blast
qed

end
