(* ===== verification/End_To_End.thy ===== *)
theory End_To_End
  imports Resolve_Correct
begin

text \<open>
  From the probes to the resolver: an allocation that is active in the kernel is resolved as a heap
  block with the size, the process and the thread of the call.
\<close>

section \<open>The blocks of the table\<close>

text \<open>Address and size of every record, live or not.\<close>

definition blocks :: "alloc_table \<Rightarrow> (u64 \<times> u64) set" where
  "blocks t = (\<lambda>r. (ar_addr r, ar_size r)) ` set (take (count t) (records t))"

lemma blocks_permanent:
  "map permanent (take n (records t')) = map permanent (take n (records t)) \<Longrightarrow>
   (\<lambda>r. (ar_addr r, ar_size r)) ` set (take n (records t')) = (\<lambda>r. (ar_addr r, ar_size r)) ` set (take n (records t))"
proof -
  let ?k = "\<lambda>r. (ar_addr r, ar_size r)"
  have k: "?k \<circ> permanent = ?k" by (rule ext) (simp add: permanent_def)
  assume "map permanent (take n (records t')) = map permanent (take n (records t))"
  from arg_cong [OF this, of "map ?k"]
  have "map ?k (take n (records t')) = map ?k (take n (records t))" by (simp only: map_map k)
  from arg_cong [OF this, of set] show ?thesis by (simp only: set_map)
qed

lemma blocks_store:
  assumes "store_record hp rec ctx = Some ctx'" and "table_inv (table ctx)" and "count (table ctx) < 2 ^ 31"
  shows "blocks (table ctx') \<subseteq> insert (ar_addr rec, ar_size rec) (blocks (table ctx))"
  using assms(2,3)
proof (cases rule: add_alloc_record_cases [where hp = hp and rec = rec])
  case (pushed u)
  then have "count u < length (records u)" by (auto simp: table_inv_def)
  then have "set (take (Suc (count u)) ((records u)[count u := rec])) = insert rec (set (take (count u) (records u)))"
    by (simp add: take_Suc_conv_app_nth)
  then show ?thesis
    using pushed assms(1) by (auto simp: store_record_def blocks_def pushed_simps)
next
  case (failed u)
  then show ?thesis using assms(1) by (auto simp: store_record_def blocks_def)
qed

lemma blocks_malloc:
  assumes "collector_room (Suc n) ctx"
  shows "blocks (table (collector_malloc a c ctx)) \<subseteq> insert (a, call_size c) (blocks (table ctx))"
proof -
  have inv: "table_inv (table ctx)" "count (table ctx) < 2 ^ 31" "target_pid ctx = 0"
    using assms by (simp_all add: collector_room_def)
  have sz: "ev_words (malloc_event a c) ! 1 = call_size c"
    using malloc_event_simps(5) [of a c]
    by (simp add: info_of_record_def call_info_def make_alloc_info_def call_pending_def)
  obtain d where d: "handle_event good_heap (malloc_event a c) ctx =
      store_record good_heap (event_record MALLOC_RET_PCS (malloc_event a c)) d" "table d = table ctx"
    using handle_alloc [OF malloc_event_simps(3) malloc_event_simps(4)] inv(3) by blast
  then have "store_record good_heap (event_record MALLOC_RET_PCS (malloc_event a c)) d = Some (collector_malloc a c ctx)"
    using collector_malloc_effect [OF assms, of a c] by simp
  from blocks_store [OF this] show ?thesis
    using d(2) inv by (simp add: malloc_event_simps sz [simplified])
qed

lemma blocks_free:
  assumes "collector_room n ctx"
  shows "blocks (table (collector_free a c ctx)) = blocks (table ctx)"
proof -
  have inv: "table_inv (table ctx)" "count (table ctx) < 2 ^ 31" "target_pid ctx = 0"
    using assms by (simp_all add: collector_room_def)
  note f = collector_free_effect [OF assms, of a c]
  obtain d where "handle_event good_heap (free_event a c) ctx = Some d" "table_extends (table ctx) (table d)"
    using handle_event_effect [OF inv(1,2) free_event_simps(3)] by blast
  then have "table_extends (table ctx) (table (collector_free a c ctx))" using f by simp
  then show ?thesis
    using f blocks_permanent [of "count (table ctx)"] by (simp add: blocks_def table_extends_def)
qed

definition op_blocks :: "alloc_trace \<Rightarrow> (u64 \<times> u64) set" where
  "op_blocks ops = {(a, call_size c) | a c. Alloc a c \<in> set ops}"

lemma blocks_trace:
  "collector_room (n_allocs ops) ctx \<Longrightarrow> fresh_trace (\<lambda>a. a \<noteq> 0) call_info ops (collector_view ctx) \<Longrightarrow>
   blocks (table (fold collector.step ops ctx)) \<subseteq> blocks (table ctx) \<union> op_blocks ops"
proof (induction ops arbitrary: ctx)
  case Nil
  then show ?case by simp
next
  case (Cons x ops)
  have sub: "op_blocks ops \<subseteq> op_blocks (x # ops)" by (auto simp: op_blocks_def)
  show ?case
  proof (cases x)
    case (Alloc a c)
    have r: "collector_room (Suc (n_allocs ops)) ctx" and a: "a \<noteq> 0" "collector_view ctx a = None"
      using Cons.prems Alloc by auto
    have v: "collector_view (collector_malloc a c ctx) = spec_step call_info (Alloc a c) (collector_view ctx)"
      using collector.view_alloc [OF r a] by simp
    have "blocks (table (fold collector.step ops (collector_malloc a c ctx))) \<subseteq>
        blocks (table (collector_malloc a c ctx)) \<union> op_blocks ops"
      using Cons.prems(2) Alloc
      by (intro Cons.IH [OF collector.invar_alloc [OF r a]]) (simp only: v fresh_trace.simps)
    moreover have "(a, call_size c) \<in> op_blocks (x # ops)"
      unfolding op_blocks_def by (rule CollectI, rule exI [of _ a], rule exI [of _ c]) (simp add: Alloc)
    ultimately show ?thesis using blocks_malloc [OF r, of a c] sub Alloc by auto
  next
    case (Release a c)
    have r: "collector_room (n_allocs ops) ctx" and a: "a \<noteq> 0" using Cons.prems Release by auto
    have v: "collector_view (collector_free a c ctx) = spec_step call_info (Release a c) (collector_view ctx)"
      using collector.view_release [OF r a] by simp
    have "blocks (table (fold collector.step ops (collector_free a c ctx))) \<subseteq>
        blocks (table (collector_free a c ctx)) \<union> op_blocks ops"
      using Cons.prems(2) Release
      by (intro Cons.IH [OF collector.invar_release [OF r a]]) (simp only: v fresh_trace.simps)
    then show ?thesis using blocks_free [OF r, of a c] sub Release by auto
  qed
qed

section \<open>An active block\<close>

text \<open>A block at the first address of which the search arrives.\<close>

lemma find_alloc_at_start:
  assumes srt: "sorts_by entry_less srt" and e: "e \<in> set allocs" "ae_live e \<noteq> 0"
    and cov: "\<forall>f \<in> set allocs. covers f (ae_addr f)"
  shows "\<exists>i. find_alloc (set_alloc_table srt allocs) (ae_addr e) = Some i \<and>
    set_alloc_table srt allocs ! i \<in> set allocs \<and> ae_live (set_alloc_table srt allocs ! i) \<noteq> 0 \<and>
    ae_addr (set_alloc_table srt allocs ! i) = ae_addr e"
proof -
  let ?xs = "set_alloc_table srt allocs" and ?a = "ae_addr e"
  have xs: "sorted (map ae_addr ?xs)" "set ?xs = set allocs"
    by (rule table_sorted [OF srt], rule table_set [OF srt])
  obtain ys zs where w: "rev (takeWhile (\<lambda>f. ae_addr f \<le> ?a) ?xs) = zs @ e # ys"
    and zs: "\<forall>f \<in> set zs. f \<in> set ?xs \<and> ?a \<le> ae_addr f \<and> ae_addr f \<le> ?a"
    using walk_order [OF xs(1), of e ?a] e(1) xs(2) by auto
  have "\<exists>f rest. dropWhile (\<lambda>f. covers f ?a \<and> ae_live f = 0) (zs @ e # ys) = f # rest \<and>
      f \<in> set allocs \<and> ae_addr f = ?a"
    using zs
  proof (induction zs)
    case Nil
    then show ?case using e by simp
  next
    case (Cons f zs)
    then have "f \<in> set allocs" "ae_addr f = ?a" using xs(2) by auto
    with Cons show ?case by auto
  qed
  then obtain f rest where f: "dropWhile (\<lambda>f. covers f ?a \<and> ae_live f = 0) (zs @ e # ys) = f # rest"
    "f \<in> set allocs" "ae_addr f = ?a" by blast
  then have "find_alloc_spec ?xs ?a = Some f" using cov by (auto simp: find_alloc_spec_def w)
  then have "map_option ((!) ?xs) (find_alloc ?xs ?a) = Some f" using find_alloc_eq_spec [OF xs(1)] by simp
  then obtain i where i: "find_alloc ?xs ?a = Some i" "?xs ! i = f" by auto
  with find_alloc_sound [OF srt i(1)] f show ?thesis by simp
qed

lemma global_symbol_allocs [simp]: "global_symbol (rs\<lparr>rs_allocs := xs\<rparr>) a = global_symbol rs a"
proof -
  have "compute_aslr_from_global_addr a (rs\<lparr>rs_allocs := xs\<rparr>) = compute_aslr_from_global_addr a rs"
    by (simp add: compute_aslr_from_global_addr_def)
  then show ?thesis by (simp add: global_symbol_def Let_def split: option.split)
qed

definition real_blocks :: "alloc_trace \<Rightarrow> bool" where
  "real_blocks ops \<longleftrightarrow> (\<forall>(a, n) \<in> op_blocks ops. a < a + n)"

text \<open>
  C1: Over a trace of fewer than \<open>2 ^ 31\<close> calls of malloc and free in which every helper of the kernel
  accepts, the collector is given the memory it asks for, and every block is non-empty and ends
  before the end of the address space: the start of each block that is active in the kernel is
  resolved, after its events went through the collector and its file, as a heap block with the size,
  the process and the thread of the allocation, provided that it is not taken for a global and the
  range of the binary ends before the last two pages. (An empty block covers no address, so that
  the start of a \<open>malloc(0)\<close> is not found.)
\<close>

theorem active_block_is_resolved:
  assumes trace: "allocator_trace ops" "length ops < 2 ^ 31" "real_blocks ops" and ctx: "fresh_collector ctx"
    and srt: "sorts_by entry_less srt"
    and act: "active_allocs (kernel_run ops initial_bpf_state) a = Some i"
    and rs: "\<forall>r \<in> set (rs_ranges rs). bounded_range r" "global_symbol rs a = None"
  shows "\<exists>ctx' r rs'.
    collector_poll (map (Pair good_heap) (ring (kernel_run ops initial_bpf_state))) rc (Some ctx) = Some (rc, Some ctx') \<and>
    resolve h a pid frames (set_allocs srt (load_csv (write_csv_batch (table ctx'))) rs) = Some (Some r, rs') \<and>
    ra_class r = ADDR_HEAP \<and> ra_alloc_size r = ai_size i \<and> ra_pid r = ai_pid i \<and> ra_tid r = ai_tid i"
proof -
  obtain ctx' where c: "collector_poll (map (Pair good_heap) (ring (kernel_run ops initial_bpf_state))) rc (Some ctx)
      = Some (rc, Some ctx')" "collector_room 0 ctx'" "full_pcs (table ctx')"
    "collector_view ctx' = active_allocs (kernel_run ops initial_bpf_state)" "ctx' = fold collector.step ops ctx"
    using collector_on_trace [OF trace(1,2) ctx] by blast
  define allocs where "allocs = load_csv (write_csv_batch (table ctx'))"
  define rs1 where "rs1 = set_allocs srt allocs rs"
  have n: "n_allocs ops < 2 ^ 31"
    using trace(2) by (rule le_less_trans [rotated]) (induction ops; auto split: tracker_op.split)
  note room = fresh_collector_room [OF ctx n]
  have "blocks (table ctx') \<subseteq> blocks (table ctx) \<union> op_blocks ops"
    using blocks_trace [of ops ctx] room trace(1) c(5) by (simp add: allocator_trace_def)
  moreover have "blocks (table ctx) = {}" using ctx by (simp add: blocks_def fresh_collector_def)
  ultimately have real: "\<forall>(b, n) \<in> blocks (table ctx'). b < b + n" using trace(3) by (auto simp: real_blocks_def)
  have loaded: "allocs = map loaded (take (count (table ctx')) (records (table ctx')))"
    unfolding allocs_def using c(3) by (intro csv_roundtrip_loaded) (simp add: full_pcs_def)
  have cov: "\<forall>f \<in> set allocs. covers f (ae_addr f)"
    using real by (auto simp: loaded blocks_def covers_def loaded_def)
  have live: "entry_key ` {x \<in> set allocs. ae_live x \<noteq> 0} = active_keys (kernel_run ops initial_bpf_state)"
    using live_entries [OF c(2,3)] c(4) by (simp add: allocs_def active_keys_def)
  have "(a, ai_size i, ai_stack_id i, ai_pid i, ai_tid i) \<in> active_keys (kernel_run ops initial_bpf_state)"
    using act by (auto simp: active_keys_def)
  then obtain e where e: "e \<in> set allocs" "ae_live e \<noteq> 0" "ae_addr e = a"
    unfolding live [symmetric] by (auto simp: entry_key_def)
  obtain k where k: "find_alloc (rs_allocs rs1) a = Some k" "rs_allocs rs1 ! k \<in> set allocs"
    "ae_live (rs_allocs rs1 ! k) \<noteq> 0" "ae_addr (rs_allocs rs1 ! k) = a"
    using find_alloc_at_start [OF srt e(1,2) cov] e(3) by (auto simp: rs1_def set_allocs_def)
  have "entry_key (rs_allocs rs1 ! k) \<in> active_keys (kernel_run ops initial_bpf_state)"
    unfolding live [symmetric] using k by blast
  then have key: "ae_size (rs_allocs rs1 ! k) = ai_size i" "ae_pid (rs_allocs rs1 ! k) = ai_pid i"
    "ae_tid (rs_allocs rs1 ! k) = ai_tid i"
    using act k(4) by (auto simp: active_keys_def entry_key_def)
  have same: "rs_ranges rs1 = rs_ranges rs" "global_symbol rs1 a = None"
    using rs(2) by (simp_all add: rs1_def set_allocs_def)
  then have g: "resolve_global a rs1 = None" using resolve_global_symbol [of a rs1] by simp
  have "\<exists>r rs'. resolve_heap h a pid rs1 = Some (Some r, rs') \<and> ra_class r = ADDR_HEAP \<and>
      ra_alloc_size r = ai_size i \<and> ra_pid r = ai_pid i \<and> ra_tid r = ai_tid i"
    using resolve_heap_alloc [where rs = rs1 and address = a and h = h and pid = pid] rs(1)
    by (auto simp: same k(1) key)
  then show ?thesis using c(1) by (auto simp: resolve_def g rs1_def [symmetric] allocs_def [symmetric])
qed

theorem active_block_is_resolved_witness:
  "\<exists>ctx' r rs'. collector_poll (map (Pair good_heap) (ring (kernel_run
        [Alloc 0x8000 (sample_env 6 3, sample_env 6 4, 8)] initial_bpf_state))) 1 (Some sample_ctx)
      = Some (1, Some ctx') \<and>
    resolve no_host 0x8000 0 [] (set_allocs (sort_key ae_addr) (load_csv (write_csv_batch (table ctx'))) new_resolver)
      = Some (Some r, rs') \<and> ra_class r = ADDR_HEAP \<and> ra_alloc_size r = 8"
proof -
  let ?c = "(sample_env 6 3, sample_env 6 4, 8)"
  let ?ops = "[Alloc 0x8000 ?c]"
  have t: "allocator_trace ?ops" by (simp add: allocator_trace_def)
  have f: "fresh_collector sample_ctx" by (simp add: fresh_collector_def sample_ctx fresh_table_inv)
  have k: "active_allocs (kernel_run ?ops initial_bpf_state) 0x8000 = Some (call_info ?c)"
    by (simp add: kernel_run_def kernel_malloc_effect)
  have sz: "ai_size (call_info ?c) = 8"
    by (simp add: call_info_def make_alloc_info_def call_pending_def call_size_def)
  have b: "real_blocks ?ops"
    by (auto simp: real_blocks_def op_blocks_def call_size_def)
  have g: "global_symbol new_resolver 0x8000 = None" "rs_ranges new_resolver = []"
    by (simp_all add: new_resolver_def global_symbol_def compute_aslr_from_global_addr_def find_symbol_by_addr_def
        empty_analyzer_def map_filter_def)
  show ?thesis
    using active_block_is_resolved [OF t _ b f sample_sorts k _ g(1), where rc = 1 and h = no_host and pid = 0 and frames = "[]"] g(2) sz by auto
qed

end
