(* ===== verification/Resolver_Cli.thy ===== *)
theory Resolver_Cli
  imports Resolve
begin

text \<open>
  The commands of \<open>src/resolver/main.cpp\<close> as functions from the loaded resolver and the contents of the
  CSV file to what they print, and the layout printer of \<open>src/dwarf/dwarf_analyzer.cpp\<close>. Messages on the
  standard error stream are left out. A file that cannot be opened reads as an empty one.
\<close>

section \<open>Formats\<close>

text \<open>\<open>%-<n>s\<close>, \<open>std::setw(n)\<close> and \<open>%0<n>lx\<close>, and strings passed to \<open>printf\<close>.\<close>

definition pad_right :: "nat \<Rightarrow> string \<Rightarrow> string" where
  "pad_right n s = s @ replicate (n - length s) (CHR '' '')"

definition pad_left :: "nat \<Rightarrow> string \<Rightarrow> string" where
  "pad_left n s = replicate (n - length s) (CHR '' '') @ s"

definition pad_zero :: "nat \<Rightarrow> string \<Rightarrow> string" where
  "pad_zero n s = replicate (n - length s) (CHR ''0'') @ s"

fun commas :: "string list \<Rightarrow> string" where
  "commas [] = []"
| "commas [s] = s"
| "commas (s # t # ss) = s @ '','' @ commas (t # ss)"

section \<open>Type layout\<close>

definition layout_field :: "field_info \<Rightarrow> string" where
  "layout_field f =
     ''  '' @ pad_left 6 (print_unsigned (fi_byte_offset f)) @
     ''  '' @ pad_left 4 (print_unsigned (fi_byte_size f)) @
     ''  '' @ pad_left 15 (if fi_type_name f = [] then ''?'' else fi_type_name f) @
     ''  '' @ fi_name f @
     (if fi_is_bitfield f then
        '' (bitfield: bit_offset='' @ print_unsigned (fi_bit_offset f) @ '', bit_size='' @
        print_unsigned (fi_bit_size f) @ '')'' else []) @
     (if fi_is_pointer f then '' *'' else []) @
     (if fi_is_array f then ''['' @ print_unsigned (fi_array_element_count f) @ '']'' else []) @
     NEWLINE"

definition fields_end :: "field_info list \<Rightarrow> u64" where
  "fields_end fs = fold (\<lambda>f total. max total (fi_byte_offset f + fi_byte_size f)) fs 0"

definition type_layout_to_string :: "analyzer \<Rightarrow> string \<Rightarrow> string" where
  "type_layout_to_string an name =
     (case find_type_by_name an name of
        None \<Rightarrow> ''type not found: '' @ name
      | Some t \<Rightarrow>
          let total = fields_end (ti_fields t)
          in ''struct '' @ ti_name t @ '' (size='' @ print_unsigned (ti_byte_size t) @ '', align='' @
             print_unsigned (ti_alignment t) @ '')'' @ NEWLINE @
             ''  Offset  Size  Type            Name'' @ NEWLINE @
             ''  ------  ----  ----            ----'' @ NEWLINE @
             concat (map layout_field (ti_fields t)) @
             (if total < ti_byte_size t then
                ''  '' @ pad_left 6 (print_unsigned total) @
                ''  '' @ pad_left 4 (print_unsigned (ti_byte_size t - total)) @
                ''  '' @ pad_left 15 ''<padding>'' @ ''  <tail padding>'' @ NEWLINE
              else []))"

section \<open>\<open>lookup\<close> and \<open>resolve\<close>\<close>

fun lookup_class :: "addr_class \<Rightarrow> string" where
  "lookup_class ADDR_GLOBAL = ''GLOBAL''"
| "lookup_class ADDR_HEAP = ''HEAP''"
| "lookup_class ADDR_STACK = ''STACK''"
| "lookup_class ADDR_UNKNOWN = ''??????''"

definition lookup_line :: "string \<Rightarrow> string \<Rightarrow> string \<Rightarrow> string \<Rightarrow> string \<Rightarrow> string" where
  "lookup_line a b c d e =
     pad_right 18 a @ ''  '' @ pad_right 6 b @ ''  '' @ pad_right 20 c @ ''  '' @ pad_right 30 d @ ''  '' @ e @ NEWLINE"

definition LOOKUP_HEADER :: string where
  "LOOKUP_HEADER =
     lookup_line ''ADDRESS'' ''REGION'' ''TYPE'' ''FIELD'' ''OFFSET'' @
     lookup_line (replicate 18 (CHR ''-'')) (replicate 6 (CHR ''-'')) (replicate 20 (CHR ''-''))
       (replicate 30 (CHR ''-'')) (replicate 6 (CHR ''-''))"

definition full_address :: "u64 \<Rightarrow> string" where
  "full_address a = ''0x'' @ pad_zero 16 (print_hex a)"

text \<open>\<open>field_desc\<close> and \<open>offset_desc\<close> are arrays of 256 and of 64 characters.\<close>

definition field_desc :: "resolved_field \<Rightarrow> string" where
  "field_desc f = take 255 (c_str (rf_type_name f) @ ''.'' @ c_str (rf_field_name f))"

definition offset_desc :: "resolved_field \<Rightarrow> string" where
  "offset_desc f = take 63
     (''+'' @ print_unsigned (rf_byte_offset f) @
      (if 0 < rf_byte_size f then
         '' ['' @ print_unsigned (rf_byte_size f) @ ''B '' @
         (if rf_field_type_name f = [] then ''?'' else c_str (rf_field_type_name f)) @ '']''
       else []))"

definition lookup_result :: "u64 \<Rightarrow> resolved_address option \<Rightarrow> string" where
  "lookup_result addr result =
     (case result of
        None \<Rightarrow> lookup_line (full_address addr) ''??????'' [] [] []
      | Some r \<Rightarrow>
          let line = lookup_line (full_address addr) (lookup_class (ra_class r)) (c_str (ra_type_name r))
          in if ra_fields r = [] then line [] []
             else concat (map (\<lambda>f. line (field_desc f) (offset_desc f)) (ra_fields r)))"

fun lookup_all :: "'a resolver_host \<Rightarrow> u64 list \<Rightarrow> resolver \<Rightarrow> (string \<times> resolver) option" where
  "lookup_all h [] rs = Some ([], rs)"
| "lookup_all h (addr # addrs) rs =
     (case resolve h addr 0 [] rs of
        None \<Rightarrow> None
      | Some (result, rs) \<Rightarrow>
          map_option (\<lambda>(out, rs). (lookup_result addr result @ out, rs)) (lookup_all h addrs rs))"

definition with_csv ::
  "(alloc_entry list \<Rightarrow> alloc_entry list) \<Rightarrow> string option \<Rightarrow> resolver \<Rightarrow> resolver" where
  "with_csv srt csv rs = (case csv of None \<Rightarrow> rs | Some file \<Rightarrow> set_allocs srt (load_csv file) rs)"

definition cmd_lookup ::
  "'a resolver_host \<Rightarrow> (alloc_entry list \<Rightarrow> alloc_entry list) \<Rightarrow> string option \<Rightarrow> u64 list \<Rightarrow> resolver \<Rightarrow>
     string option" where
  "cmd_lookup h srt csv addrs rs =
     map_option (\<lambda>(out, rs). LOOKUP_HEADER @ out) (lookup_all h addrs (with_csv srt csv rs))"

definition cmd_resolve ::
  "'a resolver_host \<Rightarrow> (alloc_entry list \<Rightarrow> alloc_entry list) \<Rightarrow> u64 \<Rightarrow> u32 \<Rightarrow> string option \<Rightarrow> resolver \<Rightarrow>
     string option" where
  "cmd_resolve h srt addr pid csv rs =
     map_option
       (\<lambda>(result, rs).
          (case result of
             Some r \<Rightarrow> c_str (resolved_to_string r)
           | None \<Rightarrow> ''Could not resolve address 0x'' @ print_hex addr) @ NEWLINE)
       (resolve h addr pid [] (with_csv srt csv rs))"

section \<open>\<open>batch\<close>\<close>

definition BATCH_HEADER :: string where
  "BATCH_HEADER =
     ''address,size,region,type,field,offset,size_bytes,field_type,infer_method,confidence'' @ NEWLINE"

text \<open>\<open>s.find(c, pos)\<close>.\<close>

definition find_char :: "char \<Rightarrow> nat \<Rightarrow> string \<Rightarrow> nat option" where
  "find_char c pos s =
     (if c \<in> set (drop pos s) then Some (pos + length (takeWhile (\<lambda>d. d \<noteq> c) (drop pos s))) else None)"

text \<open>The method and the confidence, cut out of the text that the resolver made of them.\<close>

definition split_callsite :: "string \<Rightarrow> string \<times> string" where
  "split_callsite s =
     (case find_char (CHR ''('') 0 s of
        None \<Rightarrow> (s, [])
      | Some paren \<Rightarrow>
          (case find_char (CHR '')'') paren s of
             None \<Rightarrow> (s, [])
           | Some fin \<Rightarrow>
               (if paren = 0 then s else take (paren - 1) s, take (fin - paren - 1) (drop (paren + 1) s))))"

text \<open>The lines of one entry, and whether it counts as matched.\<close>

definition batch_lines :: "analyzer \<Rightarrow> alloc_entry \<Rightarrow> resolved_address option \<Rightarrow> string list list \<times> bool" where
  "batch_lines an e result =
     (let addr = ''0x'' @ print_hex (ae_addr e); sz = print_unsigned (ae_size e)
      in case result of
           None \<Rightarrow> ([[addr, sz, ''UNKNOWN'', [], [], [], [], [], [], [], []]], False)
         | Some r \<Rightarrow>
             let cls = class_name (ra_class r);
                 (meth, conf) = (if ra_class r = ADDR_HEAP then split_callsite (ra_callsite r) else ([], []));
                 meth = c_str meth; conf = c_str conf; ty = c_str (ra_type_name r)
             in if ra_type_name r = [] then ([[addr, sz, cls, [], [], [], [], [], meth, conf]], False)
                else if ra_fields r = [] then
                  (case find_type_by_name an (ra_type_name r) of
                     None \<Rightarrow> [[addr, sz, cls, ty, [], [], [], [], meth, conf]]
                   | Some t \<Rightarrow>
                       if ti_fields t = [] then [[addr, sz, cls, ty, [], [], [], [], meth, conf]]
                       else map (\<lambda>f.
                         [''0x'' @ print_hex (ae_addr e + fi_byte_offset f), sz, cls, ty,
                          ty @ ''.'' @ c_str (fi_name f), print_unsigned (fi_byte_offset f),
                          print_unsigned (fi_byte_size f), c_str (fi_type_name f), meth, conf]) (ti_fields t),
                   True)
                else
                  (map (\<lambda>f.
                     [''0x'' @ print_hex (rf_resolved_address f), sz, cls, ty, c_str (rf_full_path f),
                      print_unsigned (rf_byte_offset f), print_unsigned (rf_byte_size f),
                      c_str (rf_field_type_name f), meth, conf]) (ra_fields r),
                   True))"

fun batch_all ::
  "'a resolver_host \<Rightarrow> alloc_entry list \<Rightarrow> resolver \<Rightarrow> (string list list \<times> nat \<times> resolver) option" where
  "batch_all h [] rs = Some ([], 0, rs)"
| "batch_all h (e # es) rs =
     (case resolve h (ae_addr e) (ae_pid e) [] rs of
        None \<Rightarrow> None
      | Some (result, rs) \<Rightarrow>
          (case batch_all h es rs of
             None \<Rightarrow> None
           | Some (rows, matched, rs') \<Rightarrow>
               let (row, hit) = batch_lines (rs_analyzer rs) e result
               in Some (row @ rows, (if hit then Suc matched else matched), rs')))"

text \<open>The exit code, the table and the pair \<open>(matched, total)\<close>, unless the output cannot be opened.\<close>

definition cmd_batch ::
  "'a resolver_host \<Rightarrow> (alloc_entry list \<Rightarrow> alloc_entry list) \<Rightarrow> bool \<Rightarrow> string \<Rightarrow> resolver \<Rightarrow>
     (int \<times> string \<times> nat \<times> nat) option" where
  "cmd_batch h srt can_write file rs =
     (let allocs = load_csv file
      in if \<not> can_write then Some (1, [], 0, 0)
         else map_option
                (\<lambda>(rows, matched, rs).
                   (0, BATCH_HEADER @ concat (map (\<lambda>row. commas row @ NEWLINE) rows), matched, length allocs))
                (batch_all h allocs (set_allocs srt allocs rs)))"

section \<open>Listings\<close>

definition name_matches :: "string \<Rightarrow> string \<Rightarrow> bool" where
  "name_matches pattern name \<longleftrightarrow> pattern = [] \<or> has_infix pattern name"

fun binding_name :: "binding \<Rightarrow> string" where
  "binding_name BIND_GLOBAL = ''GLOBAL''"
| "binding_name BIND_LOCAL = ''LOCAL''"
| "binding_name BIND_WEAK = ''WEAK''"

fun sym_type_name :: "sym_type \<Rightarrow> string" where
  "sym_type_name SYM_FUNC = ''FUNC''"
| "sym_type_name SYM_OBJECT = ''OBJECT''"
| "sym_type_name SYM_UNKNOWN = ''OTHER''"

definition symbol_line :: "symbol_info \<Rightarrow> string" where
  "symbol_line s =
     ''0x'' @ pad_right 16 (print_hex (sy_address s)) @ '' '' @ pad_right 8 (print_unsigned (sy_size s)) @ '' '' @
     pad_right 8 (binding_name (sy_binding s)) @ '' '' @ pad_right 12 (sym_type_name (sy_sym_type s)) @ '' '' @
     c_str (sy_name s) @ (if sy_type_name s = [] then [] else c_str ('' ['' @ sy_type_name s @ '']'')) @ NEWLINE"

definition cmd_symbols :: "analyzer \<Rightarrow> string \<Rightarrow> string" where
  "cmd_symbols an pattern =
     (let shown = filter (\<lambda>s. name_matches pattern (sy_name s)) (symbols an)
      in concat (map symbol_line shown) @ NEWLINE @ ''Total: '' @ to_string (length shown) @ '' symbols'' @ NEWLINE)"

definition tag_name :: "type_tag \<Rightarrow> string" where
  "tag_name t =
     (if t = TAG_STRUCT then ''struct'' else if t = TAG_UNION then ''union'' else if t = TAG_ENUM then ''enum''
      else if t = TAG_TYPEDEF then ''typedef'' else if t = TAG_BASE_TYPE then ''base'' else ''other'')"

definition type_line :: "type_info \<Rightarrow> string" where
  "type_line t =
     pad_right 8 (tag_name (ti_tag t)) @ '' '' @ pad_right 40 (c_str (ti_name t)) @ '' size='' @
     pad_right 6 (print_unsigned (ti_byte_size t)) @ '' fields='' @
     pad_right 4 (to_string (length (ti_fields t))) @ NEWLINE"

definition cmd_types :: "analyzer \<Rightarrow> string \<Rightarrow> string" where
  "cmd_types an pattern =
     (let shown = filter (\<lambda>t. name_matches pattern (ti_name t)) (types an)
      in concat (map type_line shown) @ NEWLINE @ ''Total: '' @ to_string (length shown) @ '' types'' @ NEWLINE)"

definition cmd_layout :: "analyzer \<Rightarrow> string \<Rightarrow> int \<times> string" where
  "cmd_layout an name =
     (if name = [] then (1, []) else (0, c_str (type_layout_to_string an name) @ NEWLINE))"

section \<open>The program\<close>

record cli_opts =
  co_binary :: string
  co_addrs :: "u64 list"
  co_type :: string
  co_filter :: string
  co_pid :: u32
  co_csv :: string
  co_output :: string

definition default_cli_opts :: cli_opts where
  "default_cli_opts =
     \<lparr>co_binary = [], co_addrs = [], co_type = [], co_filter = [], co_pid = 0, co_csv = [], co_output = []\<rparr>"

text \<open>The switch over what \<open>getopt\<close> returns; \<^const>\<open>Inl\<close> is an early return.\<close>

fun parse_cli_opts :: "(char \<times> string) list \<Rightarrow> cli_opts \<Rightarrow> int + cli_opts" where
  "parse_cli_opts [] opts = Inr opts"
| "parse_cli_opts ((c, arg) # rest) opts =
     (if c = CHR ''b'' then parse_cli_opts rest (opts\<lparr>co_binary := arg\<rparr>)
      else if c = CHR ''a'' then parse_cli_opts rest (opts\<lparr>co_addrs := co_addrs opts @ [parse_addr arg]\<rparr>)
      else if c = CHR ''t'' then parse_cli_opts rest (opts\<lparr>co_type := arg\<rparr>)
      else if c = CHR ''l'' then parse_cli_opts rest (opts\<lparr>co_type := arg\<rparr>)
      else if c = CHR ''p'' then parse_cli_opts rest (opts\<lparr>co_pid := atoi arg\<rparr>)
      else if c = CHR ''f'' then parse_cli_opts rest (opts\<lparr>co_csv := arg\<rparr>)
      else if c = CHR ''o'' then parse_cli_opts rest (opts\<lparr>co_output := arg\<rparr>)
      else if c = CHR ''n'' then parse_cli_opts rest (opts\<lparr>co_filter := arg\<rparr>)
      else if c = CHR ''h'' then Inl 0
      else Inl 1)"

text \<open>What the program meets: the sorts, the files, and what it may write.\<close>

record 'a cli_host =
  ch_symbol_sort :: "symbol_info list \<Rightarrow> symbol_info list"
  ch_entry_sort :: "alloc_entry list \<Rightarrow> alloc_entry list"
  ch_binary :: "string \<Rightarrow> (elf \<times> 'a libdw) option"
  ch_text :: text_host
  ch_file :: "string \<Rightarrow> string option"
  ch_can_write :: "string \<Rightarrow> bool"

text \<open>What the resolver of a binary that could be loaded sees; the program does not set a stack map.\<close>

definition cli_resolver_host :: "'a cli_host \<Rightarrow> string \<Rightarrow> 'a resolver_host option" where
  "cli_resolver_host ch path =
     map_option (\<lambda>(_, dw). \<lparr>rh_dw = dw, rh_text = ch_text ch, rh_stack = (\<lambda>_. None)\<rparr>) (ch_binary ch path)"

text \<open>The exit code, the standard output and the file that was written.\<close>

type_synonym cli_result = "int \<times> string \<times> (string \<times> string) option"

definition csv_content :: "'a cli_host \<Rightarrow> string \<Rightarrow> string" where
  "csv_content ch path = (case ch_file ch path of None \<Rightarrow> [] | Some s \<Rightarrow> s)"

definition csv_option :: "'a cli_host \<Rightarrow> string \<Rightarrow> string option" where
  "csv_option ch path = (if path = [] then None else Some (csv_content ch path))"

definition run_command :: "'a cli_host \<Rightarrow> string \<Rightarrow> cli_opts \<Rightarrow> analyzer \<Rightarrow> cli_result option" where
  "run_command ch cmd opts an =
     (let load = (\<lambda>run. Option.bind (cli_resolver_host ch (co_binary opts)) (\<lambda>h.
            Option.bind (resolver_load_binary (ch_symbol_sort ch) (ch_binary ch) (co_binary opts) new_resolver)
              (\<lambda>(_, rs). run h rs)));
          failed = Some (1, [], None)
      in if cmd = ''lookup'' then
           if co_addrs opts = [] then failed
           else load (\<lambda>h rs.
             map_option (\<lambda>out. (0, out, None))
               (cmd_lookup h (ch_entry_sort ch) (csv_option ch (co_csv opts)) (co_addrs opts) rs))
         else if cmd = ''batch'' then
           if co_csv opts = [] then failed
           else load (\<lambda>h rs.
             map_option
               (\<lambda>(rc, out, _).
                  if rc \<noteq> 0 then (rc, [], None)
                  else if co_output opts = [] then (rc, out, None) else (rc, [], Some (co_output opts, out)))
               (cmd_batch h (ch_entry_sort ch) (co_output opts = [] \<or> ch_can_write ch (co_output opts))
                  (csv_content ch (co_csv opts)) rs))
         else if cmd = ''resolve'' then
           if co_addrs opts = [] then failed
           else load (\<lambda>h rs.
             map_option (\<lambda>out. (0, out, None))
               (cmd_resolve h (ch_entry_sort ch) (hd (co_addrs opts)) (co_pid opts)
                  (csv_option ch (co_csv opts)) rs))
         else if cmd = ''layout'' then (case cmd_layout an (co_type opts) of (rc, out) \<Rightarrow> Some (rc, out, None))
         else if cmd = ''symbols'' then Some (0, cmd_symbols an (co_filter opts), None)
         else if cmd = ''types'' then Some (0, cmd_types an (co_filter opts), None)
         else failed)"

definition resolver_main :: "'a cli_host \<Rightarrow> (string \<times> (char \<times> string) list) option \<Rightarrow> cli_result option" where
  "resolver_main ch argv =
     (case argv of
        None \<Rightarrow> Some (1, [], None)
      | Some (cmd, args) \<Rightarrow>
          (case parse_cli_opts args default_cli_opts of
             Inl code \<Rightarrow> Some (code, [], None)
           | Inr opts \<Rightarrow>
               if co_binary opts = [] then Some (1, [], None)
               else case load_binary (ch_symbol_sort ch) (ch_binary ch) (co_binary opts) empty_analyzer of
                 None \<Rightarrow> None
               | Some (rc, an) \<Rightarrow>
                   if rc \<noteq> 0 then Some (1, [], None) else run_command ch cmd opts an))"

end
