(* ===== verification/Source_Text_Correct.thy ===== *)
theory Source_Text_Correct
  imports Source_Text "HOL-Library.Sublist"
begin

text \<open>
  What the regular expressions extract: every type is a trimmed part of the line, and a cast before
  an allocation is found whatever the white space. The cache of source files is invisible.
\<close>

section \<open>Matching\<close>

text \<open>The groups after a run of characters.\<close>

lemma fold_feed: "fold (feed opn) xs m g = (if g \<in> set opn then m g @ xs else m g)"
  by (induction xs arbitrary: m) (auto simp: feed_def)

lemma feed_Nil [simp]: "feed [] c m = m"
  by (simp add: feed_def)

lemma fold_feed_Nil [simp]: "fold (feed []) xs m = m"
  by (rule ext) (simp add: fold_feed)

text \<open>A greedy repetition takes a maximal run when the rest matches after it.\<close>

lemma match_star_run:
  assumes "\<forall>c \<in> set xs. in_class k c" and "s = [] \<or> \<not> in_class k (hd s)"
    and "match_here ps s opn (fold (feed opn) xs m) = Some r"
  shows "match_here (Star k # ps) (xs @ s) opn m = Some r"
  using assms
proof (induction xs arbitrary: m)
  case Nil
  then show ?case by (cases s) auto
next
  case (Cons x xs)
  then show ?case by simp
qed

lemma match_literal:
  "match_here (map (\<lambda>c. One (Atom (Is c))) w @ ps) (w @ s) opn m = match_here ps s opn (fold (feed opn) w m)"
  by (induction w arbitrary: m) simp_all

text \<open>A group only ever holds a part of the text.\<close>

definition groups_in :: "string \<Rightarrow> string \<Rightarrow> nat list \<Rightarrow> (nat \<Rightarrow> string) \<Rightarrow> bool" where
  "groups_in line bef opn m \<longleftrightarrow>
     (\<forall>g. sublist (m g) line) \<and> (\<forall>g \<in> set opn. suffix (m g) bef)"

lemma groups_in_feed:
  assumes "groups_in line bef opn m" and "line = bef @ c # s"
  shows "groups_in line (bef @ [c]) opn (feed opn c m)"
proof -
  have "sublist (x @ [c]) line" if "suffix x bef" for x
    using that assms(2) by (fastforce simp: suffix_def sublist_def)
  with assms(1) show ?thesis by (auto simp: groups_in_def feed_def suffix_def)
qed

lemma match_here_groups:
  "match_here ps s opn m = Some r \<Longrightarrow> groups_in line bef opn m \<Longrightarrow> line = bef @ s \<Longrightarrow> sublist (r g) line"
proof (induction ps s opn m arbitrary: bef r rule: match_here.induct)
  case (1 s opn m)
  then show ?case by (simp add: groups_in_def)
next
  case (2 g' ps s opn m)
  have "groups_in line bef (g' # opn) (m(g' := []))"
    using "2.prems"(2) by (auto simp: groups_in_def)
  then show ?case
    by (rule "2.IH" [rotated]) (use "2.prems" in \<open>simp_all only: match_here.simps\<close>)
next
  case (3 g' ps s opn m)
  have "groups_in line bef (removeAll g' opn) m"
    using "3.prems"(2) by (auto simp: groups_in_def)
  with 3 show ?case by simp
next
  case (4 k ps opn m)
  then show ?case by simp
next
  case (5 k ps c s opn m)
  have "groups_in line (bef @ [c]) opn (feed opn c m)"
    using "5.prems" groups_in_feed by blast
  with 5 show ?case by (auto split: if_splits)
next
  case (6 k ps opn m)
  then show ?case by simp
next
  case (7 k ps c s opn m)
  have "groups_in line (bef @ [c]) opn (feed opn c m)"
    using "7.prems" groups_in_feed by blast
  with 7 show ?case by (auto split: if_splits option.splits)
qed

lemma regex_search_groups: "regex_search ps s = Some r \<Longrightarrow> sublist (r g) s"
proof (induction ps s rule: regex_search.induct)
  case (1 ps)
  then show ?case
    using match_here_groups [of ps "[]" "[]" "\<lambda>_. []" r "[]" "[]" g] by (simp add: groups_in_def)
next
  case (2 ps c s)
  show ?case
  proof (cases "match_here ps (c # s) [] (\<lambda>_. [])")
    case None
    with 2 have "sublist (r g) s" by simp
    then show ?thesis by (simp add: sublist_Cons_right)
  next
    case (Some m)
    with "2.prems" have "match_here ps (c # s) [] (\<lambda>_. []) = Some r" by simp
    then show ?thesis
      using match_here_groups [of ps "c # s" "[]" "\<lambda>_. []" r "c # s" "[]" g] by (simp add: groups_in_def)
  qed
qed

section \<open>What is extracted\<close>

lemma sublist_trim: "sublist (trim t) t"
  unfolding trim_def
  by (metis sublist_rev rev_rev_ident sublist_dropWhile sublist_order.order_trans)

lemma type_in_sound:
  assumes "type_in line p = Some t"
  shows "t \<noteq> [] \<and> t \<noteq> ''void'' \<and> sublist t line \<and> \<not> blank (hd t) \<and> \<not> blank (last t)"
proof -
  obtain m where m: "regex_search (regex p) line = Some m" "t = trim (m 1)" "t \<noteq> []" "t \<noteq> ''void''"
    using assms by (auto simp: type_in_def Let_def split: option.splits if_splits)
  have "sublist t line"
    using sublist_trim regex_search_groups [OF m(1)] unfolding m(2) by (rule sublist_order.order_trans)
  moreover have "\<not> blank (last t)"
    using m(2,3) by (simp add: trim_def last_rev hd_dropWhile)
  moreover have "\<not> blank (hd t)"
  proof -
    obtain zs where "dropWhile blank (m 1) = t @ zs"
      using m(2) by (metis trim_def rev_append rev_rev_ident takeWhile_dropWhile_id)
    with m(3) show ?thesis by (metis append_is_Nil_conv hd_append2 hd_dropWhile)
  qed
  ultimately show ?thesis using m by simp
qed

text \<open>In order and without repetition, each a part of the line, not empty, not \<open>void\<close>, and trimmed.\<close>

definition line_types :: "string \<Rightarrow> string list \<Rightarrow> bool" where
  "line_types line ts \<longleftrightarrow>
     sorted ts \<and> distinct ts \<and>
     (\<forall>t \<in> set ts. t \<noteq> [] \<and> t \<noteq> ''void'' \<and> sublist t line \<and> \<not> blank (hd t) \<and> \<not> blank (last t))"

lemma types_in_set: "set (types_in ps line) = {t. \<exists>p \<in> set ps. type_in line p = Some t}"
  by (force simp: types_in_def map_filter_def)

lemma types_in_intro: "type_in line p = Some t \<Longrightarrow> p \<in> set ps \<Longrightarrow> t \<in> set (types_in ps line)"
  by (auto simp: types_in_set)

lemma types_in_line: "line_types line (types_in ps line)"
proof -
  have "sorted (types_in ps line) \<and> distinct (types_in ps line)"
    by (simp add: types_in_def sorted_unique sorted_unique_distinct)
  then show ?thesis
    using type_in_sound [of line] by (auto simp: line_types_def types_in_set)
qed

text \<open>
  C37: The lists that the three functions return are in order and without repetition; each element is a part
  of the line that is not empty, not \<open>void\<close>, and has no white space around it.
\<close>

theorem extracted_types_are_in_line:
  "line_types line (extract_malloc_types line) \<and> line_types line (extract_calloc_types line) \<and>
   line_types line (extract_realloc_types line)"
  by (simp add: extract_malloc_types_def extract_calloc_types_def extract_realloc_types_def types_in_line)

section \<open>Casts\<close>

text \<open>The assignment of a cast allocation, with any white space where the patterns allow it.\<close>

definition cast_line :: "string \<Rightarrow> string list \<Rightarrow> string \<Rightarrow> string \<Rightarrow> string \<Rightarrow> string" where
  "cast_line bef ws ty f aft =
     bef @ CHR ''='' # ws ! 0 @ CHR ''('' # ws ! 1 @ ty @ ws ! 2 @ CHR ''*'' # ws ! 3 @ CHR '')'' #
     ws ! 4 @ f @ ws ! 5 @ CHR ''('' # aft"

definition white_list :: "string list \<Rightarrow> bool" where
  "white_list ws \<longleftrightarrow> length ws = 6 \<and> (\<forall>w \<in> set ws. \<forall>c \<in> set w. is_space c)"

definition type_word :: "string \<Rightarrow> bool" where
  "type_word ty \<longleftrightarrow> ty \<noteq> [] \<and> ty \<noteq> ''void'' \<and> (\<forall>c \<in> set ty. c \<noteq> CHR ''*'' \<and> \<not> is_space c)"

abbreviation "lits w \<equiv> map (\<lambda>c. One (Atom (Is c))) w"

abbreviation "white \<equiv> Star (Atom White)"

abbreviation "name_class \<equiv> Except [Is CHR ''*'', White]"

definition cast_tail :: "string \<Rightarrow> re_item list" where
  "cast_tail f =
     [Open 1, One name_class, Star name_class, Close 1, white, One (Atom (Is CHR ''*'')), white,
      One (Atom (Is CHR '')'')), white] @ lits f @ [white, One (Atom (Is CHR ''(''))]"

lemma cast_regex:
  "regex (MALLOC_PATTERNS ! 0) =
     [One (Atom (Is CHR ''='')), white, One (Atom (Is CHR ''('')), white] @ cast_tail ''malloc''"
  "regex (CALLOC_PATTERNS ! 0) =
     [One (Atom (Is CHR ''='')), white, One (Atom (Is CHR ''('')), white] @ cast_tail ''calloc''"
  "regex (REALLOC_PATTERNS ! 0) =
     [One (Atom (Is CHR ''='')), white, One (Atom (Is CHR ''('')), white] @ cast_tail ''realloc''"
  "regex (MALLOC_PATTERNS ! 1) =
     [One (Atom (Is CHR ''='')), white, One (Atom (Is CHR ''('')), white] @ lits ''struct'' @
     [One (Atom White), white] @ cast_tail ''malloc''"
  "regex (CALLOC_PATTERNS ! 1) =
     [One (Atom (Is CHR ''='')), white, One (Atom (Is CHR ''('')), white] @ lits ''struct'' @
     [One (Atom White), white] @ cast_tail ''calloc''"
  "regex (REALLOC_PATTERNS ! 1) =
     [One (Atom (Is CHR ''='')), white, One (Atom (Is CHR ''('')), white] @ lits ''struct'' @
     [One (Atom White), white] @ cast_tail ''realloc''"
  by code_simp+

lemma match_white_run:
  assumes "\<forall>c \<in> set w. is_space c" and "\<not> is_space c"
    and "match_here ps (c # s) opn (fold (feed opn) w m) = Some r"
  shows "match_here (white # ps) (w @ c # s) opn m = Some r"
  using assms by (intro match_star_run) auto

lemma match_cast_tail:
  assumes ty: "type_word ty" and f: "f \<noteq> []" "\<not> is_space (hd f)"
    and w: "\<forall>c \<in> set w2. is_space c" "\<forall>c \<in> set w3. is_space c" "\<forall>c \<in> set w4. is_space c" "\<forall>c \<in> set w5. is_space c"
  shows "match_here (cast_tail f)
     (ty @ w2 @ CHR ''*'' # w3 @ CHR '')'' # w4 @ f @ w5 @ CHR ''('' # aft) [] m = Some (m(1 := ty))"
proof -
  obtain t ts where t: "ty = t # ts" using ty by (cases ty) (auto simp: type_word_def)
  obtain g fs where g: "f = g # fs" using f(1) by (cases f) auto
  have plain: "\<not> is_space CHR ''*''" "\<not> is_space CHR '')''" "\<not> is_space CHR ''(''"
    by (simp_all add: is_space_def)
  let ?m = "m(1 := ty)"
  have fd: "fold (feed [1]) ts (feed [1] t (m(1 := []))) = ?m"
    by (rule ext) (auto simp: fold_feed feed_def t)
  have "match_here [white, One (Atom (Is CHR ''(''))] (w5 @ CHR ''('' # aft) [] ?m = Some ?m"
    using w(4) plain(3) by (intro match_white_run) simp_all
  then have "match_here (lits f @ [white, One (Atom (Is CHR ''(''))]) (f @ w5 @ CHR ''('' # aft) [] ?m = Some ?m"
    by (simp add: match_literal)
  then have "match_here (white # lits f @ [white, One (Atom (Is CHR ''(''))]) (w4 @ f @ w5 @ CHR ''('' # aft) [] ?m = Some ?m"
    using w(3) f(2) match_white_run [of w4 g _ "fs @ w5 @ CHR ''('' # aft"] by (simp add: g)
  then have "match_here (One (Atom (Is CHR '')'')) # white # lits f @ [white, One (Atom (Is CHR ''(''))])
      (CHR '')'' # w4 @ f @ w5 @ CHR ''('' # aft) [] ?m = Some ?m"
    by simp
  then have "match_here (white # One (Atom (Is CHR '')'')) # white # lits f @ [white, One (Atom (Is CHR ''(''))])
      (w3 @ CHR '')'' # w4 @ f @ w5 @ CHR ''('' # aft) [] ?m = Some ?m"
    using w(2) plain(2) by (intro match_white_run) simp_all
  then have "match_here (One (Atom (Is CHR ''*'')) # white # One (Atom (Is CHR '')'')) # white # lits f @
        [white, One (Atom (Is CHR ''(''))])
      (CHR ''*'' # w3 @ CHR '')'' # w4 @ f @ w5 @ CHR ''('' # aft) [] ?m = Some ?m"
    by simp
  then have "match_here (white # One (Atom (Is CHR ''*'')) # white # One (Atom (Is CHR '')'')) # white # lits f @
        [white, One (Atom (Is CHR ''(''))])
      (w2 @ CHR ''*'' # w3 @ CHR '')'' # w4 @ f @ w5 @ CHR ''('' # aft) [] ?m = Some ?m"
    using w(1) plain(1) by (intro match_white_run) simp_all
  then have close: "match_here (Close 1 # white # One (Atom (Is CHR ''*'')) # white #
        One (Atom (Is CHR '')'')) # white # lits f @ [white, One (Atom (Is CHR ''(''))])
      (w2 @ CHR ''*'' # w3 @ CHR '')'' # w4 @ f @ w5 @ CHR ''('' # aft) [1]
      (fold (feed [1]) ts (feed [1] t (m(1 := [])))) = Some ?m"
    unfolding fd by simp
  have stop: "\<not> in_class name_class (hd (w2 @ CHR ''*'' # s))" for s
    using w(1) by (cases w2) simp_all
  have run: "\<forall>c \<in> set ts. in_class name_class c"
    using ty by (simp add: t type_word_def)
  have "match_here (Star name_class # Close 1 # white # One (Atom (Is CHR ''*'')) # white #
        One (Atom (Is CHR '')'')) # white # lits f @ [white, One (Atom (Is CHR ''(''))])
      (ts @ w2 @ CHR ''*'' # w3 @ CHR '')'' # w4 @ f @ w5 @ CHR ''('' # aft) [1] (feed [1] t (m(1 := []))) = Some ?m"
    by (rule match_star_run [OF run disjI2 [OF stop] close])
  then show ?thesis
    using ty by (simp add: cast_tail_def t type_word_def)
qed

lemma regex_search_skip:
  assumes "c \<notin> set bef"
  shows "regex_search (One (Atom (Is c)) # ps) (bef @ s) = regex_search (One (Atom (Is c)) # ps) s"
  using assms by (induction bef) auto

lemma regex_search_here: "match_here ps s [] (\<lambda>_. []) = Some m \<Longrightarrow> regex_search ps s = Some m"
  by (cases s) simp_all

lemma trim_word: "type_word ty \<Longrightarrow> trim ty = ty"
proof -
  assume a: "type_word ty"
  then have "\<not> blank c" if "c \<in> set ty" for c
    using that by (auto simp: type_word_def blank_def is_space_def)
  moreover have "ty \<noteq> []" using a by (simp add: type_word_def)
  ultimately have "dropWhile blank ty = ty" "dropWhile blank (rev ty) = rev ty"
    by (simp_all add: dropWhile_eq_self_iff hd_rev)
  then show ?thesis by (simp add: trim_def)
qed

lemma white_list_nth: "white_list ws \<Longrightarrow> i < 6 \<Longrightarrow> \<forall>c \<in> set (ws ! i). is_space c"
  unfolding white_list_def by (metis nth_mem)

lemma search_cast:
  assumes ws: "white_list ws" and eq: "CHR ''='' \<notin> set bef"
    and tail: "match_here ps (ty @ ws ! 2 @ CHR ''*'' # ws ! 3 @ CHR '')'' # ws ! 4 @ f @ ws ! 5 @ CHR ''('' # aft)
        [] (\<lambda>_. []) = Some m"
    and ty: "ty \<noteq> []" "\<not> is_space (hd ty)"
  shows "regex_search ([One (Atom (Is CHR ''='')), white, One (Atom (Is CHR ''('')), white] @ ps)
     (cast_line bef ws ty f aft) = Some m"
proof -
  obtain t ts where t: "ty = t # ts" using ty(1) by (cases ty) auto
  have "match_here (white # ps)
      (ws ! 1 @ ty @ ws ! 2 @ CHR ''*'' # ws ! 3 @ CHR '')'' # ws ! 4 @ f @ ws ! 5 @ CHR ''('' # aft) [] (\<lambda>_. []) = Some m"
    using tail ty(2) match_white_run [OF white_list_nth [OF ws, of 1]] by (simp add: t)
  then have "match_here (white # One (Atom (Is CHR ''('')) # white # ps)
      (ws ! 0 @ CHR ''('' # ws ! 1 @ ty @ ws ! 2 @ CHR ''*'' # ws ! 3 @ CHR '')'' # ws ! 4 @ f @ ws ! 5 @ CHR ''('' # aft)
      [] (\<lambda>_. []) = Some m"
    using match_white_run [OF white_list_nth [OF ws, of 0], where c = "CHR ''(''"] by (simp add: is_space_def)
  then show ?thesis
    using eq by (simp add: cast_line_def regex_search_skip)
qed

lemma cast_found:
  assumes ws: "white_list ws" and eq: "CHR ''='' \<notin> set bef" and ty: "type_word ty"
    and f: "f \<noteq> []" "\<not> is_space (hd f)"
    and r: "regex p = [One (Atom (Is CHR ''='')), white, One (Atom (Is CHR ''('')), white] @ cast_tail f"
  shows "type_in (cast_line bef ws ty f aft) p = Some ty"
proof -
  have "\<not> is_space (hd ty)" "ty \<noteq> []" using ty by (auto simp: type_word_def)
  moreover have "match_here (cast_tail f)
      (ty @ ws ! 2 @ CHR ''*'' # ws ! 3 @ CHR '')'' # ws ! 4 @ f @ ws ! 5 @ CHR ''('' # aft) [] (\<lambda>_. []) =
      Some ((\<lambda>_. [])(1 := ty))"
    by (intro match_cast_tail ty f white_list_nth [OF ws]) simp_all
  ultimately have "regex_search (regex p) (cast_line bef ws ty f aft) = Some ((\<lambda>_. [])(1 := ty))"
    unfolding r by (intro search_cast [OF ws eq])
  then show ?thesis using ty by (simp add: type_in_def trim_word) (simp add: type_word_def)
qed

lemma struct_cast_found:
  assumes ws: "white_list ws" and eq: "CHR ''='' \<notin> set bef" and ty: "type_word ty"
    and f: "f \<noteq> []" "\<not> is_space (hd f)" and w: "w \<noteq> []" "\<forall>c \<in> set w. is_space c"
    and r: "regex p = [One (Atom (Is CHR ''='')), white, One (Atom (Is CHR ''('')), white] @ lits ''struct'' @
      [One (Atom White), white] @ cast_tail f"
  shows "type_in (cast_line bef ws (''struct'' @ w @ ty) f aft) p = Some ty"
proof -
  obtain x xs where x: "w = x # xs" using w(1) by (cases w) auto
  obtain t ts where t: "ty = t # ts" "\<not> is_space t" using ty by (cases ty) (auto simp: type_word_def)
  have "match_here (cast_tail f)
      (ty @ ws ! 2 @ CHR ''*'' # ws ! 3 @ CHR '')'' # ws ! 4 @ f @ ws ! 5 @ CHR ''('' # aft) [] (\<lambda>_. []) =
      Some ((\<lambda>_. [])(1 := ty))"
    by (intro match_cast_tail ty f white_list_nth [OF ws]) simp_all
  then have "match_here ([One (Atom White), white] @ cast_tail f)
      (w @ ty @ ws ! 2 @ CHR ''*'' # ws ! 3 @ CHR '')'' # ws ! 4 @ f @ ws ! 5 @ CHR ''('' # aft) [] (\<lambda>_. []) =
      Some ((\<lambda>_. [])(1 := ty))"
    using w match_white_run [of xs t] t by (simp add: x)
  then have "match_here (lits ''struct'' @ [One (Atom White), white] @ cast_tail f)
      (''struct'' @ w @ ty @ ws ! 2 @ CHR ''*'' # ws ! 3 @ CHR '')'' # ws ! 4 @ f @ ws ! 5 @ CHR ''('' # aft) [] (\<lambda>_. []) =
      Some ((\<lambda>_. [])(1 := ty))"
    by (simp only: match_literal fold_feed_Nil)
  then have "regex_search (regex p) (cast_line bef ws (''struct'' @ w @ ty) f aft) = Some ((\<lambda>_. [])(1 := ty))"
    unfolding r by (intro search_cast [OF ws eq]) (simp_all add: is_space_def)
  then show ?thesis using ty by (simp add: type_in_def trim_word) (simp add: type_word_def)
qed

text \<open>
  C38: In \<open>... = (T *)malloc(...\<close>, and likewise with \<open>calloc\<close> and \<open>realloc\<close>, where the cast follows the first
  \<open>=\<close> of the line and \<open>T\<close> is one word other than \<open>void\<close>, with or without \<open>struct\<close> before it and with one
  star, \<open>T\<close> is among the extracted types, whatever the white space, whatever stands before the
  assignment and whatever follows the opening parenthesis.
\<close>

theorem cast_types_are_extracted:
  assumes "white_list ws" and "CHR ''='' \<notin> set bef" and "type_word ty"
    and "sep \<noteq> []" and "\<forall>c \<in> set sep. is_space c"
  shows "ty \<in> set (extract_malloc_types (cast_line bef ws ty ''malloc'' aft)) \<and>
    ty \<in> set (extract_malloc_types (cast_line bef ws (''struct'' @ sep @ ty) ''malloc'' aft)) \<and>
    ty \<in> set (extract_calloc_types (cast_line bef ws ty ''calloc'' aft)) \<and>
    ty \<in> set (extract_calloc_types (cast_line bef ws (''struct'' @ sep @ ty) ''calloc'' aft)) \<and>
    ty \<in> set (extract_realloc_types (cast_line bef ws ty ''realloc'' aft)) \<and>
    ty \<in> set (extract_realloc_types (cast_line bef ws (''struct'' @ sep @ ty) ''realloc'' aft))"
proof -
  have sp: "\<not> is_space (hd ''malloc'')" "\<not> is_space (hd ''calloc'')" "\<not> is_space (hd ''realloc'')"
    by (simp_all add: is_space_def)
  have len: "i < 2 \<Longrightarrow> MALLOC_PATTERNS ! i \<in> set MALLOC_PATTERNS"
    "i < 2 \<Longrightarrow> CALLOC_PATTERNS ! i \<in> set CALLOC_PATTERNS"
    "i < 2 \<Longrightarrow> REALLOC_PATTERNS ! i \<in> set REALLOC_PATTERNS" for i
    by (rule nth_mem; simp add: MALLOC_PATTERNS_def CALLOC_PATTERNS_def REALLOC_PATTERNS_def)+
  note plain = cast_found [OF assms(1-3)] and tagged = struct_cast_found [OF assms(1-3) _ _ assms(4,5)]
  note hits =
    plain [OF _ sp(1) cast_regex(1)] plain [OF _ sp(2) cast_regex(2)] plain [OF _ sp(3) cast_regex(3)]
    tagged [OF _ sp(1) cast_regex(4)] tagged [OF _ sp(2) cast_regex(5)] tagged [OF _ sp(3) cast_regex(6)]
  show ?thesis
    unfolding extract_malloc_types_def extract_calloc_types_def extract_realloc_types_def
    by (intro conjI types_in_intro [OF hits(1)] types_in_intro [OF hits(2)] types_in_intro [OF hits(3)]
        types_in_intro [OF hits(4)] types_in_intro [OF hits(5)] types_in_intro [OF hits(6)] len) simp_all
qed

theorem cast_types_are_extracted_witness:
  "''node'' \<in> set (extract_malloc_types ''p = ( struct node *)malloc(n);'')"
proof -
  have "cast_line ''p '' ['' '', '' '', '' '', [], [], []] (''struct'' @ '' '' @ ''node'') ''malloc'' ''n);'' =
      ''p = ( struct node *)malloc(n);''"
    by (simp add: cast_line_def)
  moreover have "type_word ''node''" "white_list ['' '', '' '', '' '', [], [], []]"
    by (simp_all add: type_word_def white_list_def is_space_def)
  ultimately show ?thesis
    using cast_types_are_extracted [of "['' '', '' '', '' '', [], [], []]" "''p ''" "''node''" "'' ''" "''n);''"]
    by (simp add: is_space_def)
qed

section \<open>The operand of sizeof\<close>

text \<open>A pattern with a literal character only matches a text that has it.\<close>

lemma match_needs_char:
  "match_here ps s opn m = Some r \<Longrightarrow> One (Atom (Is c)) \<in> set ps \<Longrightarrow> c \<in> set s"
  by (induction ps s opn m arbitrary: r rule: match_here.induct) (auto split: if_splits option.splits)

lemma match_without_char: "One (Atom (Is c)) \<in> set ps \<Longrightarrow> c \<notin> set s \<Longrightarrow> match_here ps s opn m = None"
  by (metis match_needs_char option.exhaust)

lemma search_needs_char:
  "One (Atom (Is c)) \<in> set ps \<Longrightarrow> c \<notin> set s \<Longrightarrow> regex_search ps s = None"
  by (induction ps s rule: regex_search.induct) (auto simp: match_without_char)

lemma type_in_needs_char:
  "One (Atom (Is c)) \<in> set (regex p) \<Longrightarrow> c \<notin> set line \<Longrightarrow> type_in line p = None"
  by (simp add: type_in_def search_needs_char)

lemma star_patterns:
  "i \<in> {0, 1, 2, 3, 6, 7, 8, 9} \<Longrightarrow> One (Atom (Is CHR ''*'')) \<in> set (regex (MALLOC_PATTERNS ! i))"
  "i < 4 \<Longrightarrow> One (Atom (Is CHR ''*'')) \<in> set (regex (CALLOC_PATTERNS ! i))"
  "i < 4 \<Longrightarrow> One (Atom (Is CHR ''*'')) \<in> set (regex (REALLOC_PATTERNS ! i))"
  "i \<in> {4, 5} \<Longrightarrow> One (Atom (Is CHR '','')) \<in> set (regex (CALLOC_PATTERNS ! i))"
  "i \<in> {4, 5} \<Longrightarrow> One (Atom (Is CHR '','')) \<in> set (regex (REALLOC_PATTERNS ! i))"
proof -
  have "list_all (\<lambda>i. One (Atom (Is CHR ''*'')) \<in> set (regex (MALLOC_PATTERNS ! i))) [0, 1, 2, 3, 6, 7, 8, 9]"
    by code_simp
  then show "i \<in> {0, 1, 2, 3, 6, 7, 8, 9} \<Longrightarrow> One (Atom (Is CHR ''*'')) \<in> set (regex (MALLOC_PATTERNS ! i))"
    by auto
  have "list_all (\<lambda>i. One (Atom (Is CHR ''*'')) \<in> set (regex (CALLOC_PATTERNS ! i)) \<and>
      One (Atom (Is CHR ''*'')) \<in> set (regex (REALLOC_PATTERNS ! i))) [0..<4]"
    by code_simp
  then show "i < 4 \<Longrightarrow> One (Atom (Is CHR ''*'')) \<in> set (regex (CALLOC_PATTERNS ! i))"
    "i < 4 \<Longrightarrow> One (Atom (Is CHR ''*'')) \<in> set (regex (REALLOC_PATTERNS ! i))"
    unfolding list_all_iff by auto
  have "list_all (\<lambda>i. One (Atom (Is CHR '','')) \<in> set (regex (CALLOC_PATTERNS ! i)) \<and>
      One (Atom (Is CHR '','')) \<in> set (regex (REALLOC_PATTERNS ! i))) [4, 5]"
    by code_simp
  then show "i \<in> {4, 5} \<Longrightarrow> One (Atom (Is CHR '','')) \<in> set (regex (CALLOC_PATTERNS ! i))"
    "i \<in> {4, 5} \<Longrightarrow> One (Atom (Is CHR '','')) \<in> set (regex (REALLOC_PATTERNS ! i))"
    by auto
qed

definition sizeof_tail :: "re_item list" where
  "sizeof_tail =
     [Open 1, One (Except [Is CHR '')'']), Star (Except [Is CHR '')'']), Close 1, white,
      One (Atom (Is CHR '')'')), white, One (Atom (Is CHR '')''))]"

lemma sizeof_regex:
  "regex (MALLOC_PATTERNS ! 4) =
     lits ''malloc'' @ white # lits ''('' @ white # lits ''sizeof'' @ white # lits ''('' @ white # sizeof_tail"
  "regex (MALLOC_PATTERNS ! 5) =
     lits ''malloc'' @ white # lits ''('' @ white # lits ''sizeof'' @ white # lits ''('' @ white #
     lits ''struct'' @ [One (Atom White), white] @ sizeof_tail"
  by code_simp+

lemma match_sizeof_tail:
  assumes "ty \<noteq> []" and "CHR '')'' \<notin> set ty"
  shows "match_here sizeof_tail (ty @ ''))'' @ aft) [] m = Some (m(1 := ty))"
proof -
  obtain t ts where t: "ty = t # ts" using assms(1) by (cases ty) auto
  have fd: "fold (feed [1]) ts (feed [1] t (m(1 := []))) = m(1 := ty)"
    by (rule ext) (auto simp: fold_feed feed_def t)
  have close: "match_here [Close 1, white, One (Atom (Is CHR '')'')), white, One (Atom (Is CHR '')''))]
      (''))'' @ aft) [1] (fold (feed [1]) ts (feed [1] t (m(1 := [])))) = Some (m(1 := ty))"
    unfolding fd by (simp add: is_space_def)
  have run: "\<forall>c \<in> set ts. in_class (Except [Is CHR '')'']) c"
    using assms(2) by (auto simp: t)
  have stop: "\<not> in_class (Except [Is CHR '')'']) (hd (''))'' @ aft))" by simp
  have "match_here [Star (Except [Is CHR '')'']), Close 1, white, One (Atom (Is CHR '')'')), white,
      One (Atom (Is CHR '')''))] (ts @ ''))'' @ aft) [1] (feed [1] t (m(1 := []))) = Some (m(1 := ty))"
    by (rule match_star_run [OF run disjI2 [OF stop] close])
  then show ?thesis using assms(2) by (auto simp: sizeof_tail_def t)
qed

lemma match_white_none: "\<not> is_space c \<Longrightarrow> match_here (white # ps) (c # s) opn m = match_here ps (c # s) opn m"
  by simp

lemma sizeof_found:
  assumes "ty \<noteq> []" and "CHR '')'' \<notin> set ty" and "\<not> is_space (hd ty)" and "CHR ''m'' \<notin> set bef"
  shows "regex_search (regex (MALLOC_PATTERNS ! 4)) (bef @ ''malloc(sizeof(struct '' @ ty @ ''))'' @ aft) =
      Some ((\<lambda>_. [])(1 := ''struct '' @ ty))"
    and "regex_search (regex (MALLOC_PATTERNS ! 5)) (bef @ ''malloc(sizeof(struct '' @ ty @ ''))'' @ aft) =
      Some ((\<lambda>_. [])(1 := ty))"
proof -
  have all: "match_here sizeof_tail (''struct '' @ ty @ ''))'' @ aft) [] (\<lambda>_. []) = Some ((\<lambda>_. [])(1 := ''struct '' @ ty))"
    using match_sizeof_tail [of "''struct '' @ ty"] assms(2) by simp
  have name: "match_here sizeof_tail (ty @ ''))'' @ aft) [] (\<lambda>_. []) = Some ((\<lambda>_. [])(1 := ty))"
    by (rule match_sizeof_tail [OF assms(1,2)])
  obtain t ts where t: "ty = t # ts" "\<not> is_space t" using assms(1,3) by (cases ty) auto
  have sp: "\<not> is_space CHR ''m''" "\<not> is_space CHR ''s''" "\<not> is_space CHR ''(''" "is_space CHR '' ''"
    by (simp_all add: is_space_def)
  show "regex_search (regex (MALLOC_PATTERNS ! 4)) (bef @ ''malloc(sizeof(struct '' @ ty @ ''))'' @ aft) =
      Some ((\<lambda>_. [])(1 := ''struct '' @ ty))"
    unfolding sizeof_regex using all sp regex_search_skip [OF assms(4)] by simp
  show "regex_search (regex (MALLOC_PATTERNS ! 5)) (bef @ ''malloc(sizeof(struct '' @ ty @ ''))'' @ aft) =
      Some ((\<lambda>_. [])(1 := ty))"
    unfolding sizeof_regex using name sp t regex_search_skip [OF assms(4)] by simp
qed

lemma trim_struct: "type_word ty \<Longrightarrow> trim (''struct '' @ ty) = ''struct '' @ ty"
proof -
  assume a: "type_word ty"
  then have "\<not> blank (last ty)" "ty \<noteq> []"
    using last_in_set [of ty] by (auto simp: type_word_def blank_def is_space_def)
  then have "dropWhile blank (rev (''struct '' @ ty)) = rev (''struct '' @ ty)"
    by (simp add: dropWhile_eq_self_iff hd_append hd_rev)
  then show ?thesis by (simp add: trim_def blank_def)
qed

lemma sorted_two: "sorted xs \<Longrightarrow> distinct xs \<Longrightarrow> set xs = {a, b} \<Longrightarrow> (a :: string) < b \<Longrightarrow> xs = [a, b]"
  using sorted_distinct_set_unique [of xs "[a, b]"] by simp

text \<open>
  C39: In a line without \<open>*\<close> and comma, and without \<open>m\<close> before the call, that contains
  \<open>malloc(sizeof(struct T))\<close> two of the patterns match, one with the keyword and one without it; where
  \<open>T\<close> is one word without \<open>)\<close> whose first letter is greater than \<open>s\<close>, the reported type is
  \<open>struct T\<close>, with the lower confidence.
\<close>

theorem sizeof_struct_keeps_keyword:
  assumes "line = bef @ ''malloc(sizeof(struct '' @ ty @ ''))'' @ aft"
    and "type_word ty" and "CHR ''s'' < hd ty" and "CHR '')'' \<notin> set ty" and "CHR ''m'' \<notin> set bef"
    and "CHR ''*'' \<notin> set line" and "CHR '','' \<notin> set line"
  shows "te_type_name (extraction_of_line line) = ''struct '' @ ty \<and> te_confidence (extraction_of_line line) = 75"
proof -
  have ty: "ty \<noteq> []" "\<not> is_space (hd ty)" using assms(2) by (auto simp: type_word_def)
  note found = sizeof_found [OF ty(1) assms(4) ty(2) assms(5), of aft, folded assms(1)]
  have four: "type_in line (MALLOC_PATTERNS ! 4) = Some (''struct '' @ ty)"
    using trim_struct [OF assms(2)] by (simp add: type_in_def found)
  have five: "type_in line (MALLOC_PATTERNS ! 5) = Some ty"
    using trim_word [OF assms(2)] assms(2) by (simp add: type_in_def found) (simp add: type_word_def)
  note none = type_in_needs_char [OF star_patterns(1) assms(6)] type_in_needs_char [OF star_patterns(2) assms(6)]
    type_in_needs_char [OF star_patterns(3) assms(6)] type_in_needs_char [OF star_patterns(4) assms(7)]
    type_in_needs_char [OF star_patterns(5) assms(7)]
  have malloc_patterns: "length MALLOC_PATTERNS = 10" by (simp add: MALLOC_PATTERNS_def)
  have hit: "p = MALLOC_PATTERNS ! 4 \<or> p = MALLOC_PATTERNS ! 5"
    if mem: "p \<in> set MALLOC_PATTERNS" and some: "type_in line p \<noteq> None" for p
  proof -
    obtain i where "i < length MALLOC_PATTERNS" and i: "p = MALLOC_PATTERNS ! i"
      using mem unfolding in_set_conv_nth by blast
    then have lt: "i < 10" using malloc_patterns by simp
    have "i \<notin> {0, 1, 2, 3, 6, 7, 8, 9}"
    proof
      assume "i \<in> {0, 1, 2, 3, 6, 7, 8, 9}"
      then have "type_in line p = None" unfolding i by (rule none(1))
      with some show False by simp
    qed
    with lt have "i = 4 \<or> i = 5" by simp arith
    with i show ?thesis by blast
  qed
  have "MALLOC_PATTERNS ! 4 \<in> set MALLOC_PATTERNS" "MALLOC_PATTERNS ! 5 \<in> set MALLOC_PATTERNS"
    by (simp_all add: MALLOC_PATTERNS_def)
  then have "set (types_in MALLOC_PATTERNS line) = {''struct '' @ ty, ty}"
    using four five hit by (fastforce simp: types_in_set)
  moreover have "''struct '' @ ty < ty" using assms(3) ty(1) by (cases ty) simp_all
  ultimately have m: "extract_malloc_types line = [''struct '' @ ty, ty]"
    using types_in_line [of line MALLOC_PATTERNS] sorted_two
    by (simp add: extract_malloc_types_def line_types_def)
  have empty: "types_in ps line = []" if "\<forall>p \<in> set ps. type_in line p = None" for ps
  proof -
    have "set (types_in ps line) = {}" using that by (auto simp: types_in_set)
    then show ?thesis by simp
  qed
  have "\<forall>p \<in> set CALLOC_PATTERNS. type_in line p = None" "\<forall>p \<in> set REALLOC_PATTERNS. type_in line p = None"
  proof -
    have six: "i < 4 \<or> i \<in> {4, 5}" if "i < 6" for i :: nat using that by auto
    have "length CALLOC_PATTERNS = 6" "length REALLOC_PATTERNS = 6"
      by (simp_all add: CALLOC_PATTERNS_def REALLOC_PATTERNS_def)
    with none six show "\<forall>p \<in> set CALLOC_PATTERNS. type_in line p = None" "\<forall>p \<in> set REALLOC_PATTERNS. type_in line p = None"
      by (metis in_set_conv_nth)+
  qed
  then have "extract_calloc_types line = []" "extract_realloc_types line = []"
    using empty by (simp_all add: extract_calloc_types_def extract_realloc_types_def)
  with m show ?thesis by (simp add: extraction_of_line_def Let_def)
qed

theorem sizeof_struct_keeps_keyword_witness:
  "te_type_name (extraction_of_line ''v = malloc(sizeof(struct vec));'') = ''struct vec''"
  using sizeof_struct_keeps_keyword [of "''v = malloc(sizeof(struct vec));''" "''v = ''" "''vec''" "'';''"]
  by (simp add: type_word_def is_space_def)

section \<open>The cache of source files\<close>

text \<open>A cache that holds what the files hold.\<close>

definition cache_ok :: "text_host \<Rightarrow> source_analyzer \<Rightarrow> bool" where
  "cache_ok th sa \<longleftrightarrow> (\<forall>f s. sa_cache sa f = Some s \<longrightarrow> file_content th f = Some s)"

lemma read_source_file_ok:
  assumes "cache_ok th sa"
  shows "fst (read_source_file th f sa) = (case file_content th f of None \<Rightarrow> [] | Some s \<Rightarrow> s) \<and>
    cache_ok th (snd (read_source_file th f sa)) \<and>
    sa_binary_path (snd (read_source_file th f sa)) = sa_binary_path sa"
  using assms by (auto simp: read_source_file_def cache_ok_def split: option.split)

text \<open>
  C36: While the files do not change, the result does not depend on what is cached, and the cache stays
  true to the files.
\<close>

theorem source_cache_is_transparent:
  assumes "cache_ok th sa"
  shows "fst (extract_type_from_source th pc sa) =
      fst (extract_type_from_source th pc (sa\<lparr>sa_cache := Map.empty\<rparr>)) \<and>
    cache_ok th (snd (extract_type_from_source th pc sa)) \<and>
    sa_binary_path (snd (extract_type_from_source th pc sa)) = sa_binary_path sa"
proof -
  have loc: "get_source_location th (sa\<lparr>sa_cache := Map.empty\<rparr>) pc = get_source_location th sa pc"
    by (simp add: get_source_location_def execute_addr2line_def)
  have empty: "cache_ok th (sa\<lparr>sa_cache := Map.empty\<rparr>)" by (simp add: cache_ok_def)
  note ok = read_source_file_ok [OF assms] and bare = read_source_file_ok [OF empty]
  show ?thesis
    using ok bare assms
    by (auto simp: extract_type_from_source_def loc get_source_line_def split_beta Let_def split: option.split)
qed

theorem source_cache_is_transparent_witness:
  "fst (extract_type_from_source \<lparr>popen = (\<lambda>_. Some ''a.c:1''), file_content = (\<lambda>_. Some ''int x;'')\<rparr> 4
      \<lparr>sa_binary_path = ''demo'', sa_cache = [''a.c'' \<mapsto> ''int x;'']\<rparr>) =
   fst (extract_type_from_source \<lparr>popen = (\<lambda>_. Some ''a.c:1''), file_content = (\<lambda>_. Some ''int x;'')\<rparr> 4
      \<lparr>sa_binary_path = ''demo'', sa_cache = Map.empty\<rparr>)"
proof -
  let ?th = "\<lparr>popen = (\<lambda>_. Some ''a.c:1''), file_content = (\<lambda>_. Some ''int x;'')\<rparr>"
  let ?sa = "\<lparr>sa_binary_path = ''demo'', sa_cache = [''a.c'' \<mapsto> ''int x;'']\<rparr>"
  have "cache_ok ?th ?sa" by (simp add: cache_ok_def)
  from source_cache_is_transparent [OF this, of 4] show ?thesis
    by (simp only: source_analyzer.simps simp_thms)
qed

end
