(* ===== verification/Scoped_Handles.thy ===== *)
theory Scoped_Handles
  imports Prelude "HOL-Library.Multiset"
begin

text \<open>
  The owners of operating system handles in \<open>src/dwarf/dwarf_analyzer.h\<close>: \<open>ScopedFd\<close>, \<open>ScopedMmap\<close>,
  \<open>ScopedElf\<close> and \<open>ScopedDwarf\<close>, which can be moved but not copied. Objects live in a store, so that an
  assignment to oneself is an assignment with equal indices. Handles that were closed and handles that
  \<open>release\<close> gave up are logged. The theorem is that no handle is lost and none is closed twice.
\<close>

section \<open>Objects\<close>

text \<open>The four classes differ in what they hold, in the value that holds nothing, and in what they close.\<close>

record 'h wrapper =
  held :: "'h \<Rightarrow> bool"
  nothing :: 'h

definition MAP_FAILED :: u64 where
  "MAP_FAILED = - 1"

definition fd_wrapper :: "s32 wrapper" where
  "fd_wrapper = \<lparr>held = (\<lambda>fd. 0 \<le> sint fd), nothing = - 1\<rparr>"

definition mmap_wrapper :: "(u64 \<times> u64) wrapper" where
  "mmap_wrapper = \<lparr>held = (\<lambda>(ptr, size). ptr \<noteq> 0 \<and> ptr \<noteq> MAP_FAILED), nothing = (0, 0)\<rparr>"

definition elf_wrapper :: "u64 wrapper" where
  "elf_wrapper = \<lparr>held = (\<lambda>elf. elf \<noteq> 0), nothing = 0\<rparr>"

definition dwarf_wrapper :: "u64 wrapper" where
  "dwarf_wrapper = \<lparr>held = (\<lambda>dwarf. dwarf \<noteq> 0), nothing = 0\<rparr>"

text \<open>An object is present from its construction to its destruction.\<close>

record 'h scope =
  objects :: "'h option list"
  closed :: "'h list"
  given_up :: "'h list"

definition empty_scope :: "'h scope" where
  "empty_scope = \<lparr>objects = [], closed = [], given_up = []\<rparr>"

section \<open>Operations\<close>

definition object :: "'h scope \<Rightarrow> nat \<Rightarrow> 'h option" where
  "object st i = (if i < length (objects st) then objects st ! i else None)"

definition close_handle :: "'h wrapper \<Rightarrow> 'h \<Rightarrow> 'h scope \<Rightarrow> 'h scope" where
  "close_handle w h st = (if held w h then st\<lparr>closed := closed st @ [h]\<rparr> else st)"

definition scoped_construct :: "'h \<Rightarrow> 'h scope \<Rightarrow> 'h scope option" where
  "scoped_construct h st = Some (st\<lparr>objects := objects st @ [Some h]\<rparr>)"

definition scoped_destroy :: "'h wrapper \<Rightarrow> nat \<Rightarrow> 'h scope \<Rightarrow> 'h scope option" where
  "scoped_destroy w i st =
     (case object st i of
        None \<Rightarrow> None
      | Some h \<Rightarrow> Some (close_handle w h (st\<lparr>objects := (objects st)[i := None]\<rparr>)))"

definition scoped_move :: "'h wrapper \<Rightarrow> nat \<Rightarrow> 'h scope \<Rightarrow> 'h scope option" where
  "scoped_move w other st =
     (case object st other of
        None \<Rightarrow> None
      | Some h \<Rightarrow> Some (st\<lparr>objects := (objects st)[other := Some (nothing w)] @ [Some h]\<rparr>))"

definition scoped_assign :: "'h wrapper \<Rightarrow> nat \<Rightarrow> nat \<Rightarrow> 'h scope \<Rightarrow> 'h scope option" where
  "scoped_assign w this other st =
     (case (object st this, object st other) of
        (Some h, Some k) \<Rightarrow>
          if this \<noteq> other then
            Some (close_handle w h
              (st\<lparr>objects := (objects st)[this := Some k, other := Some (nothing w)]\<rparr>))
          else Some st
      | _ \<Rightarrow> None)"

definition scoped_release :: "'h wrapper \<Rightarrow> nat \<Rightarrow> 'h scope \<Rightarrow> 'h scope option" where
  "scoped_release w i st =
     (case object st i of
        None \<Rightarrow> None
      | Some h \<Rightarrow>
          Some (st\<lparr>objects := (objects st)[i := Some (nothing w)],
                   given_up := (if held w h then given_up st @ [h] else given_up st)\<rparr>))"

datatype 'h scoped_op = Construct 'h | Move_Construct nat | Move_Assign nat nat | Release_Handle nat | Destroy nat

fun scoped_step :: "'h wrapper \<Rightarrow> 'h scoped_op \<Rightarrow> 'h scope \<Rightarrow> 'h scope option" where
  "scoped_step w (Construct h) st = scoped_construct h st"
| "scoped_step w (Move_Construct other) st = scoped_move w other st"
| "scoped_step w (Move_Assign this other) st = scoped_assign w this other st"
| "scoped_step w (Release_Handle i) st = scoped_release w i st"
| "scoped_step w (Destroy i) st = scoped_destroy w i st"

definition fd_step :: "s32 scoped_op \<Rightarrow> s32 scope \<Rightarrow> s32 scope option" where
  "fd_step = scoped_step fd_wrapper"

definition mmap_step :: "(u64 \<times> u64) scoped_op \<Rightarrow> (u64 \<times> u64) scope \<Rightarrow> (u64 \<times> u64) scope option" where
  "mmap_step = scoped_step mmap_wrapper"

definition elf_step :: "u64 scoped_op \<Rightarrow> u64 scope \<Rightarrow> u64 scope option" where
  "elf_step = scoped_step elf_wrapper"

definition dwarf_step :: "u64 scoped_op \<Rightarrow> u64 scope \<Rightarrow> u64 scope option" where
  "dwarf_step = scoped_step dwarf_wrapper"

text \<open>A run has no result when an operation refers to an object that is not present.\<close>

fun run_ops :: "('o \<Rightarrow> 's \<Rightarrow> 's option) \<Rightarrow> 'o list \<Rightarrow> 's \<Rightarrow> 's option" where
  "run_ops f [] st = Some st"
| "run_ops f (x # xs) st = Option.bind (f x st) (run_ops f xs)"

section \<open>No handle is lost or closed twice\<close>

text \<open>The handles that objects hold, and those that were handed to constructors.\<close>

definition owned :: "'h wrapper \<Rightarrow> 'h option list \<Rightarrow> 'h multiset" where
  "owned w xs = mset (filter (held w) (List.map_filter (\<lambda>x. x) xs))"

definition acquired :: "'h wrapper \<Rightarrow> 'h scoped_op list \<Rightarrow> 'h multiset" where
  "acquired w ops = mset (filter (held w) (List.map_filter (\<lambda>x. case x of Construct h \<Rightarrow> Some h | _ \<Rightarrow> None) ops))"

definition accounted :: "'h wrapper \<Rightarrow> 'h scope \<Rightarrow> 'h multiset" where
  "accounted w st = mset (closed st) + mset (given_up st) + owned w (objects st)"

definition owned_one :: "'h wrapper \<Rightarrow> 'h option \<Rightarrow> 'h multiset" where
  "owned_one w x = (case x of None \<Rightarrow> {#} | Some h \<Rightarrow> if held w h then {#h#} else {#})"

lemma owned_simps [simp]:
  "owned w [] = {#}" "owned w (x # xs) = owned_one w x + owned w xs" "owned w (xs @ ys) = owned w xs + owned w ys"
  by (auto simp: owned_def owned_one_def map_filter_def split: option.split)

lemma owned_update: "i < length xs \<Longrightarrow> owned w (xs[i := x]) + owned_one w (xs ! i) = owned w xs + owned_one w x"
proof (induction xs arbitrary: i)
  case (Cons y ys)
  then show ?case by (cases i) (simp_all add: ac_simps)
qed simp

lemma exchange: "a + c = x \<Longrightarrow> x + b = y + c \<Longrightarrow> a + b = (y :: 'm multiset)"
proof -
  assume "a + c = x" "x + b = y + c"
  then have "(a + b) + c = y + c" by (metis add.assoc add.commute)
  then show ?thesis by (rule add_right_imp_eq)
qed

locale wrapping =
  fixes w :: "'h wrapper"
  assumes nothing_held: "\<not> held w (nothing w)"
begin

lemma owned_nothing [simp]: "owned_one w (Some (nothing w)) = {#}" "owned_one w None = {#}"
  by (simp_all add: owned_one_def nothing_held)

lemma accounted_close:
  "accounted w (close_handle w h st) = accounted w st + owned_one w (Some h)"
  by (simp add: accounted_def close_handle_def owned_one_def)

lemma owned_take:
  "object st i = Some h \<Longrightarrow> x = None \<or> x = Some (nothing w) \<Longrightarrow>
   owned w ((objects st)[i := x]) + owned_one w (Some h) = owned w (objects st)"
  using owned_update [of i "objects st" w x] by (auto simp: object_def split: if_splits)

lemma step_accounted:
  assumes "scoped_step w x st = Some st'"
  shows "accounted w st' = accounted w st + acquired w [x]"
proof (cases x)
  case (Construct h)
  with assms show ?thesis
    by (auto simp: scoped_construct_def accounted_def acquired_def owned_one_def map_filter_def)
next
  case (Move_Construct other)
  with assms obtain h where h: "object st other = Some h"
    and st': "st' = st\<lparr>objects := (objects st)[other := Some (nothing w)] @ [Some h]\<rparr>"
    by (auto simp: scoped_move_def split: option.splits)
  show ?thesis using owned_take [OF h] Move_Construct by (simp add: st' accounted_def acquired_def map_filter_def)
next
  case (Move_Assign this other)
  with assms obtain h k where hk: "object st this = Some h" "object st other = Some k"
    and st': "st' = (if this \<noteq> other then close_handle w h
        (st\<lparr>objects := (objects st)[this := Some k, other := Some (nothing w)]\<rparr>) else st)"
    by (auto simp: scoped_assign_def split: option.splits if_splits)
  have l: "this < length (objects st)" "objects st ! this = Some h" "other < length (objects st)" "objects st ! other = Some k"
    using hk by (auto simp: object_def split: if_splits)
  let ?xs = "(objects st)[this := Some k]"
  have "owned w (?xs[other := Some (nothing w)]) + owned_one w (Some k) = owned w ?xs" if "this \<noteq> other"
    using owned_update [of other ?xs w "Some (nothing w)"] l that by simp
  moreover have "owned w ?xs + owned_one w (Some h) = owned w (objects st) + owned_one w (Some k)"
    using owned_update [OF l(1), of w "Some k"] l by simp
  ultimately have eq: "owned w (?xs[other := Some (nothing w)]) + owned_one w (Some h) = owned w (objects st)"
    if "this \<noteq> other"
    using that by (blast intro: exchange)
  have "accounted w st' = accounted w st"
  proof (cases "this = other")
    case True
    then show ?thesis by (simp add: st')
  next
    case False
    have "accounted w st' = mset (closed st) + mset (given_up st) +
        (owned w (?xs[other := Some (nothing w)]) + owned_one w (Some h))"
      by (simp add: st' False accounted_close) (simp add: accounted_def)
    then show ?thesis unfolding eq [OF False] by (simp add: accounted_def)
  qed
  then show ?thesis using Move_Assign by (simp add: acquired_def map_filter_def)
next
  case (Release_Handle i)
  with assms obtain h where h: "object st i = Some h"
    and st': "st' = st\<lparr>objects := (objects st)[i := Some (nothing w)],
        given_up := (if held w h then given_up st @ [h] else given_up st)\<rparr>"
    by (auto simp: scoped_release_def split: option.splits)
  have "mset (given_up st') = mset (given_up st) + owned_one w (Some h)" by (simp add: st' owned_one_def)
  then show ?thesis using owned_take [OF h, of "Some (nothing w)"] Release_Handle
    by (simp add: st' accounted_def acquired_def map_filter_def ac_simps)
next
  case (Destroy i)
  with assms obtain h where h: "object st i = Some h"
    and st': "st' = close_handle w h (st\<lparr>objects := (objects st)[i := None]\<rparr>)"
    by (auto simp: scoped_destroy_def split: option.splits)
  show ?thesis using owned_take [OF h, of None] Destroy
    by (simp add: st' accounted_close) (simp add: accounted_def acquired_def map_filter_def ac_simps)
qed

lemma run_accounted:
  "run_ops (scoped_step w) ops st = Some st' \<Longrightarrow> accounted w st' = accounted w st + acquired w ops"
proof (induction ops arbitrary: st)
  case Nil
  then show ?case by (simp add: acquired_def map_filter_def)
next
  case (Cons x ops)
  then obtain s where s: "scoped_step w x st = Some s" "run_ops (scoped_step w) ops s = Some st'"
    by (auto simp: bind_eq_Some_conv)
  have "acquired w (x # ops) = acquired w [x] + acquired w ops"
    by (simp add: acquired_def map_filter_def)
  then show ?case using step_accounted [OF s(1)] Cons.IH [OF s(2)] by (simp add: ac_simps)
qed

end

interpretation fd: wrapping fd_wrapper
  by unfold_locales (simp add: fd_wrapper_def)

interpretation mmap: wrapping mmap_wrapper
  by unfold_locales (simp add: mmap_wrapper_def)

interpretation elf: wrapping elf_wrapper
  by unfold_locales (simp add: elf_wrapper_def)

interpretation dwarf: wrapping dwarf_wrapper
  by unfold_locales (simp add: dwarf_wrapper_def)

text \<open>The handles of a scope without objects that were closed, which are those acquired and not given up.\<close>

definition balanced :: "'h wrapper \<Rightarrow> 'h scoped_op list \<Rightarrow> 'h scope option \<Rightarrow> bool" where
  "balanced w ops r =
     (case r of
        None \<Rightarrow> True
      | Some st \<Rightarrow> mset (closed st) + mset (given_up st) + owned w (objects st) = acquired w ops)"

lemma balanced_run:
  assumes "wrapping w"
  shows "balanced w ops (run_ops (scoped_step w) ops empty_scope)"
proof (cases "run_ops (scoped_step w) ops empty_scope")
  case (Some st)
  from wrapping.run_accounted [OF assms Some] show ?thesis
    by (simp add: Some balanced_def) (simp add: accounted_def empty_scope_def)
qed (simp add: balanced_def)

text \<open>
  C31: However the owners of descriptors, mappings, ELF and DWARF handles are constructed, moved, assigned,
  released and destroyed: each handle that a constructor was given is afterwards held by one object, or
  was given up, or was closed, and only one of these and only once.
\<close>

theorem handles_are_closed_once:
  "balanced fd_wrapper ops1 (run_ops fd_step ops1 empty_scope) \<and>
   balanced mmap_wrapper ops2 (run_ops mmap_step ops2 empty_scope) \<and>
   balanced elf_wrapper ops3 (run_ops elf_step ops3 empty_scope) \<and>
   balanced dwarf_wrapper ops4 (run_ops dwarf_step ops4 empty_scope)"
  unfolding fd_step_def mmap_step_def elf_step_def dwarf_step_def
  by (intro conjI balanced_run fd.wrapping_axioms mmap.wrapping_axioms elf.wrapping_axioms dwarf.wrapping_axioms)

text \<open>A descriptor that is moved into a member which held another one: both are closed at the end.\<close>

lemma moved_descriptor:
  "map_option closed (run_ops fd_step
     [Construct 3, Construct 4, Move_Assign 0 1, Destroy 1, Move_Assign 0 0, Destroy 0] empty_scope) = Some [3, 4]"
  by (simp add: fd_step_def scoped_construct_def scoped_assign_def scoped_destroy_def object_def close_handle_def
      fd_wrapper_def empty_scope_def)

end
